theory Spec2Isabelle
  imports Complex_Main "HOL-Library.Sublist"
begin

section \<open>The electrostatic force-field generator (ppafm/cli/generateElFF.py)\<close>

text \<open>
  The script \<^verbatim>\<open>generateElFF.py\<close> consists of one function, \<^verbatim>\<open>main\<close>. It loads a
  sample Hartree potential, builds a tip kernel, optionally runs the KPFM branch, and
  calls the correlation routine \<^verbatim>\<open>PPH.computeElFF\<close>. The routines of \<^verbatim>\<open>ppafm.io\<close>,
  \<^verbatim>\<open>ppafm.HighLevel\<close> and \<^verbatim>\<open>ppafm\<close> that it calls are not part of the sources at hand;
  they are parameters of the model (the record \<open>env\<close> below).

  Array elements are modelled as real numbers (exact arithmetic). numpy yields
  \<open>inf\<close>/\<open>nan\<close> where an array is divided by zero, HOL yields \<open>0\<close>; statements about
  quotients therefore carry the hypothesis that the divisor is not zero.
\<close>

subsection \<open>Strings\<close>

text \<open>
  \<^verbatim>\<open>s.lower().endswith(ext)\<close>. Strings are byte lists; \<open>lower\<close> maps the ASCII capitals,
  which is all that can produce the ASCII extensions the script tests for.
\<close>

definition lower_char :: "char \<Rightarrow> char" where
  "lower_char c =
     (case map_of (zip ''ABCDEFGHIJKLMNOPQRSTUVWXYZ'' ''abcdefghijklmnopqrstuvwxyz'') c of
        Some d \<Rightarrow> d
      | None \<Rightarrow> c)"

definition lower :: "string \<Rightarrow> string" where
  "lower s = map lower_char s"

definition endswith :: "string \<Rightarrow> string \<Rightarrow> bool" where
  "endswith s suf = (length suf \<le> length s \<and> drop (length s - length suf) s = suf)"

subsection \<open>Exceptions\<close>

text \<open>
  The Python exceptions that \<^verbatim>\<open>main\<close> itself can raise, and \<open>External\<close> for an exception
  raised inside one of the routines that are parameters of the model.
\<close>

datatype error =
    TypeError string
  | NameError string
  | IndexError string
  | ValueError string
  | AttributeError string
  | Exception string
  | External string

text \<open>
  The error taxonomy of the specification, and the exceptions of \<^verbatim>\<open>main\<close> that belong to
  it. The only \<^verbatim>\<open>raise\<close> statement of the script is the one of line 53; the script has no
  exception for a missing reference voltage.
\<close>

datatype spec_error =
  ShapeMismatch | MissingValenceData | MissingReferenceVoltage | InvalidDensityRequest

definition no_tip_density_msg :: string where
  "no_tip_density_msg = '' Rcore>0 but no tip density provided ! ''"

fun classify :: "error \<Rightarrow> spec_error option" where
  "classify (Exception m) = (if m = no_tip_density_msg then Some InvalidDensityRequest else None)"
| "classify _ = None"

subsection \<open>numpy arrays\<close>

text \<open>
  An array is its shape and its elements by multi-index. The operations are the ones
  \<^verbatim>\<open>main\<close> applies: \<^verbatim>\<open>V *= -1\<close> and \<^verbatim>\<open>-rho_tip\<close> (element-wise negation), \<^verbatim>\<open>a - b\<close>
  (with numpy's broadcasting of the shapes, \<^verbatim>\<open>ValueError\<close> when they do not fit),
  and \<^verbatim>\<open>F[i,:,:] = F[i,:,:] / c\<close> on one slice of the first axis.
\<close>

record ndarray =
  shp :: "nat list"
  el :: "nat list \<Rightarrow> real"

definition np_neg :: "ndarray \<Rightarrow> ndarray" where
  "np_neg a = a\<lparr>el := (\<lambda>idx. - el a idx)\<rparr>"

fun bcast_rev :: "nat list \<Rightarrow> nat list \<Rightarrow> nat list option" where
  "bcast_rev [] ys = Some ys"
| "bcast_rev xs [] = Some xs"
| "bcast_rev (x # xs) (y # ys) =
     (if x = y \<or> y = 1 then map_option ((#) x) (bcast_rev xs ys)
      else if x = 1 then map_option ((#) y) (bcast_rev xs ys)
      else None)"

definition bcast :: "nat list \<Rightarrow> nat list \<Rightarrow> nat list option" where
  "bcast s t = map_option rev (bcast_rev (rev s) (rev t))"

definition fit :: "nat list \<Rightarrow> nat list \<Rightarrow> nat list" where
  "fit s idx = map2 (\<lambda>d i. if d = 1 then 0 else i) s (drop (length idx - length s) idx)"

definition np_sub :: "ndarray \<Rightarrow> ndarray \<Rightarrow> error + ndarray" where
  "np_sub a b =
     (case bcast (shp a) (shp b) of
        None \<Rightarrow> Inl (ValueError ''operands could not be broadcast together'')
      | Some s \<Rightarrow>
          Inr \<lparr>shp = s, el = (\<lambda>idx. el a (fit (shp a) idx) - el b (fit (shp b) idx))\<rparr>)"

definition slice_ok :: "ndarray \<Rightarrow> nat \<Rightarrow> bool" where
  \<comment> \<open>\<^verbatim>\<open>F[i,:,:]\<close> needs at least three axes and \<open>i\<close> within the first one\<close>
  "slice_ok a i = (3 \<le> length (shp a) \<and> i < hd (shp a))"

definition div_slice :: "ndarray \<Rightarrow> nat \<Rightarrow> real \<Rightarrow> ndarray" where
  "div_slice a i c =
     a\<lparr>el := (\<lambda>idx. if idx \<noteq> [] \<and> hd idx = i then el a idx / c else el a idx)\<rparr>"

definition linspace :: "real \<Rightarrow> real \<Rightarrow> nat \<Rightarrow> real list" where
  \<comment> \<open>\<^verbatim>\<open>np.linspace(start, stop, num)\<close>, end point included\<close>
  "linspace start stop num =
     (if num = 1 then [start]
      else map (\<lambda>i. start + real i * ((stop - start) / real (num - 1))) [0..<num])"

definition np_imul :: "ndarray \<Rightarrow> real \<Rightarrow> ndarray" where
  \<comment> \<open>\<^verbatim>\<open>a *= c\<close>, in place: the caller stores the result at the address of \<open>a\<close>\<close>
  "np_imul a c = a\<lparr>el := (\<lambda>idx. el a idx * c)\<rparr>"

subsection \<open>Command line, parameters and the external routines\<close>

type_synonym addr = nat
type_synonym lvec = "nat \<Rightarrow> nat \<Rightarrow> real"
type_synonym ndim = "nat \<times> nat \<times> nat"
type_synonym head = string
type_synonym atoms = "real list list"
type_synonym gridfile = "ndarray \<times> lvec \<times> ndim \<times> head"

text \<open>
  The parsed command line. \<open>tip_dens\<close>, \<open>KPFM_sample\<close> and \<open>Vref\<close> have the default
  \<^verbatim>\<open>None\<close>. Line 119 reads \<^verbatim>\<open>args.borh\<close>, an option the script never declares:
  \<open>has_borh\<close> says whether the parser (not part of the sources at hand) provides it.
\<close>

record args =
  input :: string
  output_format :: string
  Rcore :: real
  energy :: bool
  tip_dens :: "string option"
  doDensity :: bool
  tilt :: real
  KPFM_tip :: string
  KPFM_sample :: "string option"
  Vref :: "real option"
  z0 :: real
  has_borh :: bool

text \<open>
  A tip is a symbolic model (a name such as \<^verbatim>\<open>'s'\<close> or \<^verbatim>\<open>'.py'\<close>, or a dictionary of
  multipole coefficients) or a density array. \<open>tipval\<close> is what a Python variable holds
  (an array by reference), \<open>kernel\<close> what the correlation routine is given to read.
\<close>

datatype tipspec = TipName string | TipDict "(string \<times> real) list"
datatype tipval = Sym tipspec | Arr addr
datatype kernel = KSym tipspec | KArr ndarray

text \<open>
  \<^verbatim>\<open>PPU.params\<close> after lines 38 to 49 (\<^verbatim>\<open>loadParams\<close>, \<^verbatim>\<open>apply_options\<close>,
  \<^verbatim>\<open>loadSpecies\<close>): the three entries \<^verbatim>\<open>main\<close> reads.
\<close>

record settings =
  params_tip :: tipspec
  params_sigma :: real
  params_probeType :: string

text \<open>
  What \<^verbatim>\<open>PPH.computeElFF\<close> returns (force field and energy), and what it leaves in the two
  arrays it was passed: the comment of line 136 says that it turns the tip array upside
  down, so the routine may write to its arguments.
\<close>

record conv_out =
  FF :: ndarray
  Epot :: "ndarray option"
  V_after :: ndarray
  tip_after :: ndarray

text \<open>
  The routines of \<^verbatim>\<open>ppafm\<close>, \<^verbatim>\<open>ppafm.io\<close> and \<^verbatim>\<open>ppafm.HighLevel\<close> called by \<^verbatim>\<open>main\<close>.
  Each returns its result or the message of the exception it raised. \<open>subtractCoreDensities\<close> gives the
  contents of \<^verbatim>\<open>rho_tip\<close> after the call: \<^verbatim>\<open>main\<close> discards the value the call returns
  (line 85). \<open>tip_py\<close> is the outcome of reading and executing \<^verbatim>\<open>tip.py\<close> (line 73): the
  exception raised, or the value that the name \<^verbatim>\<open>tipMultipole\<close> has for \<^verbatim>\<open>main\<close> afterwards,
  \<open>None\<close> when it has none (code run by \<^verbatim>\<open>exec\<close> inside a function binds its names in a
  copy of the local scope, so an assignment at the top of \<^verbatim>\<open>tip.py\<close> does not reach \<^verbatim>\<open>main\<close>).
  The optional arguments \<^verbatim>\<open>hartree\<close> and \<^verbatim>\<open>sigma\<close> are \<open>None\<close> where the call
  leaves them to the routine's default.
\<close>

record env =
  load_settings :: "string + settings"
  loadValenceElectronDict :: "string + (string \<times> nat) list"
  getAtomsWhichTouchPBCcell :: "string \<Rightarrow> real \<Rightarrow> string + (real list list \<times> nat list)"
  loadGeometry :: "string \<Rightarrow> string + (atoms \<times> ndim \<times> lvec)"
  primcoords2Xsf :: "real list \<Rightarrow> real list list \<Rightarrow> lvec \<Rightarrow> string + head"
  loadXSF :: "string \<Rightarrow> string + gridfile"
  loadCUBE :: "string \<Rightarrow> bool option \<Rightarrow> string + gridfile"
  tip_py :: "string + tipspec option"
  subtractCoreDensities ::
    "ndarray \<Rightarrow> lvec \<Rightarrow> nat list \<Rightarrow> real list list \<Rightarrow> (string \<times> nat) list \<Rightarrow> real \<Rightarrow> head
       \<Rightarrow> string + ndarray"
  computeElFF ::
    "ndarray \<Rightarrow> lvec \<Rightarrow> ndim \<Rightarrow> kernel \<Rightarrow> bool \<Rightarrow> real \<Rightarrow> real option \<Rightarrow> string + conv_out"
  save_vec_field :: "string \<Rightarrow> ndarray \<Rightarrow> string + unit"
  save_scal_field :: "string \<Rightarrow> ndarray option \<Rightarrow> string + unit"

subsection \<open>The run: arrays by address, the trace of external calls, exceptions\<close>

text \<open>
  Every call that reads a file, computes a correlation or writes a field is recorded, in
  order, with the values it was given. The arrays live in a store, so that a copy and an
  alias differ.
\<close>

datatype event =
    LoadGeometry string
  | LoadXSF string
  | LoadCUBE string
  | TouchPBC string
  | ExecTipPy
  | SubtractCore ndarray
  | ComputeElFF ndarray lvec ndim kernel bool real "real option"
  | SaveVec string ndarray lvec string head "(atoms \<times> lvec) option"
  | SaveScal string "ndarray option" lvec string head "(atoms \<times> lvec) option"

record world =
  cells :: "addr \<Rightarrow> ndarray"
  nxt :: addr
  trace :: "event list"

type_synonym 'a run = "world \<Rightarrow> (error + 'a) \<times> world"

definition ret :: "'a \<Rightarrow> 'a run" where
  "ret x = (\<lambda>w. (Inr x, w))"

definition raise :: "error \<Rightarrow> 'a run" where
  "raise e = (\<lambda>w. (Inl e, w))"

definition thenR :: "'a run \<Rightarrow> ('a \<Rightarrow> 'b run) \<Rightarrow> 'b run" where
  "thenR m f = (\<lambda>w. case m w of (Inl e, w') \<Rightarrow> (Inl e, w') | (Inr x, w') \<Rightarrow> f x w')"

definition lift :: "error + 'a \<Rightarrow> 'a run" where
  \<comment> \<open>a numpy operation: its result or its exception\<close>
  "lift r = (\<lambda>w. (r, w))"

definition ext :: "string + 'a \<Rightarrow> 'a run" where
  \<comment> \<open>an external routine that touches no file: its result or its exception\<close>
  "ext r = (\<lambda>w. (case r of Inl m \<Rightarrow> Inl (External m) | Inr x \<Rightarrow> Inr x, w))"

definition call :: "event \<Rightarrow> string + 'a \<Rightarrow> 'a run" where
  \<comment> \<open>an external routine that reads or writes files, or correlates: recorded, then as \<open>ext\<close>\<close>
  "call ev r = (\<lambda>w. (case r of Inl m \<Rightarrow> Inl (External m) | Inr x \<Rightarrow> Inr x,
                       w\<lparr>trace := trace w @ [ev]\<rparr>))"

definition new_array :: "ndarray \<Rightarrow> addr run" where
  "new_array d = (\<lambda>w. (Inr (nxt w), w\<lparr>cells := (cells w)(nxt w := d), nxt := Suc (nxt w)\<rparr>))"

definition get_array :: "addr \<Rightarrow> ndarray run" where
  "get_array a = (\<lambda>w. (Inr (cells w a), w))"

definition set_array :: "addr \<Rightarrow> ndarray \<Rightarrow> unit run" where
  "set_array a d = (\<lambda>w. (Inr (), w\<lparr>cells := (cells w)(a := d)\<rparr>))"

definition copy :: "addr \<Rightarrow> addr run" where
  \<comment> \<open>\<^verbatim>\<open>a.copy()\<close>\<close>
  "copy a = thenR (get_array a) new_array"

subsection \<open>main, block by block\<close>

text \<open>Lines 51 to 55: the test for core subtraction and the data it needs.\<close>

definition bSubstractCore :: "args \<Rightarrow> bool" where
  "bSubstractCore A = (doDensity A \<and> Rcore A > 0 \<and> tip_dens A \<noteq> None)"

definition core_precheck ::
  "args \<Rightarrow> env \<Rightarrow> ((string \<times> nat) list \<times> real list list \<times> nat list) option run" where
  "core_precheck A E =
     (if bSubstractCore A then
        (case tip_dens A of
           None \<Rightarrow> raise (Exception no_tip_density_msg)
         | Some p \<Rightarrow>
             thenR (ext (loadValenceElectronDict E)) (\<lambda>valElDict.
             thenR (call (TouchPBC p) (getAtomsWhichTouchPBCcell E p (Rcore A))) (\<lambda>(Rs_tip, elems_tip).
             ret (Some (valElDict, Rs_tip, elems_tip)))))
      else ret None)"

text \<open>The two grid readers: the array they return is a new object.\<close>

definition load_xsf :: "env \<Rightarrow> string \<Rightarrow> (addr \<times> lvec \<times> ndim \<times> head) run" where
  "load_xsf E path =
     thenR (call (LoadXSF path) (loadXSF E path)) (\<lambda>(d, lv, nd, hd).
     thenR (new_array d) (\<lambda>a. ret (a, lv, nd, hd)))"

definition load_cube :: "env \<Rightarrow> string \<Rightarrow> bool option \<Rightarrow> (addr \<times> lvec \<times> ndim \<times> head) run" where
  "load_cube E path hartree =
     thenR (call (LoadCUBE path) (loadCUBE E path hartree)) (\<lambda>(d, lv, nd, hd).
     thenR (new_array d) (\<lambda>a. ret (a, lv, nd, hd)))"

text \<open>
  Lines 57 and 58: the geometry of the sample, for the headers of the output. Line 58
  reads the rows 0 to 3 of \<^verbatim>\<open>atoms_samp\<close>, and raises when there are fewer.
\<close>

definition load_sample_geometry :: "args \<Rightarrow> env \<Rightarrow> (atoms \<times> lvec \<times> head) run" where
  "load_sample_geometry A E =
     thenR (call (LoadGeometry (input A)) (loadGeometry E (input A))) (\<lambda>(atoms_samp, nDim_samp, lvec_samp).
     thenR (if length atoms_samp < 4 then raise (IndexError ''list index out of range'')
            else ret ()) (\<lambda>_.
     thenR (ext (primcoords2Xsf E (atoms_samp ! 0)
                   [atoms_samp ! 1, atoms_samp ! 2, atoms_samp ! 3] lvec_samp)) (\<lambda>head_samp.
     ret (atoms_samp, lvec_samp, head_samp))))"

text \<open>
  Lines 60 to 69: \<^verbatim>\<open>V\<close> stays \<^verbatim>\<open>None\<close> when the input is neither \<^verbatim>\<open>.xsf\<close> nor
  \<^verbatim>\<open>.cube\<close>, and \<^verbatim>\<open>V *= -1\<close> then raises; otherwise it negates the loaded array in place.
\<close>

definition load_potential :: "args \<Rightarrow> env \<Rightarrow> (addr \<times> lvec \<times> ndim \<times> head) run" where
  "load_potential A E =
     thenR
       (if endswith (lower (input A)) ''.xsf'' then
          thenR (load_xsf E (input A)) (\<lambda>g. ret (Some g))
        else if endswith (lower (input A)) ''.cube'' then
          thenR (load_cube E (input A) None) (\<lambda>g. ret (Some g))
        else ret None)
       (\<lambda>g. case g of
          None \<Rightarrow> raise (TypeError ''unsupported operand type(s) for *=: NoneType and int'')
        | Some (V, lvec, nDim, head) \<Rightarrow>
            thenR (get_array V) (\<lambda>d.
            thenR (set_array V (np_imul d (- 1))) (\<lambda>_.
            ret (V, lvec, nDim, head))))"

text \<open>
  Lines 71 to 76: a tip given as \<^verbatim>\<open>.py\<close> is replaced by what \<^verbatim>\<open>tip.py\<close> defines. Line 74
  reads the name \<^verbatim>\<open>tipMultipole\<close>, and raises when it is not bound.
\<close>

definition select_tip :: "env \<Rightarrow> tipspec \<Rightarrow> tipval run" where
  "select_tip E t =
     (if t = TipName ''.py'' then
        thenR (call ExecTipPy (tip_py E)) (\<lambda>tipMultipole.
          case tipMultipole of
            None \<Rightarrow> raise (NameError ''tipMultipole'')
          | Some m \<Rightarrow> ret (Sym m))
      else ret (Sym t))"

text \<open>
  Lines 78 to 87: the tip density is always read with \<^verbatim>\<open>loadXSF\<close>; the core densities
  are subtracted by a call whose value is discarded, so that only what it writes into
  \<^verbatim>\<open>rho_tip\<close> counts; \<^verbatim>\<open>-rho_tip\<close> is a new array. The result is \<^verbatim>\<open>PPU.params['tip']\<close>
  and the variable \<^verbatim>\<open>rho_tip\<close>, unbound (\<open>None\<close>) when no tip density was asked for.
\<close>

definition load_tip_density ::
  "args \<Rightarrow> env \<Rightarrow> ((string \<times> nat) list \<times> real list list \<times> nat list) option \<Rightarrow> tipval
     \<Rightarrow> (tipval \<times> addr option) run" where
  "load_tip_density A E core tip =
     (case tip_dens A of
        None \<Rightarrow> ret (tip, None)
      | Some p \<Rightarrow>
          thenR (load_xsf E p) (\<lambda>(rho_tip, lvec_tip, nDim_tip, head_tip).
          thenR
            (if bSubstractCore A then
               (case core of
                  None \<Rightarrow> raise (NameError ''elems_tip'')
                | Some (valElDict, Rs_tip, elems_tip) \<Rightarrow>
                    thenR (get_array rho_tip) (\<lambda>d.
                    thenR (call (SubtractCore d)
                             (subtractCoreDensities E d lvec_tip elems_tip Rs_tip valElDict
                                (Rcore A) head_tip)) (\<lambda>d'.
                    set_array rho_tip d')))
             else ret ())
            (\<lambda>_.
          thenR (get_array rho_tip) (\<lambda>d.
          thenR (new_array (np_neg d)) (\<lambda>neg_rho.
          ret (Arr neg_rho, Some rho_tip))))))"

text \<open>
  A call of \<^verbatim>\<open>PPH.computeElFF(V, lvec, nDim, tip, computeVpot, tilt, sigma)\<close>: the routine
  reads the two arrays, may write to them, and returns a new force-field array and the
  energy.
\<close>

definition kernel_of :: "tipval \<Rightarrow> kernel run" where
  "kernel_of t = (case t of Sym s \<Rightarrow> ret (KSym s) | Arr a \<Rightarrow> thenR (get_array a) (\<lambda>d. ret (KArr d)))"

definition run_computeElFF ::
  "env \<Rightarrow> addr \<Rightarrow> lvec \<Rightarrow> ndim \<Rightarrow> tipval \<Rightarrow> bool \<Rightarrow> real \<Rightarrow> real option
     \<Rightarrow> (addr \<times> ndarray option) run" where
  "run_computeElFF E V lvec nDim tip computeVpot tlt sigma =
     thenR (get_array V) (\<lambda>Vd.
     thenR (kernel_of tip) (\<lambda>k.
     thenR (call (ComputeElFF Vd lvec nDim k computeVpot tlt sigma)
              (computeElFF E Vd lvec nDim k computeVpot tlt sigma)) (\<lambda>r.
     thenR (set_array V (V_after r)) (\<lambda>_.
     thenR (case tip of Sym _ \<Rightarrow> ret () | Arr a \<Rightarrow> set_array a (tip_after r)) (\<lambda>_.
     thenR (new_array (FF r)) (\<lambda>F.
     ret (F, Epot r)))))))"

text \<open>
  Lines 89 to 108: two copies of the (negated) potential, the potential under bias, and
  their difference. \<^verbatim>\<open>Vref_s\<close> is bound in the two branches that load a file; with any
  other extension \<^verbatim>\<open>V_kpfm\<close> is still \<^verbatim>\<open>None\<close>, and numpy subtracts element by element:
  \<^verbatim>\<open>None - V_v0_aux\<close> raises on the first element, and is an array of the shape of
  \<^verbatim>\<open>V_v0_aux\<close> when that has no element. The readers rebind \<^verbatim>\<open>lvec\<close>, \<^verbatim>\<open>nDim\<close> and
  \<^verbatim>\<open>head\<close>.
\<close>

definition none_minus :: "ndarray \<Rightarrow> error + ndarray" where
  \<comment> \<open>\<^verbatim>\<open>None - a\<close>\<close>
  "none_minus a =
     (if 0 \<in> set (shp a) then Inr a
      else Inl (TypeError ''unsupported operand type(s) for -: NoneType and float''))"

definition arr_sub :: "addr \<Rightarrow> addr \<Rightarrow> addr run" where
  "arr_sub a b =
     thenR (get_array a) (\<lambda>x.
     thenR (get_array b) (\<lambda>y.
     thenR (lift (np_sub x y)) new_array))"

definition kpfm_load_sample ::
  "args \<Rightarrow> env \<Rightarrow> string \<Rightarrow> addr \<Rightarrow> lvec \<Rightarrow> ndim \<Rightarrow> head
     \<Rightarrow> (real option option \<times> addr \<times> lvec \<times> ndim \<times> head) run" where
  "kpfm_load_sample A E ks V_v0_aux lvec nDim head =
     thenR
       (if endswith (lower ks) ''.xsf'' then
          thenR (load_xsf E ks) (\<lambda>(V_kpfm, lvec, nDim, head).
          ret (Some (Vref A), Some V_kpfm, lvec, nDim, head))
        else if endswith (lower ks) ''.cube'' then
          thenR (load_cube E ks None) (\<lambda>(V_kpfm, lvec, nDim, head).
          ret (Some (Vref A), Some V_kpfm, lvec, nDim, head))
        else ret (None, None, lvec, nDim, head))
       (\<lambda>(Vref_s, V_kpfm, lvec, nDim, head).
          case V_kpfm of
            None \<Rightarrow>
              thenR (get_array V_v0_aux) (\<lambda>y.
              thenR (lift (none_minus y)) (\<lambda>d.
              thenR (new_array d) (\<lambda>dV_kpfm.
              ret (Vref_s, dV_kpfm, lvec, nDim, head))))
          | Some V_kpfm \<Rightarrow>
              thenR (arr_sub V_kpfm V_v0_aux) (\<lambda>dV_kpfm.
              ret (Vref_s, dV_kpfm, lvec, nDim, head)))"

text \<open>
  Lines 121 to 134: the analytic tip models. Three independent \<^verbatim>\<open>if\<close> statements; with
  any other probe type \<^verbatim>\<open>drho_kpfm\<close> stays unbound and \<^verbatim>\<open>sigma\<close> keeps its value.
\<close>

definition kpfm_tip_model :: "string \<Rightarrow> real \<Rightarrow> (string \<times> real) list option \<times> real" where
  "kpfm_tip_model probeType sigma =
     (let (drho_kpfm, sigma) =
            (if probeType = ''8'' then (Some [(''pz'', - 0.045)], 0.48) else (None, sigma));
          (drho_kpfm, sigma) =
            (if probeType = ''47'' then (Some [(''pz'', - 0.21875)], 0.7) else (drho_kpfm, sigma));
          (drho_kpfm, sigma) =
            (if probeType = ''54'' then (Some [(''pz'', - 0.250)], 0.67) else (drho_kpfm, sigma))
      in (drho_kpfm, sigma))"

text \<open>
  Lines 110 to 134: the tip density under bias. The two file branches copy \<^verbatim>\<open>rho_tip\<close>,
  which is bound only when a tip density was loaded (line 81). The result is
  \<^verbatim>\<open>Vref_t\<close>, \<^verbatim>\<open>drho_kpfm\<close> (each \<open>None\<close> when unbound) and \<^verbatim>\<open>sigma\<close>.
\<close>

definition kpfm_load_tip ::
  "args \<Rightarrow> env \<Rightarrow> settings \<Rightarrow> addr option \<Rightarrow> real
     \<Rightarrow> (real option option \<times> tipval option \<times> real) run" where
  "kpfm_load_tip A E S rho_tip sigma =
     (if endswith (lower (KPFM_tip A)) ''.xsf'' then
        (case rho_tip of
           None \<Rightarrow> raise (NameError ''rho_tip'')
         | Some rho_tip \<Rightarrow>
             thenR (copy rho_tip) (\<lambda>rho_tip_v0_aux.
             thenR (load_xsf E (KPFM_tip A)) (\<lambda>(rho_tip_kpfm, lvec_tip, nDim_tip, head_tip).
             thenR (arr_sub rho_tip_kpfm rho_tip_v0_aux) (\<lambda>drho_kpfm.
             ret (Some (Vref A), Some (Arr drho_kpfm), sigma)))))
      else if endswith (lower (KPFM_tip A)) ''.cube'' then
        (case rho_tip of
           None \<Rightarrow> raise (NameError ''rho_tip'')
         | Some rho_tip \<Rightarrow>
             thenR (copy rho_tip) (\<lambda>rho_tip_v0_aux.
             thenR (if has_borh A then ret () else raise (AttributeError ''borh'')) (\<lambda>_.
             thenR (load_cube E (KPFM_tip A) (Some False)) (\<lambda>(rho_tip_kpfm, lvec_tip, nDim_tip, head_tip).
             thenR (arr_sub rho_tip_kpfm rho_tip_v0_aux) (\<lambda>drho_kpfm.
             ret (Some (Vref A), Some (Arr drho_kpfm), sigma))))))
      else if KPFM_tip A \<in> {''Fit'', ''fit'', ''dipole'', ''pz''} then
        (case kpfm_tip_model (params_probeType S) sigma of
           (drho_kpfm, sigma) \<Rightarrow>
             ret (Some (Some (- 0.1)), map_option (\<lambda>d. Sym (TipDict d)) drho_kpfm, sigma))
      else ret (None, None, sigma))"

text \<open>
  Lines 136 to 141: the two correlations of the KPFM branch. The first is given a copy of
  the tip when the tip is a loaded density, and the tip itself otherwise.
\<close>

definition copy_tip :: "tipval \<Rightarrow> tipval run" where
  \<comment> \<open>\<^verbatim>\<open>PPU.params['tip'].copy()\<close>: arrays and dictionaries have the method, strings do not\<close>
  "copy_tip t =
     (case t of
        Arr a \<Rightarrow> thenR (copy a) (\<lambda>c. ret (Arr c))
      | Sym (TipDict d) \<Rightarrow> ret (Sym (TipDict d))
      | Sym (TipName n) \<Rightarrow> raise (AttributeError ''copy''))"

definition kpfm_convolve ::
  "args \<Rightarrow> env \<Rightarrow> tipval \<Rightarrow> addr \<Rightarrow> addr \<Rightarrow> lvec \<Rightarrow> ndim \<Rightarrow> tipval option \<Rightarrow> real
     \<Rightarrow> (addr \<times> addr) run" where
  "kpfm_convolve A E tip dV_kpfm V_v0_aux2 lvec nDim drho_kpfm sigma =
     thenR (if tip_dens A \<noteq> None then copy_tip tip else ret tip) (\<lambda>tip_aux_2.
     thenR (run_computeElFF E dV_kpfm lvec nDim tip_aux_2 (energy A) (tilt A) None)
       (\<lambda>(FFkpfm_t0sV, Eel_t0sV).
     thenR (case drho_kpfm of None \<Rightarrow> raise (NameError ''drho_kpfm'') | Some d \<Rightarrow> ret d)
       (\<lambda>drho_kpfm.
     thenR (run_computeElFF E V_v0_aux2 lvec nDim drho_kpfm (energy A) (tilt A) (Some sigma))
       (\<lambda>(FFkpfm_tVs0, Eel_tVs0).
     ret (FFkpfm_t0sV, FFkpfm_tVs0)))))"

text \<open>
  Lines 143 to 147: the loop over the slices. One statement of the loop body reads the
  slice, then the reference voltage (\<^verbatim>\<open>None\<close> when \<^verbatim>\<open>--Vref\<close> was not given, and the
  product raises), and writes the quotient back into the slice.
\<close>

definition norm_slice :: "addr \<Rightarrow> string \<Rightarrow> real option option \<Rightarrow> real list \<Rightarrow> nat \<Rightarrow> unit run" where
  "norm_slice F name Vr zpos i =
     thenR (get_array F) (\<lambda>d.
       if \<not> slice_ok d i then raise (IndexError ''index out of bounds'')
       else
         (case Vr of
            None \<Rightarrow> raise (NameError name)
          | Some None \<Rightarrow> raise (TypeError ''unsupported operand type(s) for *: NoneType and float'')
          | Some (Some v) \<Rightarrow> set_array F (div_slice d i (v * (zpos ! i + 0.1)))))"

fun normalise ::
  "addr \<Rightarrow> addr \<Rightarrow> real option option \<Rightarrow> real option option \<Rightarrow> real list \<Rightarrow> nat list \<Rightarrow> unit run"
  where
  "normalise FFkpfm_t0sV FFkpfm_tVs0 Vref_s Vref_t zpos [] = ret ()"
| "normalise FFkpfm_t0sV FFkpfm_tVs0 Vref_s Vref_t zpos (i # rest) =
     thenR (norm_slice FFkpfm_t0sV ''Vref_s'' Vref_s zpos i) (\<lambda>_.
     thenR (norm_slice FFkpfm_tVs0 ''Vref_t'' Vref_t zpos i) (\<lambda>_.
     normalise FFkpfm_t0sV FFkpfm_tVs0 Vref_s Vref_t zpos rest))"

text \<open>Lines 149 to 151: the two sensitivity maps are written.\<close>

definition kpfm_save :: "args \<Rightarrow> env \<Rightarrow> addr \<Rightarrow> addr \<Rightarrow> lvec \<Rightarrow> head \<Rightarrow> unit run" where
  "kpfm_save A E FFkpfm_t0sV FFkpfm_tVs0 lvec_samp head_samp =
     thenR (get_array FFkpfm_t0sV) (\<lambda>d1.
     thenR (call (SaveVec ''FFkpfm_t0sV'' d1 lvec_samp (output_format A) head_samp None)
              (save_vec_field E ''FFkpfm_t0sV'' d1)) (\<lambda>_.
     thenR (get_array FFkpfm_tVs0) (\<lambda>d2.
     call (SaveVec ''FFkpfm_tVs0'' d2 lvec_samp (output_format A) head_samp None)
       (save_vec_field E ''FFkpfm_tVs0'' d2))))"

text \<open>Lines 89 to 151: the KPFM branch, entered when \<^verbatim>\<open>--KPFM_sample\<close> is given.\<close>

definition kpfm_branch ::
  "args \<Rightarrow> env \<Rightarrow> settings \<Rightarrow> addr \<Rightarrow> lvec \<Rightarrow> ndim \<Rightarrow> head \<Rightarrow> tipval \<Rightarrow> addr option \<Rightarrow> lvec \<Rightarrow> head
     \<Rightarrow> (lvec \<times> ndim \<times> head) run" where
  "kpfm_branch A E S V lvec nDim head tip rho_tip lvec_samp head_samp =
     (case KPFM_sample A of
        None \<Rightarrow> ret (lvec, nDim, head)
      | Some ks \<Rightarrow>
          thenR (copy V) (\<lambda>V_v0_aux.
          thenR (copy V) (\<lambda>V_v0_aux2.
          thenR (kpfm_load_sample A E ks V_v0_aux lvec nDim head)
            (\<lambda>(Vref_s, dV_kpfm, lvec, nDim, head).
          thenR (kpfm_load_tip A E S rho_tip (params_sigma S)) (\<lambda>(Vref_t, drho_kpfm, sigma).
          thenR (kpfm_convolve A E tip dV_kpfm V_v0_aux2 lvec nDim drho_kpfm sigma)
            (\<lambda>(FFkpfm_t0sV, FFkpfm_tVs0).
          thenR (normalise FFkpfm_t0sV FFkpfm_tVs0 Vref_s Vref_t
                   (linspace (lvec 0 2 - z0 A) (lvec 3 2 - z0 A) (fst nDim)) [0..<fst nDim]) (\<lambda>_.
          thenR (kpfm_save A E FFkpfm_t0sV FFkpfm_tVs0 lvec_samp head_samp) (\<lambda>_.
          ret (lvec, nDim, head)))))))))"

text \<open>Lines 153 to 160: the main correlation and its output.\<close>

definition main_convolution ::
  "args \<Rightarrow> env \<Rightarrow> addr \<Rightarrow> lvec \<Rightarrow> ndim \<Rightarrow> tipval \<Rightarrow> atoms \<Rightarrow> lvec \<Rightarrow> head \<Rightarrow> unit run" where
  "main_convolution A E V lvec nDim tip atoms_samp lvec_samp head_samp =
     thenR (run_computeElFF E V lvec nDim tip (energy A) (tilt A) None) (\<lambda>(FFel, Eel).
     thenR (get_array FFel) (\<lambda>d.
     thenR (call (SaveVec ''FFel'' d lvec_samp (output_format A) head_samp
                    (Some (take 4 atoms_samp, lvec_samp)))
              (save_vec_field E ''FFel'' d)) (\<lambda>_.
     if energy A then
       call (SaveScal ''Eel'' Eel lvec_samp (output_format A) head_samp
               (Some (take 4 atoms_samp, lvec_samp)))
         (save_scal_field E ''Eel'' Eel)
     else ret ())))"

text \<open>The whole of \<^verbatim>\<open>main\<close>.\<close>

definition main :: "args \<Rightarrow> env \<Rightarrow> unit run" where
  "main A E =
     thenR (ext (load_settings E)) (\<lambda>S.
     thenR (core_precheck A E) (\<lambda>core.
     thenR (load_sample_geometry A E) (\<lambda>(atoms_samp, lvec_samp, head_samp).
     thenR (load_potential A E) (\<lambda>(V, lvec, nDim, head).
     thenR (select_tip E (params_tip S)) (\<lambda>tip.
     thenR (load_tip_density A E core tip) (\<lambda>(tip, rho_tip).
     thenR (kpfm_branch A E S V lvec nDim head tip rho_tip lvec_samp head_samp)
       (\<lambda>(lvec, nDim, head).
     main_convolution A E V lvec nDim tip atoms_samp lvec_samp head_samp)))))))"

definition start :: world where
  \<comment> \<open>before the run: no array allocated, nothing read or written\<close>
  "start = \<lparr>cells = (\<lambda>_. \<lparr>shp = [], el = (\<lambda>_. 0)\<rparr>), nxt = 0, trace = []\<rparr>"

subsection \<open>Reading a trace\<close>

text \<open>
  The outline of a trace keeps the correlations and the written fields, in order: a
  correlation as \<open>computeElFF\<close>, a written field by its name.
\<close>

fun outline :: "event list \<Rightarrow> string list" where
  "outline [] = []"
| "outline (ComputeElFF _ _ _ _ _ _ _ # t) = ''computeElFF'' # outline t"
| "outline (SaveVec n _ _ _ _ _ # t) = n # outline t"
| "outline (SaveScal n _ _ _ _ _ # t) = n # outline t"
| "outline (_ # t) = outline t"

definition full_outline :: "args \<Rightarrow> string list" where
  \<comment> \<open>the outline of a run that reaches the end of \<^verbatim>\<open>main\<close>\<close>
  "full_outline A =
     (if KPFM_sample A = None then []
      else [''computeElFF'', ''computeElFF'', ''FFkpfm_t0sV'', ''FFkpfm_tVs0''])
     @ [''computeElFF'', ''FFel''] @ (if energy A then [''Eel''] else [])"

subsection \<open>An example run\<close>

text \<open>
  A sample of one carbon atom at the origin and two slices, \<open>0.9\<close> high, with the
  potential \<open>3\<close> everywhere; a potential under bias and a tip density on the same grid. The correlation routine of the example
  returns a field of the shape of the potential with three components, leaves the
  potential alone and negates a tip array it is given; it fails, for lack of memory, on
  a potential that is negative at the origin when no \<open>sigma\<close> is passed.
\<close>

definition ex_lvec :: lvec where
  "ex_lvec = (\<lambda>i j. if i = 3 \<and> j = 2 then 0.9 else 0)"

definition const_grid :: "real \<Rightarrow> ndarray" where
  "const_grid c = \<lparr>shp = [2, 1, 1], el = (\<lambda>_. c)\<rparr>"

definition ex_conv ::
  "ndarray \<Rightarrow> lvec \<Rightarrow> ndim \<Rightarrow> kernel \<Rightarrow> bool \<Rightarrow> real \<Rightarrow> real option \<Rightarrow> string + conv_out" where
  "ex_conv V lv nd k cv tlt sg =
     Inr \<lparr>FF = \<lparr>shp = shp V @ [3], el = (\<lambda>idx. el V (butlast idx))\<rparr>,
          Epot = (if cv then Some V else None),
          V_after = V,
          tip_after = (case k of KArr d \<Rightarrow> np_neg d | KSym _ \<Rightarrow> V)\<rparr>"

definition ex_conv_short ::
  "ndarray \<Rightarrow> lvec \<Rightarrow> ndim \<Rightarrow> kernel \<Rightarrow> bool \<Rightarrow> real \<Rightarrow> real option \<Rightarrow> string + conv_out" where
  "ex_conv_short V lv nd k cv tlt sg =
     (if sg = None \<and> el V [0, 0, 0] < 0 then Inl ''MemoryError'' else ex_conv V lv nd k cv tlt sg)"

definition ex_env :: env where
  "ex_env = \<lparr>
     load_settings =
       Inr \<lparr>params_tip = TipName ''s'', params_sigma = 0.7, params_probeType = ''8''\<rparr>,
     loadValenceElectronDict = Inr [],
     getAtomsWhichTouchPBCcell = (\<lambda>_ _. Inr ([], [])),
     loadGeometry = (\<lambda>_. Inr ([[6], [0], [0], [0]], (2, 1, 1), ex_lvec)),
     primcoords2Xsf = (\<lambda>_ _ _. Inr ''head''),
     loadXSF = (\<lambda>p. if p = ''V.xsf'' then Inr (const_grid 3, ex_lvec, (2, 1, 1), ''V'')
                     else if p = ''Vb.xsf'' then Inr (const_grid 5, ex_lvec, (2, 1, 1), ''Vb'')
                     else if p = ''rho.xsf'' then Inr (const_grid 7, ex_lvec, (2, 1, 1), ''rho'')
                     else if p = ''rhob.xsf'' then Inr (const_grid 9, ex_lvec, (2, 1, 1), ''rhob'')
                     else Inl ''no such file''),
     loadCUBE = (\<lambda>_ _. Inl ''no such file''),
     tip_py = Inr None,
     subtractCoreDensities = (\<lambda>d _ _ _ _ _ _. Inr (np_imul d 0.5)),
     computeElFF = ex_conv,
     save_vec_field = (\<lambda>_ _. Inr ()),
     save_scal_field = (\<lambda>_ _. Inr ())\<rparr>"

definition ex_args :: args where
  "ex_args = \<lparr>input = ''V.xsf'', output_format = ''xsf'', Rcore = 0.7, energy = False,
     tip_dens = None, doDensity = False, tilt = 0, KPFM_tip = ''Fit'', KPFM_sample = None,
     Vref = None, z0 = 0, has_borh = False\<rparr>"

subsection \<open>Notions used in the statements\<close>

text \<open>
  \<open>quiet w w'\<close>: from \<open>w\<close> to \<open>w'\<close> nothing was correlated or written, and no array
  that existed in \<open>w\<close> was changed.
\<close>

definition quiet :: "world \<Rightarrow> world \<Rightarrow> bool" where
  "quiet w w' =
     ((\<exists>d. trace w' = trace w @ d \<and> outline d = []) \<and> nxt w \<le> nxt w' \<and>
      (\<forall>a<nxt w. cells w' a = cells w a))"

text \<open>What the readers return for a potential file, by its extension (lines 61 to 68).\<close>

definition read_grid :: "env \<Rightarrow> string \<Rightarrow> gridfile option" where
  "read_grid E p =
     (if endswith (lower p) ''.xsf'' then
        (case loadXSF E p of Inr g \<Rightarrow> Some g | Inl _ \<Rightarrow> None)
      else if endswith (lower p) ''.cube'' then
        (case loadCUBE E p None of Inr g \<Rightarrow> Some g | Inl _ \<Rightarrow> None)
      else None)"

text \<open>The header of line 58 on values: \<open>None\<close> when the line raises.\<close>

definition sample_head :: "env \<Rightarrow> atoms \<Rightarrow> lvec \<Rightarrow> head option" where
  "sample_head E atoms_samp lvec_samp =
     (if length atoms_samp < 4 then None
      else
        (case primcoords2Xsf E (atoms_samp ! 0)
                [atoms_samp ! 1, atoms_samp ! 2, atoms_samp ! 3] lvec_samp of
           Inl _ \<Rightarrow> None
         | Inr head_samp \<Rightarrow> Some head_samp))"

text \<open>
  Lines 93 to 108 on values: \<^verbatim>\<open>Vref_s\<close> (\<open>None\<close> when unbound), \<^verbatim>\<open>dV_kpfm\<close> and the grid
  the branch goes on with; \<open>None\<close> when the block fails. \<open>negV\<close> is the contents of \<^verbatim>\<open>V\<close>.
\<close>

definition kpfm_sample ::
  "args \<Rightarrow> env \<Rightarrow> string \<Rightarrow> ndarray \<Rightarrow> lvec \<Rightarrow> ndim \<Rightarrow> head
     \<Rightarrow> (real option option \<times> ndarray \<times> lvec \<times> ndim \<times> head) option" where
  "kpfm_sample A E ks negV lvec nDim head =
     (if endswith (lower ks) ''.xsf'' \<or> endswith (lower ks) ''.cube'' then
        (case read_grid E ks of
           None \<Rightarrow> None
         | Some (V_kpfm, lvec, nDim, head) \<Rightarrow>
             (case np_sub V_kpfm negV of
                Inl _ \<Rightarrow> None
              | Inr dV_kpfm \<Rightarrow> Some (Some (Vref A), dV_kpfm, lvec, nDim, head)))
      else
        (case none_minus negV of
           Inl _ \<Rightarrow> None
         | Inr dV_kpfm \<Rightarrow> Some (None, dV_kpfm, lvec, nDim, head)))"

text \<open>
  The tip density as the kernel construction leaves it: the array read from the file,
  after the core subtraction has written to it when that is enabled.
\<close>

definition prepared_tip_density :: "args \<Rightarrow> env \<Rightarrow> ndarray option" where
  "prepared_tip_density A E =
     (case tip_dens A of
        None \<Rightarrow> None
      | Some p \<Rightarrow>
          (case loadXSF E p of
             Inl _ \<Rightarrow> None
           | Inr (d, lvec_tip, nDim_tip, head_tip) \<Rightarrow>
               if bSubstractCore A then
                 (case (loadValenceElectronDict E, getAtomsWhichTouchPBCcell E p (Rcore A)) of
                    (Inr valElDict, Inr (Rs_tip, elems_tip)) \<Rightarrow>
                      (case subtractCoreDensities E d lvec_tip elems_tip Rs_tip valElDict
                              (Rcore A) head_tip of
                         Inr d' \<Rightarrow> Some d'
                       | Inl _ \<Rightarrow> None)
                  | _ \<Rightarrow> None)
               else Some d))"

text \<open>
  The closed form of the loop of lines 145 to 147 on one array: slice \<open>i\<close> below \<open>n\<close> is
  divided by \<open>v * (zpos[i] + 0.1)\<close>.
\<close>

definition normalised :: "ndarray \<Rightarrow> real \<Rightarrow> real list \<Rightarrow> nat \<Rightarrow> ndarray" where
  "normalised raw v zpos n =
     raw\<lparr>el := (\<lambda>idx. if idx \<noteq> [] \<and> hd idx < n
                       then el raw idx / (v * (zpos ! hd idx + 0.1)) else el raw idx)\<rparr>"

definition is_External :: "error \<Rightarrow> bool" where
  "is_External e = (case e of External _ \<Rightarrow> True | _ \<Rightarrow> False)"

definition kernel_in :: "world \<Rightarrow> tipval \<Rightarrow> kernel" where
  \<comment> \<open>what the correlation routine reads when it is passed the tip in state \<open>w\<close>\<close>
  "kernel_in w t = (case t of Sym s \<Rightarrow> KSym s | Arr a \<Rightarrow> KArr (cells w a))"

text \<open>The loop of lines 145 to 147 over any set of slices, for the induction on the loop.\<close>

definition div_set :: "ndarray \<Rightarrow> real \<Rightarrow> real list \<Rightarrow> nat set \<Rightarrow> ndarray" where
  "div_set raw v zpos S =
     raw\<lparr>el := (\<lambda>idx. if idx \<noteq> [] \<and> hd idx \<in> S
                       then el raw idx / (v * (zpos ! hd idx + 0.1)) else el raw idx)\<rparr>"

text \<open>Command lines of the example: density overlap asked for, without a tip density.\<close>

definition ex_args_core :: args where
  "ex_args_core = ex_args\<lparr>doDensity := True\<rparr>"

subsection \<open>The plan of a run\<close>

text \<open>
  The correlations and written fields of a run, computed from the command line and the
  external routines alone, without the store: what each call is given when every step
  before it has succeeded. A run follows its plan as far as it gets (theorem
  \<open>main_follows_plan\<close> below); the statements about what is correlated and written are
  read off the plan.

  \<open>kpfm_tip_plan\<close> is lines 110 to 134 on values: the reference voltage \<^verbatim>\<open>Vref_t\<close>, the
  kernel \<^verbatim>\<open>drho_kpfm\<close> (each \<open>None\<close> when unbound) and \<^verbatim>\<open>sigma\<close>; \<open>None\<close> when the block
  fails. \<open>rho0\<close> is the contents of \<^verbatim>\<open>rho_tip\<close>, \<open>None\<close> when that variable is unbound.
\<close>

definition kpfm_tip_plan ::
  "args \<Rightarrow> env \<Rightarrow> settings \<Rightarrow> ndarray option
     \<Rightarrow> (real option option \<times> kernel option \<times> real) option" where
  "kpfm_tip_plan A E S rho0 =
     (if endswith (lower (KPFM_tip A)) ''.xsf'' then
        (case rho0 of
           None \<Rightarrow> None
         | Some d0 \<Rightarrow>
             (case loadXSF E (KPFM_tip A) of
                Inl _ \<Rightarrow> None
              | Inr (db, lvec_tip, nDim_tip, head_tip) \<Rightarrow>
                  (case np_sub db d0 of
                     Inl _ \<Rightarrow> None
                   | Inr dr \<Rightarrow> Some (Some (Vref A), Some (KArr dr), params_sigma S))))
      else if endswith (lower (KPFM_tip A)) ''.cube'' then
        (case rho0 of
           None \<Rightarrow> None
         | Some d0 \<Rightarrow>
             if \<not> has_borh A then None
             else
               (case loadCUBE E (KPFM_tip A) (Some False) of
                  Inl _ \<Rightarrow> None
                | Inr (db, lvec_tip, nDim_tip, head_tip) \<Rightarrow>
                    (case np_sub db d0 of
                       Inl _ \<Rightarrow> None
                     | Inr dr \<Rightarrow> Some (Some (Vref A), Some (KArr dr), params_sigma S))))
      else if KPFM_tip A \<in> {''Fit'', ''fit'', ''dipole'', ''pz''} then
        (case kpfm_tip_model (params_probeType S) (params_sigma S) of
           (drho_kpfm, sigma) \<Rightarrow>
             Some (Some (Some (- 0.1)), map_option (\<lambda>d. KSym (TipDict d)) drho_kpfm, sigma))
      else Some (None, None, params_sigma S))"

text \<open>
  The two maps as written by lines 150 and 151, after the loop of lines 144 to 147:
  nothing when a reference voltage is missing, unless the loop has no pass.
\<close>

definition kpfm_maps ::
  "args \<Rightarrow> ndarray \<Rightarrow> ndarray \<Rightarrow> real option option \<Rightarrow> real option option \<Rightarrow> lvec \<Rightarrow> ndim
     \<Rightarrow> lvec \<Rightarrow> head \<Rightarrow> event list"
  where
  "kpfm_maps A raw1 raw2 Vref_s Vref_t lvec nDim lvec_samp head_samp =
     (let zpos = linspace (lvec 0 2 - z0 A) (lvec 3 2 - z0 A) (fst nDim) in
      if fst nDim = 0 then
        [SaveVec ''FFkpfm_t0sV'' raw1 lvec_samp (output_format A) head_samp None,
         SaveVec ''FFkpfm_tVs0'' raw2 lvec_samp (output_format A) head_samp None]
      else
        (case (Vref_s, Vref_t) of
           (Some (Some v1), Some (Some v2)) \<Rightarrow>
             [SaveVec ''FFkpfm_t0sV'' (normalised raw1 v1 zpos (fst nDim)) lvec_samp
                (output_format A) head_samp None,
              SaveVec ''FFkpfm_tVs0'' (normalised raw2 v2 zpos (fst nDim)) lvec_samp
                (output_format A) head_samp None]
         | _ \<Rightarrow> []))"

text \<open>
  The KPFM branch (lines 89 to 151) on values: \<open>smp\<close> is what lines 93 to 108 give
  (\<open>kpfm_sample\<close>), \<open>negV\<close> the contents of \<^verbatim>\<open>V\<close>, \<open>K\<close> the tip as the correlation routine
  reads it.
\<close>

definition kpfm_plan ::
  "args \<Rightarrow> env \<Rightarrow> settings \<Rightarrow> (real option option \<times> ndarray \<times> lvec \<times> ndim \<times> head) option
     \<Rightarrow> ndarray \<Rightarrow> kernel \<Rightarrow> ndarray option \<Rightarrow> lvec \<Rightarrow> head \<Rightarrow> event list" where
  "kpfm_plan A E S smp negV K rho0 lvec_samp head_samp =
     (case smp of
        None \<Rightarrow> []
      | Some (Vref_s, dV_kpfm, lvec, nDim, head) \<Rightarrow>
          (case kpfm_tip_plan A E S rho0 of
             None \<Rightarrow> []
           | Some (Vref_t, drho_kpfm, sigma) \<Rightarrow>
               ComputeElFF dV_kpfm lvec nDim K (energy A) (tilt A) None #
               (case computeElFF E dV_kpfm lvec nDim K (energy A) (tilt A) None of
                  Inl _ \<Rightarrow> []
                | Inr out1 \<Rightarrow>
                    (case drho_kpfm of
                       None \<Rightarrow> []
                     | Some k2 \<Rightarrow>
                         ComputeElFF negV lvec nDim k2 (energy A) (tilt A) (Some sigma) #
                         (case computeElFF E negV lvec nDim k2 (energy A) (tilt A)
                                 (Some sigma) of
                            Inl _ \<Rightarrow> []
                          | Inr out2 \<Rightarrow>
                              kpfm_maps A (FF out1) (FF out2) Vref_s Vref_t lvec nDim
                                lvec_samp head_samp)))))"

text \<open>Lines 153 to 160 on values.\<close>

definition main_tail ::
  "args \<Rightarrow> env \<Rightarrow> ndarray \<Rightarrow> lvec \<Rightarrow> ndim \<Rightarrow> kernel \<Rightarrow> atoms \<Rightarrow> lvec \<Rightarrow> head \<Rightarrow> event list"
  where
  "main_tail A E negV lvec nDim K atoms_samp lvec_samp head_samp =
     ComputeElFF negV lvec nDim K (energy A) (tilt A) None #
     (case computeElFF E negV lvec nDim K (energy A) (tilt A) None of
        Inl _ \<Rightarrow> []
      | Inr out \<Rightarrow>
          SaveVec ''FFel'' (FF out) lvec_samp (output_format A) head_samp
            (Some (take 4 atoms_samp, lvec_samp)) #
          (if energy A then
             [SaveScal ''Eel'' (Epot out) lvec_samp (output_format A) head_samp
                (Some (take 4 atoms_samp, lvec_samp))]
           else []))"

text \<open>
  The kernel of lines 71 to 87 on values, with the contents of \<^verbatim>\<open>rho_tip\<close>: the negated
  prepared tip density when a tip density is given, and the symbolic tip otherwise.
\<close>

definition tip_plan :: "args \<Rightarrow> env \<Rightarrow> settings \<Rightarrow> (kernel \<times> ndarray option) option" where
  "tip_plan A E S =
     (case tip_dens A of
        Some p \<Rightarrow>
          (case prepared_tip_density A E of
             None \<Rightarrow> None
           | Some d \<Rightarrow> Some (KArr (np_neg d), Some d))
      | None \<Rightarrow>
          if params_tip S = TipName ''.py'' then
            (case tip_py E of Inr (Some m) \<Rightarrow> Some (KSym m, None) | _ \<Rightarrow> None)
          else Some (KSym (params_tip S), None))"

text \<open>The whole of \<^verbatim>\<open>main\<close> on values.\<close>

definition main_plan :: "args \<Rightarrow> env \<Rightarrow> event list" where
  "main_plan A E =
     (case load_settings E of
        Inl _ \<Rightarrow> []
      | Inr S \<Rightarrow>
          (case loadGeometry E (input A) of
             Inl _ \<Rightarrow> []
           | Inr (atoms_samp, nDim_samp, lvec_samp) \<Rightarrow>
               (case sample_head E atoms_samp lvec_samp of
                  None \<Rightarrow> []
                | Some head_samp \<Rightarrow>
                    (case read_grid E (input A) of
                       None \<Rightarrow> []
                     | Some (V, lvec, nDim, head) \<Rightarrow>
                         (case tip_plan A E S of
                            None \<Rightarrow> []
                          | Some (K, rho0) \<Rightarrow>
                              (case KPFM_sample A of
                                 None \<Rightarrow>
                                   main_tail A E (np_imul V (- 1)) lvec nDim K
                                     atoms_samp lvec_samp head_samp
                               | Some ks \<Rightarrow>
                                   (let smp = kpfm_sample A E ks (np_imul V (- 1)) lvec nDim
                                                head;
                                        kp = kpfm_plan A E S smp (np_imul V (- 1)) K rho0
                                               lvec_samp head_samp
                                    in kp @
                                       (if length kp = 4 then
                                          (case smp of
                                             None \<Rightarrow> []
                                           | Some (Vref_s, dV_kpfm, lvec, nDim, head) \<Rightarrow>
                                               main_tail A E (np_imul V (- 1)) lvec nDim K
                                                 atoms_samp lvec_samp head_samp)
                                        else []))))))))"

subsection \<open>Reading correlations and written fields off a trace\<close>

record conv_call =
  cV :: ndarray
  cLvec :: lvec
  cDim :: ndim
  cK :: kernel
  cVpot :: bool
  cTilt :: real
  cSigma :: "real option"

text \<open>The calls of \<^verbatim>\<open>computeElFF\<close> of a trace, in order, with their arguments.\<close>

fun convs :: "event list \<Rightarrow> conv_call list" where
  "convs [] = []"
| "convs (ComputeElFF V lv nd k cv tlt sg # t) =
     \<lparr>cV = V, cLvec = lv, cDim = nd, cK = k, cVpot = cv, cTilt = tlt, cSigma = sg\<rparr> # convs t"
| "convs (_ # t) = convs t"

text \<open>The vector field first written under a name.\<close>

fun saved :: "string \<Rightarrow> event list \<Rightarrow> ndarray option" where
  "saved nm [] = None"
| "saved nm (SaveVec n d _ _ _ _ # t) = (if n = nm then Some d else saved nm t)"
| "saved nm (_ # t) = saved nm t"

text \<open>What the routine returns for a call.\<close>

definition conv_result :: "env \<Rightarrow> conv_call \<Rightarrow> string + conv_out" where
  "conv_result E c = computeElFF E (cV c) (cLvec c) (cDim c) (cK c) (cVpot c) (cTilt c) (cSigma c)"

text \<open>
  The height the script gives slice \<open>i\<close> (line 144): \<^verbatim>\<open>np.linspace\<close> from \<^verbatim>\<open>lvec[0,2]\<close>
  to \<^verbatim>\<open>lvec[3,2]\<close> in \<^verbatim>\<open>nDim[0]\<close> points, both ends included.
\<close>

definition slice_height :: "lvec \<Rightarrow> ndim \<Rightarrow> nat \<Rightarrow> real" where
  "slice_height lvec nDim i = lvec 0 2 + real i * ((lvec 3 2 - lvec 0 2) / real (fst nDim - 1))"

definition tip_from_file :: "args \<Rightarrow> bool" where
  \<comment> \<open>the tests of lines 111 and 116\<close>
  "tip_from_file A =
     (endswith (lower (KPFM_tip A)) ''.xsf'' \<or> endswith (lower (KPFM_tip A)) ''.cube'')"

subsection \<open>More command lines and environments of the example\<close>

definition ex_args_kpfm :: args where
  \<comment> \<open>KPFM with the default tip model \<^verbatim>\<open>Fit\<close>, \<^verbatim>\<open>--Vref 1\<close>\<close>
  "ex_args_kpfm = ex_args\<lparr>KPFM_sample := Some ''Vb.xsf'', Vref := Some 1\<rparr>"

definition ex_args_kpfm_noVref :: args where
  "ex_args_kpfm_noVref = ex_args\<lparr>KPFM_sample := Some ''Vb.xsf''\<rparr>"

definition ex_args_kpfm_file :: args where
  \<comment> \<open>KPFM with a tip density under bias from a file, but no \<^verbatim>\<open>--tip_dens\<close>\<close>
  "ex_args_kpfm_file = ex_args\<lparr>KPFM_sample := Some ''Vb.xsf'', KPFM_tip := ''rhob.xsf'',
                                Vref := Some 1\<rparr>"


definition ex_env_short :: env where
  "ex_env_short = ex_env\<lparr>computeElFF := ex_conv_short\<rparr>"

subsection \<open>The correlation of the spec\<close>

text \<open>
  Modelled from the spec: \<^verbatim>\<open>FFTConvolution.correlate\<close> (section 4.1), the energy it
  returns. Its code, \<^verbatim>\<open>ppafm.HighLevel.computeElFF\<close> and the Fourier routines below it, is
  not among the sources at hand; \<^verbatim>\<open>main\<close> only calls it. The spec: forward-transform both
  fields, multiply one by the complex conjugate of the other element-wise,
  inverse-transform, and take the real part; both inputs must share the same grid shape,
  and the call fails with \<open>ShapeMismatch\<close> otherwise. The transform is the discrete Fourier
  transform of a field on a grid of \<open>n1 * n2 * n3\<close> points, over exact complex numbers;
  the conjugate is taken of the transform of the kernel \<open>rho\<close>, which is the choice that
  makes the result \<open>\<Sum>r. rho (r - R) * V r\<close>.

  Modelled from the spec: \<open>omega n m\<close> is the \<open>m\<close>-th power of the primitive \<open>n\<close>-th root of
  unity, the phase factor of the transforms.
\<close>

definition omega :: "nat \<Rightarrow> int \<Rightarrow> complex" where
  "omega n m = cis (2 * pi * real_of_int m / real n)"

text \<open>Modelled from the spec: the forward transform of a field of shape \<open>(n1, n2, n3)\<close>.\<close>

definition dft3 ::
  "nat \<Rightarrow> nat \<Rightarrow> nat \<Rightarrow> (nat \<Rightarrow> nat \<Rightarrow> nat \<Rightarrow> complex) \<Rightarrow> nat \<Rightarrow> nat \<Rightarrow> nat \<Rightarrow> complex" where
  "dft3 n1 n2 n3 f a b c =
     (\<Sum>i<n1. \<Sum>j<n2. \<Sum>k<n3.
        f i j k * (omega n1 (- int (a * i)) * omega n2 (- int (b * j)) * omega n3 (- int (c * k))))"

text \<open>Modelled from the spec: the inverse transform.\<close>

definition idft3 ::
  "nat \<Rightarrow> nat \<Rightarrow> nat \<Rightarrow> (nat \<Rightarrow> nat \<Rightarrow> nat \<Rightarrow> complex) \<Rightarrow> nat \<Rightarrow> nat \<Rightarrow> nat \<Rightarrow> complex" where
  "idft3 n1 n2 n3 F i j k =
     (\<Sum>a<n1. \<Sum>b<n2. \<Sum>c<n3.
        F a b c * (omega n1 (int (a * i)) * omega n2 (int (b * j)) * omega n3 (int (c * k))))
     / of_nat (n1 * n2 * n3)"

text \<open>
  Modelled from the spec: the energy field of \<^verbatim>\<open>correlate(V, rho)\<close>, an array of the shape
  of \<open>V\<close>.
\<close>

definition correlate_energy :: "ndarray \<Rightarrow> ndarray \<Rightarrow> spec_error + ndarray" where
  "correlate_energy V rho =
     (case shp V of
        [n1, n2, n3] \<Rightarrow>
          if shp rho = shp V then
            Inr \<lparr>shp = shp V,
                 el = (\<lambda>R. Re (idft3 n1 n2 n3
                                 (\<lambda>a b c. cnj (dft3 n1 n2 n3 (\<lambda>i j k. of_real (el rho [i, j, k])) a b c) *
                                           dft3 n1 n2 n3 (\<lambda>i j k. of_real (el V [i, j, k])) a b c)
                                 (R ! 0) (R ! 1) (R ! 2)))\<rparr>
          else Inl ShapeMismatch
      | _ \<Rightarrow> Inl ShapeMismatch)"

text \<open>The plane wave of index \<open>K\<close> at the grid point \<open>I\<close>, for the proofs.\<close>

definition wave3 :: "nat \<Rightarrow> nat \<Rightarrow> nat \<Rightarrow> nat \<times> nat \<times> nat \<Rightarrow> nat \<times> nat \<times> nat \<Rightarrow> complex" where
  "wave3 n1 n2 n3 K I =
     (case (K, I) of ((a, b, c), (i, j, k)) \<Rightarrow>
        omega n1 (int (a * i)) * omega n2 (int (b * j)) * omega n3 (int (c * k)))"

text \<open>Two fields on a grid of two points, for an example.\<close>

definition ex_V2 :: ndarray where
  "ex_V2 = \<lparr>shp = [1, 1, 2], el = (\<lambda>idx. if idx = [0, 0, 1] then 3 else 2)\<rparr>"

definition ex_rho2 :: ndarray where
  "ex_rho2 = \<lparr>shp = [1, 1, 2], el = (\<lambda>idx. if idx = [0, 0, 1] then 7 else 5)\<rparr>"

section \<open>Properties\<close>

subsection \<open>Running the blocks of main\<close>

lemmas monad_defs = thenR_def ret_def raise_def lift_def ext_def call_def new_array_def
  get_array_def set_array_def copy_def

lemma outline_append: "outline (a @ b) = outline a @ outline b"
  by (induction a rule: outline.induct) auto

lemma quiet_refl: "quiet w w"
  by (simp add: quiet_def)

lemma quiet_trans: "quiet w w1 \<Longrightarrow> quiet w1 w2 \<Longrightarrow> quiet w w2"
  unfolding quiet_def by (auto simp: outline_append)

lemma thenR_cases:
  assumes "thenR m f w = (r, w')"
  obtains (fail) e where "m w = (Inl e, w')" "r = Inl e"
        | (ok) x w1 where "m w = (Inr x, w1)" "f x w1 = (r, w')"
  using assms by (auto simp: thenR_def split: prod.splits sum.splits)

lemma load_xsf_run:
  assumes "load_xsf E p w = (r, w')"
  shows "quiet w w' \<and>
     (case r of Inl e \<Rightarrow> is_External e
      | Inr (a, lv, nd, h) \<Rightarrow> a = nxt w \<and> nxt w' = Suc a \<and> loadXSF E p = Inr (cells w' a, lv, nd, h))"
  using assms
  by (auto simp: load_xsf_def monad_defs quiet_def is_External_def split: sum.splits prod.splits)

lemma load_cube_run:
  assumes "load_cube E p hartree w = (r, w')"
  shows "quiet w w' \<and>
     (case r of Inl e \<Rightarrow> is_External e
      | Inr (a, lv, nd, h) \<Rightarrow> a = nxt w \<and> nxt w' = Suc a \<and> loadCUBE E p hartree = Inr (cells w' a, lv, nd, h))"
  using assms
  by (auto simp: load_cube_def monad_defs quiet_def is_External_def split: sum.splits prod.splits)

lemma load_potential_run:
  assumes "load_potential A E w = (r, w')"
  shows "quiet w w' \<and>
     (case r of Inl e \<Rightarrow> is_External e \<or> (\<exists>m. e = TypeError m)
      | Inr (V, lv, nd, h) \<Rightarrow> V = nxt w \<and> nxt w' = Suc V \<and>
          (\<exists>d0. read_grid E (input A) = Some (d0, lv, nd, h) \<and> cells w' V = np_imul d0 (- 1)))"
  using assms
  by (auto simp: load_potential_def load_xsf_def load_cube_def read_grid_def monad_defs quiet_def is_External_def split: sum.splits prod.splits if_splits option.splits)


lemma quietI:
  "trace w' = trace w @ d \<Longrightarrow> outline d = [] \<Longrightarrow> nxt w \<le> nxt w' \<Longrightarrow>
   (\<And>a. a < nxt w \<Longrightarrow> cells w' a = cells w a) \<Longrightarrow> quiet w w'"
  unfolding quiet_def by blast

lemma core_precheck_run:
  assumes "core_precheck A E w = (r, w')"
  shows "quiet w w' \<and>
     (case r of Inl e \<Rightarrow> is_External e
      | Inr core \<Rightarrow>
          if bSubstractCore A then
            (\<exists>p vd Rs els. tip_dens A = Some p \<and> loadValenceElectronDict E = Inr vd \<and>
               getAtomsWhichTouchPBCcell E p (Rcore A) = Inr (Rs, els) \<and> core = Some (vd, Rs, els))
          else core = None)"
  using assms
  by (auto simp: core_precheck_def bSubstractCore_def monad_defs quiet_def is_External_def
           split: sum.splits prod.splits if_splits option.splits)

lemma load_sample_geometry_run:
  assumes "load_sample_geometry A E w = (r, w')"
  shows "quiet w w' \<and>
     (case r of Inl e \<Rightarrow> is_External e \<or> (\<exists>m. e = IndexError m) | Inr _ \<Rightarrow> True)"
  using assms
  by (auto simp: load_sample_geometry_def monad_defs quiet_def is_External_def
           split: sum.splits prod.splits if_splits option.splits)

lemma select_tip_run:
  assumes "select_tip E t w = (r, w')"
  shows "quiet w w' \<and>
     (case r of Inl e \<Rightarrow> is_External e \<or> e = NameError ''tipMultipole''
      | Inr t' \<Rightarrow> (\<exists>s. t' = Sym s))"
  using assms
  by (auto simp: select_tip_def monad_defs quiet_def is_External_def
           split: sum.splits prod.splits if_splits option.splits)

lemma load_tip_density_run:
  assumes "load_tip_density A E core tip w = (r, w')"
  shows "quiet w w' \<and>
     (case r of
        Inl e \<Rightarrow> is_External e \<or> e = NameError ''elems_tip''
      | Inr (tip', rho_tip) \<Rightarrow>
          (case tip_dens A of
             None \<Rightarrow> tip' = tip \<and> rho_tip = None
           | Some p \<Rightarrow>
               (\<exists>d0 lvt ndt hdt d. loadXSF E p = Inr (d0, lvt, ndt, hdt) \<and>
                  (if bSubstractCore A then
                     (\<exists>vd Rs els. core = Some (vd, Rs, els) \<and>
                        subtractCoreDensities E d0 lvt els Rs vd (Rcore A) hdt = Inr d)
                   else d = d0) \<and>
                  rho_tip = Some (nxt w) \<and> tip' = Arr (Suc (nxt w)) \<and> nxt w' = Suc (Suc (nxt w)) \<and>
                  cells w' (nxt w) = d \<and> cells w' (Suc (nxt w)) = np_neg d)))"
  using assms
  by (auto simp: load_tip_density_def load_xsf_def monad_defs quiet_def is_External_def
           split: sum.splits prod.splits if_splits option.splits)

lemma run_computeElFF_run:
  assumes "run_computeElFF E V lv nd tip cv tlt sg w = (r, w')"
  shows "trace w' = trace w @ [ComputeElFF (cells w V) lv nd (kernel_in w tip) cv tlt sg] \<and>
     nxt w \<le> nxt w' \<and>
     (\<forall>a<nxt w. a \<noteq> V \<and> tip \<noteq> Arr a \<longrightarrow> cells w' a = cells w a) \<and>
     (case r of
        Inl e \<Rightarrow> is_External e
      | Inr (F, Ep) \<Rightarrow>
          F = nxt w \<and> nxt w' = Suc F \<and>
          (\<exists>out. computeElFF E (cells w V) lv nd (kernel_in w tip) cv tlt sg = Inr out \<and>
                 cells w' F = FF out \<and> Ep = Epot out))"
  using assms
  by (auto simp: run_computeElFF_def kernel_of_def kernel_in_def monad_defs is_External_def
           split: sum.splits prod.splits if_splits option.splits tipval.splits)


lemma np_sub_error: "np_sub x y = Inl e \<Longrightarrow> \<exists>m. e = ValueError m"
  by (auto simp: np_sub_def split: option.splits)

lemma kpfm_load_sample_run:
  assumes "kpfm_load_sample A E ks Vaux lv nd h w = (r, w')" and "Vaux < nxt w"
  shows "quiet w w' \<and>
     (case r of
        Inl e \<Rightarrow> is_External e \<or> (\<exists>m. e = TypeError m) \<or> (\<exists>m. e = ValueError m)
      | Inr (Vs, dV, lv', nd', h') \<Rightarrow>
          nxt w \<le> dV \<and> dV < nxt w' \<and>
          kpfm_sample A E ks (cells w Vaux) lv nd h = Some (Vs, cells w' dV, lv', nd', h'))"
  using assms
  by (auto simp: kpfm_load_sample_def kpfm_sample_def none_minus_def arr_sub_def load_xsf_def
                 load_cube_def read_grid_def monad_defs quiet_def is_External_def
           dest: np_sub_error
           split: sum.splits prod.splits if_splits option.splits)

lemma tokens_not_files:
  assumes "t \<in> {''Fit'', ''fit'', ''dipole'', ''pz''}"
  shows "\<not> endswith (lower t) ''.xsf''" and "\<not> endswith (lower t) ''.cube''"
  using assms by (auto simp: endswith_def lower_def lower_char_def)

lemma kpfm_load_tip_run:
  assumes "kpfm_load_tip A E S rho_tip sigma w = (r, w')"
    and "\<And>ra. rho_tip = Some ra \<Longrightarrow> ra < nxt w"
  shows "quiet w w' \<and>
     (case r of
        Inl e \<Rightarrow> is_External e \<or> e = NameError ''rho_tip'' \<or> e = AttributeError ''borh'' \<or>
                 (\<exists>m. e = ValueError m)
      | Inr (Vt, drho, sg) \<Rightarrow>
          if endswith (lower (KPFM_tip A)) ''.xsf'' \<or> endswith (lower (KPFM_tip A)) ''.cube'' then
            Vt = Some (Vref A) \<and> sg = sigma \<and> rho_tip \<noteq> None \<and>
            (\<exists>b. drho = Some (Arr b) \<and> nxt w \<le> b \<and> b < nxt w')
          else if KPFM_tip A \<in> {''Fit'', ''fit'', ''dipole'', ''pz''} then
            Vt = Some (Some (- 0.1)) \<and> sg = snd (kpfm_tip_model (params_probeType S) sigma) \<and>
            drho = map_option (\<lambda>d. Sym (TipDict d)) (fst (kpfm_tip_model (params_probeType S) sigma))
          else Vt = None \<and> drho = None \<and> sg = sigma)"
  using assms
  by (auto simp: kpfm_load_tip_def arr_sub_def load_xsf_def load_cube_def
                 monad_defs quiet_def is_External_def
           dest: np_sub_error
           split: sum.splits prod.splits if_splits option.splits)

lemma kpfm_load_tip_unbound:
  assumes "endswith (lower (KPFM_tip A)) ''.xsf'' \<or> endswith (lower (KPFM_tip A)) ''.cube''"
  shows "kpfm_load_tip A E S None sigma w = (Inl (NameError ''rho_tip''), w)"
  using assms by (auto simp: kpfm_load_tip_def monad_defs)

lemma norm_slice_run:
  assumes "norm_slice F name Vr zpos i w = (r, w')"
  shows "trace w' = trace w \<and> nxt w' = nxt w \<and> (\<forall>a. a \<noteq> F \<longrightarrow> cells w' a = cells w a) \<and>
     (case r of
        Inl e \<Rightarrow> w' = w \<and>
          (if \<not> slice_ok (cells w F) i then e = IndexError ''index out of bounds''
           else (Vr = None \<and> e = NameError name) \<or>
                (Vr = Some None \<and>
                 e = TypeError ''unsupported operand type(s) for *: NoneType and float''))
      | Inr _ \<Rightarrow> \<exists>v. Vr = Some (Some v) \<and> slice_ok (cells w F) i \<and>
                 cells w' F = div_slice (cells w F) i (v * (zpos ! i + 0.1)))"
  using assms
  by (auto simp: norm_slice_def monad_defs split: sum.splits prod.splits if_splits option.splits)

lemma kpfm_save_run:
  assumes "kpfm_save A E F1 F2 ls hs w = (r, w')"
  shows "cells w' = cells w \<and> nxt w' = nxt w \<and>
     (let s1 = SaveVec ''FFkpfm_t0sV'' (cells w F1) ls (output_format A) hs None;
          s2 = SaveVec ''FFkpfm_tVs0'' (cells w F2) ls (output_format A) hs None
      in (trace w' = trace w @ [s1] \<and> (\<exists>e. r = Inl e \<and> is_External e)) \<or>
         trace w' = trace w @ [s1, s2] \<and> (case r of Inl e \<Rightarrow> is_External e | Inr _ \<Rightarrow> True))"
  using assms
  by (auto simp: kpfm_save_def monad_defs is_External_def Let_def
           split: sum.splits prod.splits if_splits option.splits)

lemma normalise_frame:
  "normalise F1 F2 Vs Vt zpos js w = (r, w') \<Longrightarrow>
     trace w' = trace w \<and> nxt w' = nxt w \<and> (\<forall>a. a \<noteq> F1 \<and> a \<noteq> F2 \<longrightarrow> cells w' a = cells w a)"
proof (induction js arbitrary: w)
  case Nil
  then show ?case by (simp add: ret_def)
next
  case (Cons i rest)
  from Cons.prems show ?case
  proof (simp only: normalise.simps, elim thenR_cases)
    fix e assume "norm_slice F1 ''Vref_s'' Vs zpos i w = (Inl e, w')"
    from norm_slice_run[OF this] show ?thesis by simp
  next
    fix x w1 e
    assume a: "norm_slice F1 ''Vref_s'' Vs zpos i w = (Inr x, w1)"
      and b: "norm_slice F2 ''Vref_t'' Vt zpos i w1 = (Inl e, w')"
    from norm_slice_run[OF a] norm_slice_run[OF b] show ?thesis by simp
  next
    fix x w1 y w2
    assume a: "norm_slice F1 ''Vref_s'' Vs zpos i w = (Inr x, w1)"
      and b: "norm_slice F2 ''Vref_t'' Vt zpos i w1 = (Inr y, w2)"
      and c: "normalise F1 F2 Vs Vt zpos rest w2 = (r, w')"
    from norm_slice_run[OF a] norm_slice_run[OF b] Cons.IH[OF c] show ?thesis by simp
  qed
qed

lemma div_set_empty: "div_set raw v zpos {} = raw"
  by (simp add: div_set_def)

lemma div_set_insert:
  "i \<notin> S \<Longrightarrow> div_set (div_slice raw i (v * (zpos ! i + 0.1))) v zpos S = div_set raw v zpos (insert i S)"
  by (auto simp: div_set_def div_slice_def fun_eq_iff)

lemma normalise_success:
  assumes "normalise F1 F2 Vs Vt zpos js w = (Inr u, w')" and "F1 \<noteq> F2" and "distinct js"
  shows "(js = [] \<or> (\<exists>v1 v2. Vs = Some (Some v1) \<and> Vt = Some (Some v2))) \<and>
     (\<forall>v1 v2. Vs = Some (Some v1) \<longrightarrow> Vt = Some (Some v2) \<longrightarrow>
         cells w' F1 = div_set (cells w F1) v1 zpos (set js) \<and>
         cells w' F2 = div_set (cells w F2) v2 zpos (set js)) \<and>
     (js = [] \<longrightarrow> cells w' = cells w)"
  using assms
proof (induction js arbitrary: w)
  case Nil
  then show ?case by (simp add: ret_def div_set_empty)
next
  case (Cons i rest)
  from Cons.prems(1) show ?case
  proof (simp only: normalise.simps, elim thenR_cases)
    fix x w1 y w2
    assume a: "norm_slice F1 ''Vref_s'' Vs zpos i w = (Inr x, w1)"
      and b: "norm_slice F2 ''Vref_t'' Vt zpos i w1 = (Inr y, w2)"
      and c: "normalise F1 F2 Vs Vt zpos rest w2 = (Inr u, w')"
    from norm_slice_run[OF a] obtain v1 where v1: "Vs = Some (Some v1)"
      and w1: "cells w1 F1 = div_slice (cells w F1) i (v1 * (zpos ! i + 0.1))"
              "\<forall>a. a \<noteq> F1 \<longrightarrow> cells w1 a = cells w a"
      by auto
    from norm_slice_run[OF b] obtain v2 where v2: "Vt = Some (Some v2)"
      and w2: "cells w2 F2 = div_slice (cells w1 F2) i (v2 * (zpos ! i + 0.1))"
              "\<forall>a. a \<noteq> F2 \<longrightarrow> cells w2 a = cells w1 a"
      by auto
    from Cons.prems have ni: "i \<notin> set rest" and dr: "distinct rest" by auto
    from Cons.IH[OF c Cons.prems(2) dr] v1 v2
    have ih: "cells w' F1 = div_set (cells w2 F1) v1 zpos (set rest)"
             "cells w' F2 = div_set (cells w2 F2) v2 zpos (set rest)"
      by auto
    from Cons.prems(2) w1 w2 have "cells w2 F1 = div_slice (cells w F1) i (v1 * (zpos ! i + 0.1))"
      and "cells w2 F2 = div_slice (cells w F2) i (v2 * (zpos ! i + 0.1))"
      by auto
    with ih ni v1 v2 show ?thesis
      by (simp add: div_set_insert)
  qed simp_all
qed

lemma normalised_div_set: "normalised raw v zpos n = div_set raw v zpos {..<n}"
  by (simp add: normalised_def div_set_def)

lemma normalise_range:
  assumes "normalise F1 F2 Vs Vt zpos [0..<n] w = (Inr u, w')" and "F1 \<noteq> F2"
  shows "\<exists>v1 v2. (n = 0 \<or> (Vs = Some (Some v1) \<and> Vt = Some (Some v2))) \<and>
           cells w' F1 = normalised (cells w F1) v1 zpos n \<and>
           cells w' F2 = normalised (cells w F2) v2 zpos n"
proof (cases "n = 0")
  case True
  with normalise_success[OF assms] show ?thesis
    by (auto simp: normalised_def)
next
  case False
  with normalise_success[OF assms] obtain v1 v2 where v: "Vs = Some (Some v1)" "Vt = Some (Some v2)"
    by auto
  with normalise_success[OF assms]
  have "cells w' F1 = normalised (cells w F1) v1 zpos n"
    and "cells w' F2 = normalised (cells w F2) v2 zpos n"
    by (auto simp: normalised_div_set atLeast0LessThan)
  with v show ?thesis by blast
qed

lemma normalise_no_Vref:
  assumes "slice_ok (cells w F1) i"
  shows "normalise F1 F2 (Some None) Vt zpos (i # rest) w =
           (Inl (TypeError ''unsupported operand type(s) for *: NoneType and float''), w)"
  using assms by (simp add: norm_slice_def monad_defs)

lemma tip_aux_run:
  assumes "(if tip_dens A \<noteq> None then copy_tip tip else ret tip) w = (r, w1)"
    and "\<And>a. tip = Arr a \<Longrightarrow> a < nxt w"
  shows "trace w1 = trace w \<and> nxt w \<le> nxt w1 \<and> (\<forall>a<nxt w. cells w1 a = cells w a) \<and>
     (case r of
        Inl e \<Rightarrow> e = AttributeError ''copy''
      | Inr t2 \<Rightarrow> kernel_in w1 t2 = kernel_in w tip \<and>
          (\<forall>a. t2 = Arr a \<longrightarrow> (if tip_dens A = None then tip = Arr a else nxt w \<le> a) \<and> a < nxt w1))"
  using assms
  by (cases tip)
     (auto simp: copy_tip_def kernel_in_def monad_defs
           split: sum.splits prod.splits if_splits option.splits tipspec.splits)

lemma frame_step:
  fixes c c1 c2 :: "addr \<Rightarrow> ndarray"
  assumes c1: "\<forall>a<n. c1 a = c a" and n: "n \<le> n1"
    and c2: "\<forall>a<n1. a \<noteq> dV \<and> t2 \<noteq> Arr a \<longrightarrow> c2 a = c1 a"
    and t2: "\<forall>a. t2 = Arr a \<longrightarrow> (if td = None then tip = Arr a else n \<le> a) \<and> a < n1"
  shows "\<forall>a<n. a \<noteq> dV \<and> (td = None \<longrightarrow> tip \<noteq> Arr a) \<longrightarrow> c2 a = c a"
proof (intro allI impI)
  fix a assume a: "a < n" and h: "a \<noteq> dV \<and> (td = None \<longrightarrow> tip \<noteq> Arr a)"
  have "t2 \<noteq> Arr a"
  proof
    assume e: "t2 = Arr a"
    with t2 have "if td = None then tip = Arr a else n \<le> a" by blast
    with a h show False by (cases "td = None") auto
  qed
  moreover from a n have "a < n1" by simp
  ultimately have "c2 a = c1 a" using c2 h by blast
  with c1 a show "c2 a = c a" by simp
qed

lemma kpfm_convolve_run:
  assumes run: "kpfm_convolve A E tip dV V2 lv nd drho sigma w = (r, w')"
    and old: "dV < nxt w" "V2 < nxt w" "dV \<noteq> V2"
    and tip: "\<forall>a. tip = Arr a \<longrightarrow> a < nxt w \<and> a \<noteq> dV \<and> a \<noteq> V2"
    and drho: "\<forall>b. drho = Some (Arr b) \<longrightarrow> b < nxt w \<and> b \<noteq> dV \<and> b \<noteq> V2 \<and> tip \<noteq> Arr b"
  shows "nxt w \<le> nxt w' \<and>
     (\<forall>a<nxt w. a \<noteq> dV \<and> a \<noteq> V2 \<and> (tip_dens A = None \<longrightarrow> tip \<noteq> Arr a) \<and> drho \<noteq> Some (Arr a)
          \<longrightarrow> cells w' a = cells w a) \<and>
     ((trace w' = trace w \<and> r = Inl (AttributeError ''copy'')) \<or>
      (trace w' = trace w @
         [ComputeElFF (cells w dV) lv nd (kernel_in w tip) (energy A) (tilt A) None] \<and>
         (\<exists>e. r = Inl e \<and> (is_External e \<or> e = NameError ''drho_kpfm''))) \<or>
      (\<exists>out1 dr.
          computeElFF E (cells w dV) lv nd (kernel_in w tip) (energy A) (tilt A) None = Inr out1 \<and>
          drho = Some dr \<and>
          trace w' = trace w @
            [ComputeElFF (cells w dV) lv nd (kernel_in w tip) (energy A) (tilt A) None,
             ComputeElFF (cells w V2) lv nd (kernel_in w dr) (energy A) (tilt A) (Some sigma)] \<and>
          ((\<exists>e. r = Inl e \<and> is_External e) \<or>
           (\<exists>out2 F1 F2.
               computeElFF E (cells w V2) lv nd (kernel_in w dr) (energy A) (tilt A) (Some sigma)
                 = Inr out2 \<and>
               r = Inr (F1, F2) \<and> F1 \<noteq> F2 \<and>
               nxt w \<le> F1 \<and> nxt w \<le> F2 \<and> F1 < nxt w' \<and> F2 < nxt w' \<and>
               cells w' F1 = FF out1 \<and> cells w' F2 = FF out2))))"
  (is "?N w' \<and> ?F w' \<and> ?T")
  using run unfolding kpfm_convolve_def
proof (elim thenR_cases)
  fix e
  assume a: "(if tip_dens A \<noteq> None then copy_tip tip else ret tip) w = (Inl e, w')" and "r = Inl e"
  with tip_aux_run[OF a] tip show ?thesis by auto
next
  fix t2 w1 e
  assume a: "(if tip_dens A \<noteq> None then copy_tip tip else ret tip) w = (Inr t2, w1)"
    and b: "run_computeElFF E dV lv nd t2 (energy A) (tilt A) None w1 = (Inl e, w')"
    and r: "r = Inl e"
  from tip_aux_run[OF a] tip have A1: "trace w1 = trace w" "nxt w \<le> nxt w1"
    "\<forall>a<nxt w. cells w1 a = cells w a" "kernel_in w1 t2 = kernel_in w tip"
    "\<forall>a. t2 = Arr a \<longrightarrow> (if tip_dens A = None then tip = Arr a else nxt w \<le> a) \<and> a < nxt w1"
    by auto
  from run_computeElFF_run[OF b] have B1:
    "trace w' = trace w1 @ [ComputeElFF (cells w1 dV) lv nd (kernel_in w1 t2) (energy A) (tilt A) None]"
    "nxt w1 \<le> nxt w'" "\<forall>a<nxt w1. a \<noteq> dV \<and> t2 \<noteq> Arr a \<longrightarrow> cells w' a = cells w1 a"
    "is_External e"
    by auto
  have fr: "\<forall>a<nxt w. a \<noteq> dV \<and> (tip_dens A = None \<longrightarrow> tip \<noteq> Arr a) \<longrightarrow> cells w' a = cells w a"
    by (rule frame_step[OF A1(3) A1(2) B1(3) A1(5)])
  from A1 old have "cells w1 dV = cells w dV" by simp
  with B1 A1 fr r show ?thesis by auto
next
  fix t2 w1 x w2 e
  assume a: "(if tip_dens A \<noteq> None then copy_tip tip else ret tip) w = (Inr t2, w1)"
    and b: "run_computeElFF E dV lv nd t2 (energy A) (tilt A) None w1 = (Inr x, w2)"
    and c: "(case x of (FFkpfm_t0sV, Eel_t0sV) \<Rightarrow>
              thenR (case drho of None \<Rightarrow> raise (NameError ''drho_kpfm'') | Some d \<Rightarrow> ret d)
               (\<lambda>drho_kpfm. thenR (run_computeElFF E V2 lv nd drho_kpfm (energy A) (tilt A) (Some sigma))
                  (\<lambda>(FFkpfm_tVs0, Eel_tVs0). ret (FFkpfm_t0sV, FFkpfm_tVs0)))) w2 = (r, w')"
  obtain F1 Ep1 where x: "x = (F1, Ep1)" by (cases x)
  from tip_aux_run[OF a] tip have A1: "trace w1 = trace w" "nxt w \<le> nxt w1"
    "\<forall>a<nxt w. cells w1 a = cells w a" "kernel_in w1 t2 = kernel_in w tip"
    "\<forall>a. t2 = Arr a \<longrightarrow> (if tip_dens A = None then tip = Arr a else nxt w \<le> a) \<and> a < nxt w1"
    by auto
  from run_computeElFF_run[OF b] x A1 old obtain out1 where
    B1: "trace w2 = trace w @ [ComputeElFF (cells w dV) lv nd (kernel_in w tip) (energy A) (tilt A) None]"
    "nxt w1 \<le> nxt w2" "\<forall>a<nxt w1. a \<noteq> dV \<and> t2 \<noteq> Arr a \<longrightarrow> cells w2 a = cells w1 a"
    "F1 = nxt w1" "nxt w2 = Suc F1"
    "computeElFF E (cells w dV) lv nd (kernel_in w tip) (energy A) (tilt A) None = Inr out1"
    "cells w2 F1 = FF out1"
    by auto
  have fr2: "\<forall>a<nxt w. a \<noteq> dV \<and> (tip_dens A = None \<longrightarrow> tip \<noteq> Arr a) \<longrightarrow> cells w2 a = cells w a"
    by (rule frame_step[OF A1(3) A1(2) B1(3) A1(5)])
  from c x show ?thesis
  proof (simp only: prod.case, elim thenR_cases)
    fix e
    assume d: "(case drho of None \<Rightarrow> raise (NameError ''drho_kpfm'') | Some d \<Rightarrow> ret d) w2 = (Inl e, w')"
      and r: "r = Inl e"
    then have "w' = w2" "e = NameError ''drho_kpfm''"
      by (auto simp: raise_def ret_def split: option.splits)
    with r fr2 A1 B1 show ?thesis by auto
  next
    fix dr w3 e
    assume d: "(case drho of None \<Rightarrow> raise (NameError ''drho_kpfm'') | Some d \<Rightarrow> ret d) w2 = (Inr dr, w3)"
      and f: "run_computeElFF E V2 lv nd dr (energy A) (tilt A) (Some sigma) w3 = (Inl e, w')"
      and r: "r = Inl e"
    from d have w3: "w3 = w2" "drho = Some dr"
      by (auto simp: raise_def ret_def split: option.splits)
    have V2: "cells w2 V2 = cells w V2" using fr2 old tip by auto
    have k2: "kernel_in w2 dr = kernel_in w dr"
      using fr2 drho w3 by (cases dr) (auto simp: kernel_in_def)
    from run_computeElFF_run[OF f] w3 V2 k2 r B1 A1 fr2 old drho show ?thesis
      by auto
  next
    fix dr w3 y w4
    assume d: "(case drho of None \<Rightarrow> raise (NameError ''drho_kpfm'') | Some d \<Rightarrow> ret d) w2 = (Inr dr, w3)"
      and f: "run_computeElFF E V2 lv nd dr (energy A) (tilt A) (Some sigma) w3 = (Inr y, w4)"
      and g: "(case y of (FFkpfm_tVs0, Eel_tVs0) \<Rightarrow> ret (F1, FFkpfm_tVs0)) w4 = (r, w')"
    obtain F2 Ep2 where y: "y = (F2, Ep2)" by (cases y)
    from g y have r: "r = Inr (F1, F2)" "w' = w4" by (auto simp: ret_def)
    from d have w3: "w3 = w2" "drho = Some dr"
      by (auto simp: raise_def ret_def split: option.splits)
    have V2: "cells w2 V2 = cells w V2" using fr2 old tip by auto
    have k2: "kernel_in w2 dr = kernel_in w dr"
      using fr2 drho w3 by (cases dr) (auto simp: kernel_in_def)
    have dr: "dr \<noteq> Arr F1" using drho w3 B1 A1 by auto
    from run_computeElFF_run[OF f] w3 V2 k2 r y B1 A1 fr2 old drho dr show ?thesis
      by auto
  qed
qed

lemma kpfm_load_tip_plan:
  assumes run: "kpfm_load_tip A E S rho_tip (params_sigma S) w = (Inr (Vt, drho, sg), w')"
    and rho: "\<And>ra. rho_tip = Some ra \<Longrightarrow> ra < nxt w"
  shows "kpfm_tip_plan A E S (map_option (cells w) rho_tip)
           = Some (Vt, map_option (kernel_in w') drho, sg) \<and>
         (\<forall>b. drho = Some (Arr b) \<longrightarrow> nxt w \<le> b \<and> b < nxt w')"
proof (cases "endswith (lower (KPFM_tip A)) ''.xsf''")
  case True
  with run rho show ?thesis
    by (cases rho_tip)
       (auto simp: kpfm_load_tip_def kpfm_tip_plan_def arr_sub_def load_xsf_def
                   monad_defs kernel_in_def
             split: sum.splits prod.splits option.splits)
next
  case nx: False
  show ?thesis
  proof (cases "endswith (lower (KPFM_tip A)) ''.cube''")
    case True
    with nx run rho show ?thesis
      by (cases rho_tip; cases "has_borh A")
         (auto simp: kpfm_load_tip_def kpfm_tip_plan_def arr_sub_def load_cube_def
                     monad_defs kernel_in_def
               split: sum.splits prod.splits option.splits)
  next
    case nc: False
    show ?thesis
    proof (cases "KPFM_tip A \<in> {''Fit'', ''fit'', ''dipole'', ''pz''}")
      case True
      with nx nc run show ?thesis
        by (cases "kpfm_tip_model (params_probeType S) (params_sigma S)";
            cases "fst (kpfm_tip_model (params_probeType S) (params_sigma S))")
           (auto simp: kpfm_load_tip_def kpfm_tip_plan_def monad_defs kernel_in_def)
    next
      case False
      with nx nc run show ?thesis
        by (auto simp: kpfm_load_tip_def kpfm_tip_plan_def monad_defs)
    qed
  qed
qed

lemma kpfm_maps_length:
  "length (kpfm_maps A r1 r2 Vs Vt lv nd ls hs) = 2 \<or> kpfm_maps A r1 r2 Vs Vt lv nd ls hs = []"
  by (auto simp: kpfm_maps_def Let_def split: option.splits)

subsection \<open>The KPFM branch and main follow their plans\<close>


lemma copy_run:
  "copy a w = (r, w') \<Longrightarrow>
     r = Inr (nxt w) \<and> trace w' = trace w \<and> nxt w' = Suc (nxt w) \<and>
     cells w' (nxt w) = cells w a \<and> (\<forall>b. b \<noteq> nxt w \<longrightarrow> cells w' b = cells w b)"
  by (auto simp: monad_defs)

lemma quiet_cells: "quiet w w' \<Longrightarrow> a < nxt w \<Longrightarrow> cells w' a = cells w a"
  by (simp add: quiet_def)

lemma quiet_nxt: "quiet w w' \<Longrightarrow> nxt w \<le> nxt w'"
  by (simp add: quiet_def)

lemma quiet_trace: "quiet w w' \<Longrightarrow> \<exists>d. trace w' = trace w @ d \<and> outline d = []"
  by (simp add: quiet_def)

lemma kpfm_maps_two:
  assumes "fst nd = 0 \<or> (Vs = Some (Some v1) \<and> Vt = Some (Some v2))"
  shows "kpfm_maps A raw1 raw2 Vs Vt lv nd ls hs =
     [SaveVec ''FFkpfm_t0sV''
        (normalised raw1 v1 (linspace (lv 0 2 - z0 A) (lv 3 2 - z0 A) (fst nd)) (fst nd))
        ls (output_format A) hs None,
      SaveVec ''FFkpfm_tVs0''
        (normalised raw2 v2 (linspace (lv 0 2 - z0 A) (lv 3 2 - z0 A) (fst nd)) (fst nd))
        ls (output_format A) hs None]"
  using assms by (auto simp: kpfm_maps_def normalised_def Let_def)

lemma thenR_Inr: "m w = (Inr x, w1) \<Longrightarrow> thenR m f w = f x w1"
  by (simp add: thenR_def)

lemma thenR_Inl: "m w = (Inl e, w1) \<Longrightarrow> thenR m f w = (Inl e, w1)"
  by (simp add: thenR_def)

lemma kpfm_branch_plan:
  fixes A E S ks V lv nd h tip rho_tip ls hs w
  defines "P \<equiv> kpfm_plan A E S (kpfm_sample A E ks (cells w V) lv nd h) (cells w V)
                     (kernel_in w tip) (map_option (cells w) rho_tip) ls hs"
  assumes run: "kpfm_branch A E S V lv nd h tip rho_tip ls hs w = (r, w')"
    and ks: "KPFM_sample A = Some ks"
    and V: "V < nxt w"
    and tip_old: "\<forall>a. tip = Arr a \<longrightarrow> a < nxt w"
    and rho_old: "\<forall>ra. rho_tip = Some ra \<longrightarrow> ra < nxt w"
  shows "nxt w \<le> nxt w' \<and>
     (\<forall>a<nxt w. (tip_dens A = None \<longrightarrow> tip \<noteq> Arr a) \<longrightarrow> cells w' a = cells w a) \<and>
     (\<exists>pre n. outline pre = [] \<and> trace w' = trace w @ pre @ take n P \<and>
        (\<forall>x. r = Inr x \<longrightarrow> length P = 4 \<and> n = 4 \<and>
              (\<exists>Vs dV h'. kpfm_sample A E ks (cells w V) lv nd h
                              = Some (Vs, dV, fst x, fst (snd x), h'))))"
    (is "?N \<and> ?F \<and> ?T")
proof -
  have tip: "\<And>a. tip = Arr a \<Longrightarrow> a < nxt w" using tip_old by blast
  have rho: "\<And>ra. rho_tip = Some ra \<Longrightarrow> ra < nxt w" using rho_old by blast
  have concl: "\<And>pre n. nxt w \<le> nxt w' \<Longrightarrow>
      (\<forall>a<nxt w. (tip_dens A = None \<longrightarrow> tip \<noteq> Arr a) \<longrightarrow> cells w' a = cells w a) \<Longrightarrow>
      outline pre = [] \<Longrightarrow> trace w' = trace w @ pre @ take n P \<Longrightarrow>
      (\<forall>x. r = Inr x \<longrightarrow> length P = 4 \<and> n = 4 \<and>
              (\<exists>Vs dV h'. kpfm_sample A E ks (cells w V) lv nd h
                              = Some (Vs, dV, fst x, fst (snd x), h'))) \<Longrightarrow> ?thesis"
    by blast
  note r0 = run[unfolded kpfm_branch_def ks option.case]
  obtain rc1 w1 where c1: "copy V w = (rc1, w1)" by (cases "copy V w")
  from copy_run[OF c1] have rc1: "rc1 = Inr (nxt w)" and w1: "trace w1 = trace w"
    "nxt w1 = Suc (nxt w)" "cells w1 (nxt w) = cells w V" "\<forall>b. b \<noteq> nxt w \<longrightarrow> cells w1 b = cells w b"
    by auto
  note r1 = r0[unfolded thenR_Inr[of "copy V" w, OF c1[unfolded rc1]]]
  obtain rc2 w2 where c2: "copy V w1 = (rc2, w2)" by (cases "copy V w1")
  from copy_run[OF c2] w1 V have rc2: "rc2 = Inr (Suc (nxt w))" and w2: "trace w2 = trace w"
    "nxt w2 = Suc (Suc (nxt w))" "cells w2 (Suc (nxt w)) = cells w V" "cells w2 (nxt w) = cells w V"
    "\<forall>b<nxt w. cells w2 b = cells w b"
    by auto
  note r2 = r1[unfolded thenR_Inr[of "copy V" w1, OF c2[unfolded rc2]]]
  obtain rs w3 where c3: "kpfm_load_sample A E ks (nxt w) lv nd h w2 = (rs, w3)"
    by (cases "kpfm_load_sample A E ks (nxt w) lv nd h w2")
  have "nxt w < nxt w2" using w2 by simp
  note s3 = kpfm_load_sample_run[OF c3 this]
  from s3 have q3: "quiet w2 w3" by simp
  from quiet_trace[OF q3] w2 obtain d3 where d3: "trace w3 = trace w @ d3" "outline d3 = []"
    by auto
  have n3: "nxt w2 \<le> nxt w3" by (rule quiet_nxt[OF q3])
  have cells3: "\<forall>b<nxt w. cells w3 b = cells w b"
    using quiet_cells[OF q3] w2 by simp
  show ?thesis
  proof (cases rs)
    case (Inl e)
    note r3 = r2[unfolded thenR_Inl[of "kpfm_load_sample A E ks (nxt w) lv nd h" w2, OF c3[unfolded Inl]]]
    then have rw: "r = Inl e" "w' = w3" by simp_all
    show ?thesis
      by (rule concl[of d3 0]) (use rw d3 n3 cells3 w2 in auto)
  next
    case (Inr x)
    obtain Vs dV lv' nd' h' where x: "x = (Vs, dV, lv', nd', h')" by (cases x) auto
    note r3 = r2[unfolded thenR_Inr[of "kpfm_load_sample A E ks (nxt w) lv nd h" w2, OF c3[unfolded Inr x]] prod.case]
    from s3 Inr x w2 have dV: "Suc (Suc (nxt w)) \<le> dV" "dV < nxt w3"
      and smp: "kpfm_sample A E ks (cells w V) lv nd h = Some (Vs, cells w3 dV, lv', nd', h')"
      by auto
    from dV have nw3: "Suc (Suc (nxt w)) < nxt w3" by simp
    obtain rt w4 where c4: "kpfm_load_tip A E S rho_tip (params_sigma S) w3 = (rt, w4)"
      by (cases "kpfm_load_tip A E S rho_tip (params_sigma S) w3")
    have rho3: "\<And>ra. rho_tip = Some ra \<Longrightarrow> ra < nxt w3" using rho nw3 by fastforce
    note s4 = kpfm_load_tip_run[OF c4 rho3]
    from s4 have q4: "quiet w3 w4" by simp
    from quiet_trace[OF q4] d3 obtain d4 where d4: "trace w4 = trace w @ (d3 @ d4)" "outline (d3 @ d4) = []"
      by (auto simp: outline_append)
    have n4: "nxt w3 \<le> nxt w4" by (rule quiet_nxt[OF q4])
    have cells4: "\<forall>b<nxt w. cells w4 b = cells w b"
      using quiet_cells[OF q4] cells3 nw3 by simp
    show ?thesis
    proof (cases rt)
      case (Inl e)
      note r4 = r3[unfolded thenR_Inl[of "kpfm_load_tip A E S rho_tip (params_sigma S)" w3, OF c4[unfolded Inl]]]
      then have rw: "r = Inl e" "w' = w4" by simp_all
      show ?thesis
        by (rule concl[of "d3 @ d4" 0]) (use rw d4 n4 nw3 cells4 in auto)
    next
      case (Inr y)
      obtain Vt drho sg where y: "y = (Vt, drho, sg)" by (cases y) auto
      note r4 = r3[unfolded thenR_Inr[of "kpfm_load_tip A E S rho_tip (params_sigma S)" w3, OF c4[unfolded Inr y]] prod.case]
      have rho0: "map_option (cells w3) rho_tip = map_option (cells w) rho_tip"
        using rho cells3 by (cases rho_tip) auto
      from kpfm_load_tip_plan[OF c4[unfolded Inr y] rho3] rho0
      have tp: "kpfm_tip_plan A E S (map_option (cells w) rho_tip)
                  = Some (Vt, map_option (kernel_in w4) drho, sg)"
        and drb: "\<forall>b. drho = Some (Arr b) \<longrightarrow> nxt w3 \<le> b \<and> b < nxt w4"
        by auto
      have dV4: "cells w4 dV = cells w3 dV" using quiet_cells[OF q4] dV nw3 by simp
      have V24: "cells w4 (Suc (nxt w)) = cells w V"
        using quiet_cells[OF q4, of "Suc (nxt w)"] quiet_cells[OF q3, of "Suc (nxt w)"] w2 nw3
        by simp
      have k4: "kernel_in w4 tip = kernel_in w tip"
        using tip cells4 by (cases tip) (auto simp: kernel_in_def)
      obtain rc w5 where c5: "kpfm_convolve A E tip dV (Suc (nxt w)) lv' nd' drho sg w4 = (rc, w5)"
        by (cases "kpfm_convolve A E tip dV (Suc (nxt w)) lv' nd' drho sg w4")
      have pre5: "dV < nxt w4" "Suc (nxt w) < nxt w4" "dV \<noteq> Suc (nxt w)"
        using dV nw3 n4 by auto
      have tip5: "\<forall>a. tip = Arr a \<longrightarrow> a < nxt w4 \<and> a \<noteq> dV \<and> a \<noteq> Suc (nxt w)"
        using tip dV nw3 n4 by fastforce
      have drho5: "\<forall>b. drho = Some (Arr b) \<longrightarrow> b < nxt w4 \<and> b \<noteq> dV \<and> b \<noteq> Suc (nxt w) \<and> tip \<noteq> Arr b"
      proof (intro allI impI)
        fix b assume "drho = Some (Arr b)"
        with drb have b: "nxt w3 \<le> b" "b < nxt w4" by auto
        moreover have "tip \<noteq> Arr b"
        proof
          assume "tip = Arr b"
          from tip[OF this] b nw3 show False by simp
        qed
        ultimately show "b < nxt w4 \<and> b \<noteq> dV \<and> b \<noteq> Suc (nxt w) \<and> tip \<noteq> Arr b"
          using dV nw3 by auto
      qed
      note s5 = kpfm_convolve_run[OF c5 pre5 tip5 drho5, unfolded dV4 V24 k4]
      note n5 = s5[THEN conjunct1]
      note fr5 = s5[THEN conjunct2, THEN conjunct1, rule_format]
      note T5 = s5[THEN conjunct2, THEN conjunct2]
      have cells5: "\<forall>b<nxt w. (tip_dens A = None \<longrightarrow> tip \<noteq> Arr b) \<longrightarrow> cells w5 b = cells w b"
      proof (intro allI impI)
        fix b assume b: "b < nxt w" and t: "tip_dens A = None \<longrightarrow> tip \<noteq> Arr b"
        have "drho \<noteq> Some (Arr b)" using drb b nw3 by auto
        moreover have "b < nxt w4" "b \<noteq> dV" "b \<noteq> Suc (nxt w)" using b dV nw3 n4 by auto
        ultimately have "cells w5 b = cells w4 b" using t by (intro fr5) auto
        with cells4 b show "cells w5 b = cells w b" by simp
      qed
      let ?c1 = "ComputeElFF (cells w3 dV) lv' nd' (kernel_in w tip) (energy A) (tilt A) None"
      have P1: "P = ?c1 #
          (case computeElFF E (cells w3 dV) lv' nd' (kernel_in w tip) (energy A) (tilt A) None of
             Inl _ \<Rightarrow> []
           | Inr out1 \<Rightarrow>
               (case map_option (kernel_in w4) drho of
                  None \<Rightarrow> []
                | Some k2 \<Rightarrow>
                    ComputeElFF (cells w V) lv' nd' k2 (energy A) (tilt A) (Some sg) #
                    (case computeElFF E (cells w V) lv' nd' k2 (energy A) (tilt A) (Some sg) of
                       Inl _ \<Rightarrow> []
                     | Inr out2 \<Rightarrow> kpfm_maps A (FF out1) (FF out2) Vs Vt lv' nd' ls hs)))"
        unfolding P_def kpfm_plan_def by (simp add: smp tp)
      from T5 show ?thesis
      proof (elim disjE exE conjE, goal_cases)
        case copyfail: 1
        note r5 = r4[unfolded thenR_Inl[of "kpfm_convolve A E tip dV (Suc (nxt w)) lv' nd' drho sg" w4, OF c5[unfolded copyfail(2)]]]
        then have rw: "r = Inl (AttributeError ''copy'')" "w' = w5" by simp_all
        have "trace w' = trace w @ (d3 @ d4) @ take 0 P" using copyfail(1) d4 rw by simp
        then show ?case
          by (rule concl[of "d3 @ d4" 0, rotated 3]) (use rw d4 n4 n5 nw3 cells5 in auto)
      next
        case conv1fail: (2 e)
        note r5 = r4[unfolded thenR_Inl[of "kpfm_convolve A E tip dV (Suc (nxt w)) lv' nd' drho sg" w4, OF c5[unfolded conv1fail(2)]]]
        then have rw: "r = Inl e" "w' = w5" by simp_all
        have "trace w' = trace w @ (d3 @ d4) @ take 1 P" using conv1fail(1) d4 rw P1 by simp
        then show ?case
          by (rule concl[of "d3 @ d4" 1, rotated 3]) (use rw d4 n4 n5 nw3 cells5 in auto)
      next
        case conv1fail: (3 e)
        note r5 = r4[unfolded thenR_Inl[of "kpfm_convolve A E tip dV (Suc (nxt w)) lv' nd' drho sg" w4, OF c5[unfolded conv1fail(2)]]]
        then have rw: "r = Inl e" "w' = w5" by simp_all
        have "trace w' = trace w @ (d3 @ d4) @ take 1 P" using conv1fail(1) d4 rw P1 by simp
        then show ?case
          by (rule concl[of "d3 @ d4" 1, rotated 3]) (use rw d4 n4 n5 nw3 cells5 in auto)
      next
        case conv2f: (4 out1 dr e)
        let ?c2 = "ComputeElFF (cells w V) lv' nd' (kernel_in w4 dr) (energy A) (tilt A) (Some sg)"
        have P2: "P = ?c1 # ?c2 #
            (case computeElFF E (cells w V) lv' nd' (kernel_in w4 dr) (energy A) (tilt A) (Some sg) of
               Inl _ \<Rightarrow> []
             | Inr out2 \<Rightarrow> kpfm_maps A (FF out1) (FF out2) Vs Vt lv' nd' ls hs)"
          using P1 conv2f(1,2) by simp
        note r5 = r4[unfolded thenR_Inl[of "kpfm_convolve A E tip dV (Suc (nxt w)) lv' nd' drho sg" w4, OF c5[unfolded conv2f(4)]]]
        then have rw: "r = Inl e" "w' = w5" by simp_all
        have "trace w' = trace w @ (d3 @ d4) @ take 2 P" using conv2f(3) d4 rw P2 by simp
        then show ?case
          by (rule concl[of "d3 @ d4" 2, rotated 3]) (use rw d4 n4 n5 nw3 cells5 in auto)
      next
        case conv2: (5 out1 dr out2 F1 F2)
        let ?c2 = "ComputeElFF (cells w V) lv' nd' (kernel_in w4 dr) (energy A) (tilt A) (Some sg)"
        have P2: "P = ?c1 # ?c2 #
            (case computeElFF E (cells w V) lv' nd' (kernel_in w4 dr) (energy A) (tilt A) (Some sg) of
               Inl _ \<Rightarrow> []
             | Inr out2 \<Rightarrow> kpfm_maps A (FF out1) (FF out2) Vs Vt lv' nd' ls hs)"
          using P1 conv2(1,2) by simp
        note o2 = conv2(4) and rc = conv2(5)
        note F = conv2(6-12)
        show ?case
        proof -
          note r5 = r4[unfolded thenR_Inr[of "kpfm_convolve A E tip dV (Suc (nxt w)) lv' nd' drho sg" w4, OF c5[unfolded rc]] prod.case]
          have P3: "P = ?c1 # ?c2 # kpfm_maps A (FF out1) (FF out2) Vs Vt lv' nd' ls hs"
            using P2 o2 by simp
          let ?zpos = "linspace (lv' 0 2 - z0 A) (lv' 3 2 - z0 A) (fst nd')"
          obtain rn w6 where c6: "normalise F1 F2 Vs Vt ?zpos [0..<fst nd'] w5 = (rn, w6)"
            by (cases "normalise F1 F2 Vs Vt ?zpos [0..<fst nd'] w5")
          from normalise_frame[OF c6] have f6: "trace w6 = trace w5" "nxt w6 = nxt w5"
            "\<forall>a. a \<noteq> F1 \<and> a \<noteq> F2 \<longrightarrow> cells w6 a = cells w5 a"
            by auto
          have cells6: "\<forall>b<nxt w. (tip_dens A = None \<longrightarrow> tip \<noteq> Arr b) \<longrightarrow> cells w6 b = cells w b"
            using cells5 f6 F nw3 n4 by auto
          have t6: "trace w6 = trace w @ (d3 @ d4) @ [?c1, ?c2]"
            using f6 conv2(3) d4 by simp
          show ?thesis
          proof (cases rn)
            case (Inl e)
            note r6 = r5[unfolded thenR_Inl[of "normalise F1 F2 Vs Vt ?zpos [0..<fst nd']" w5, OF c6[unfolded Inl]]]
            then have rw: "r = Inl e" "w' = w6" by simp_all
            have "trace w' = trace w @ (d3 @ d4) @ take 2 P" using t6 rw P3 by simp
            then show ?thesis
              by (rule concl[of "d3 @ d4" 2, rotated 3]) (use rw d4 f6 n4 n5 nw3 cells6 in auto)
          next
            case (Inr u)
            note r6 = r5[unfolded thenR_Inr[of "normalise F1 F2 Vs Vt ?zpos [0..<fst nd']" w5, OF c6[unfolded Inr]]]
            from normalise_range[OF c6[unfolded Inr] F(1)] F obtain v1 v2 where
              v: "fst nd' = 0 \<or> (Vs = Some (Some v1) \<and> Vt = Some (Some v2))"
              and n1: "cells w6 F1 = normalised (FF out1) v1 ?zpos (fst nd')"
              and n2: "cells w6 F2 = normalised (FF out2) v2 ?zpos (fst nd')"
              by auto
            let ?s1 = "SaveVec ''FFkpfm_t0sV'' (cells w6 F1) ls (output_format A) hs None"
            let ?s2 = "SaveVec ''FFkpfm_tVs0'' (cells w6 F2) ls (output_format A) hs None"
            have P4: "P = [?c1, ?c2, ?s1, ?s2]"
              using P3 kpfm_maps_two[OF v, of A "FF out1" "FF out2" lv' ls hs] n1 n2 by simp
            obtain rv w7 where c7: "kpfm_save A E F1 F2 ls hs w6 = (rv, w7)"
              by (cases "kpfm_save A E F1 F2 ls hs w6")
            from kpfm_save_run[OF c7] have f7: "cells w7 = cells w6" "nxt w7 = nxt w6"
              and t7: "(trace w7 = trace w6 @ [?s1] \<and> (\<exists>e. rv = Inl e)) \<or>
                       trace w7 = trace w6 @ [?s1, ?s2]"
              by (auto simp: Let_def)
            have NF: "nxt w \<le> nxt w7 \<and>
              (\<forall>a<nxt w. (tip_dens A = None \<longrightarrow> tip \<noteq> Arr a) \<longrightarrow> cells w7 a = cells w a)"
              using f7 f6 cells6 n5 n4 nw3 by auto
            show ?thesis
            proof (cases rv)
              case (Inl e)
              note r7 = r6[unfolded thenR_Inl[of "kpfm_save A E F1 F2 ls hs" w6, OF c7[unfolded Inl]]]
              then have rw: "r = Inl e" "w' = w7" by simp_all
              from t7 show ?thesis
              proof
                assume "trace w7 = trace w6 @ [?s1] \<and> (\<exists>e. rv = Inl e)"
                then have "trace w' = trace w @ (d3 @ d4) @ take 3 P" using t6 rw P4 by simp
                then show ?thesis
                  by (rule concl[of "d3 @ d4" 3, rotated 3]) (use rw NF d4 in auto)
              next
                assume "trace w7 = trace w6 @ [?s1, ?s2]"
                then have "trace w' = trace w @ (d3 @ d4) @ take 4 P" using t6 rw P4 by simp
                then show ?thesis
                  by (rule concl[of "d3 @ d4" 4, rotated 3]) (use rw NF d4 in auto)
              qed
            next
              case (Inr u')
              note r7 = r6[unfolded thenR_Inr[of "kpfm_save A E F1 F2 ls hs" w6, OF c7[unfolded Inr]] ret_def]
              then have rw: "r = Inr (lv', nd', h')" "w' = w7" by simp_all
              from t7 Inr have "trace w7 = trace w6 @ [?s1, ?s2]" by auto
              then have tr: "trace w' = trace w @ (d3 @ d4) @ take 4 P" using t6 rw P4 by simp
              have len: "length P = 4" using P4 by simp
              from tr show ?thesis
                by (rule concl[of "d3 @ d4" 4, rotated 3]) (use rw NF d4 smp len in auto)
            qed
          qed
        qed
      qed
    qed
  qed
qed

lemma load_sample_geometry_ok:
  assumes "load_sample_geometry A E w = (Inr (atoms, ls, hs), w')"
  shows "\<exists>nds. loadGeometry E (input A) = Inr (atoms, nds, ls) \<and> sample_head E atoms ls = Some hs"
  using assms
  by (auto simp: load_sample_geometry_def sample_head_def monad_defs
           split: sum.splits prod.splits if_splits)

lemma select_tip_ok:
  assumes "select_tip E t w = (Inr t', w')"
  shows "if t = TipName ''.py'' then (\<exists>s. tip_py E = Inr (Some s) \<and> t' = Sym s) else t' = Sym t"
  using assms
  by (auto simp: select_tip_def monad_defs split: sum.splits prod.splits if_splits option.splits)

lemma ext_run:
  "ext x w = (r, w') \<Longrightarrow> w' = w \<and> (case r of Inl e \<Rightarrow> is_External e \<and> (\<exists>m. x = Inl m) | Inr v \<Rightarrow> x = Inr v)"
  by (auto simp: ext_def is_External_def split: sum.splits)

lemma main_convolution_run:
  assumes "main_convolution A E V lv nd tip atoms ls hs w = (r, w')"
  shows "\<exists>n. trace w' = trace w @ take n (main_tail A E (cells w V) lv nd (kernel_in w tip) atoms ls hs) \<and>
     (\<forall>u. r = Inr u \<longrightarrow>
        take n (main_tail A E (cells w V) lv nd (kernel_in w tip) atoms ls hs)
          = main_tail A E (cells w V) lv nd (kernel_in w tip) atoms ls hs \<and>
        outline (main_tail A E (cells w V) lv nd (kernel_in w tip) atoms ls hs)
          = [''computeElFF'', ''FFel''] @ (if energy A then [''Eel''] else []))"
proof -
  let ?T = "main_tail A E (cells w V) lv nd (kernel_in w tip) atoms ls hs"
  note r0 = assms[unfolded main_convolution_def]
  obtain rc w1 where c1: "run_computeElFF E V lv nd tip (energy A) (tilt A) None w = (rc, w1)"
    by (cases "run_computeElFF E V lv nd tip (energy A) (tilt A) None w")
  note s1 = run_computeElFF_run[OF c1]
  from s1 have t1: "trace w1 = trace w @ [ComputeElFF (cells w V) lv nd (kernel_in w tip) (energy A) (tilt A) None]"
    by simp
  show ?thesis
  proof (cases rc)
    case (Inl e)
    note r1 = r0[unfolded thenR_Inl[of "run_computeElFF E V lv nd tip (energy A) (tilt A) None" w, OF c1[unfolded Inl]]]
    then have rw: "r = Inl e" "w' = w1" by simp_all
    have "trace w' = trace w @ take 1 ?T" using t1 rw by (simp add: main_tail_def)
    with rw show ?thesis by blast
  next
    case (Inr x)
    obtain F Ep where x: "x = (F, Ep)" by (cases x)
    note r1 = r0[unfolded thenR_Inr[of "run_computeElFF E V lv nd tip (energy A) (tilt A) None" w, OF c1[unfolded Inr x]] prod.case]
    from s1 Inr x obtain out where
      o: "computeElFF E (cells w V) lv nd (kernel_in w tip) (energy A) (tilt A) None = Inr out"
      "cells w1 F = FF out" "Ep = Epot out"
      by auto
    let ?s1 = "SaveVec ''FFel'' (FF out) ls (output_format A) hs (Some (take 4 atoms, ls))"
    let ?s2 = "SaveScal ''Eel'' (Epot out) ls (output_format A) hs (Some (take 4 atoms, ls))"
    have T: "?T = ComputeElFF (cells w V) lv nd (kernel_in w tip) (energy A) (tilt A) None # ?s1 #
                    (if energy A then [?s2] else [])"
      by (simp add: main_tail_def o)
    from r1 o t1 have
      "(\<exists>e. r = Inl e \<and> (trace w' = trace w1 @ [?s1] \<or> (energy A \<and> trace w' = trace w1 @ [?s1, ?s2]))) \<or>
       (\<exists>u. r = Inr u \<and> trace w' = trace w1 @ ?s1 # (if energy A then [?s2] else []))"
      by (auto simp: monad_defs split: sum.splits if_splits)
    then show ?thesis
    proof (elim disjE exE conjE, goal_cases)
      case (1 e)
      then have "trace w' = trace w @ take 2 ?T" using t1 T by simp
      with 1 show ?case by blast
    next
      case (2 e)
      then have "trace w' = trace w @ take 3 ?T" using t1 T by simp
      with 2 show ?case by blast
    next
      case (3 u)
      then have "trace w' = trace w @ take 3 ?T" using t1 T by simp
      moreover have "take 3 ?T = ?T" using T by simp
      moreover have "outline ?T = [''computeElFF'', ''FFel''] @ (if energy A then [''Eel''] else [])"
        using T by simp
      ultimately show ?case using 3 by blast
    qed
  qed
qed

lemma kpfm_maps_prefix:
  "prefix (outline (kpfm_maps A r1 r2 Vs Vt lv nd ls hs)) [''FFkpfm_t0sV'', ''FFkpfm_tVs0'']"
  by (auto simp: kpfm_maps_def Let_def split: option.splits)

lemma kpfm_maps_full:
  "length (kpfm_maps A r1 r2 Vs Vt lv nd ls hs) = 2 \<Longrightarrow>
     outline (kpfm_maps A r1 r2 Vs Vt lv nd ls hs) = [''FFkpfm_t0sV'', ''FFkpfm_tVs0'']"
  by (auto simp: kpfm_maps_def Let_def split: option.splits if_splits)

lemma kpfm_plan_outline:
  "prefix (outline (kpfm_plan A E S smp negV K rho0 ls hs))
     [''computeElFF'', ''computeElFF'', ''FFkpfm_t0sV'', ''FFkpfm_tVs0'']"
  by (simp add: kpfm_plan_def kpfm_maps_prefix split: option.splits sum.splits prod.splits)

lemma kpfm_plan_full:
  assumes "length (kpfm_plan A E S smp negV K rho0 ls hs) = 4"
  shows "outline (kpfm_plan A E S smp negV K rho0 ls hs)
           = [''computeElFF'', ''computeElFF'', ''FFkpfm_t0sV'', ''FFkpfm_tVs0'']"
proof (cases smp)
  case None
  with assms show ?thesis by (simp add: kpfm_plan_def)
next
  case (Some g)
  obtain Vs dV lv nd h where g: "g = (Vs, dV, lv, nd, h)" by (cases g) auto
  show ?thesis
  proof (cases "kpfm_tip_plan A E S rho0")
    case None
    with assms Some g show ?thesis by (simp add: kpfm_plan_def)
  next
    case tp: (Some t)
    obtain Vt k2o sg where t: "t = (Vt, k2o, sg)" by (cases t) auto
    show ?thesis
    proof (cases "computeElFF E dV lv nd K (energy A) (tilt A) None")
      case (Inl e)
      with assms Some g tp t show ?thesis by (simp add: kpfm_plan_def)
    next
      case o1: (Inr out1)
      show ?thesis
      proof (cases k2o)
        case None
        with assms Some g tp t o1 show ?thesis by (simp add: kpfm_plan_def)
      next
        case k2: (Some k2)
        show ?thesis
        proof (cases "computeElFF E negV lv nd k2 (energy A) (tilt A) (Some sg)")
          case (Inl e)
          with assms Some g tp t o1 k2 show ?thesis by (simp add: kpfm_plan_def)
        next
          case o2: (Inr out2)
          with assms Some g tp t o1 k2 show ?thesis
            by (simp add: kpfm_plan_def kpfm_maps_full)
        qed
      qed
    qed
  qed
qed

lemma main_follows_plan_from:
  assumes run: "main A E w = (r, w')"
  shows "\<exists>pre n. outline pre = [] \<and> trace w' = trace w @ pre @ take n (main_plan A E) \<and>
     (\<forall>u. r = Inr u \<longrightarrow> take n (main_plan A E) = main_plan A E \<and>
                         outline (main_plan A E) = full_outline A)"
proof -
  let ?P = "main_plan A E"
  have concl: "\<And>pre n. outline pre = [] \<Longrightarrow> trace w' = trace w @ pre @ take n ?P \<Longrightarrow>
      (\<forall>u. r = Inr u \<longrightarrow> take n ?P = ?P \<and> outline ?P = full_outline A) \<Longrightarrow> ?thesis"
    by blast
  note r0 = run[unfolded main_def]
  obtain r1 w1 where c1: "ext (load_settings E) w = (r1, w1)" by (cases "ext (load_settings E) w")
  note s1 = ext_run[OF c1]
  from s1 have w1: "w1 = w" by simp
  show ?thesis
  proof (cases r1)
    case (Inl e)
    note r1 = r0[unfolded thenR_Inl[of "ext (load_settings E)" w, OF c1[unfolded Inl]]]
    then have rw: "r = Inl e" "w' = w1" by simp_all
    show ?thesis by (rule concl[of "[]" 0]) (use rw w1 in auto)
  next
    case (Inr S)
    note r1 = r0[unfolded thenR_Inr[of "ext (load_settings E)" w, OF c1[unfolded Inr]]]
    from s1 Inr have S: "load_settings E = Inr S" by simp
    obtain r2 w2 where c2: "core_precheck A E w = (r2, w2)" by (cases "core_precheck A E w")
    note s2 = core_precheck_run[OF c2]
    from s2 have q2: "quiet w w2" by simp
    show ?thesis
    proof (cases r2)
      case (Inl e)
      note r2 = r1[unfolded w1 thenR_Inl[of "core_precheck A E" w, OF c2[unfolded Inl]]]
      then have rw: "r = Inl e" "w' = w2" by simp_all
      from quiet_trace[OF q2] obtain d where "trace w2 = trace w @ d" "outline d = []" by auto
      then show ?thesis by (intro concl[of d 0]) (use rw in auto)
    next
      case (Inr core)
      note r2 = r1[unfolded w1 thenR_Inr[of "core_precheck A E" w, OF c2[unfolded Inr]]]
      from s2 Inr have core: "if bSubstractCore A then
            (\<exists>p vd Rs els. tip_dens A = Some p \<and> loadValenceElectronDict E = Inr vd \<and>
               getAtomsWhichTouchPBCcell E p (Rcore A) = Inr (Rs, els) \<and> core = Some (vd, Rs, els))
          else core = None"
        by (auto split: if_splits)
      obtain r3 w3 where c3: "load_sample_geometry A E w2 = (r3, w3)"
        by (cases "load_sample_geometry A E w2")
      from load_sample_geometry_run[OF c3] have q3': "quiet w2 w3" by simp
      note q3 = quiet_trans[OF q2 q3']
      show ?thesis
      proof (cases r3)
        case (Inl e)
        note r3 = r2[unfolded thenR_Inl[of "load_sample_geometry A E" w2, OF c3[unfolded Inl]]]
        then have rw: "r = Inl e" "w' = w3" by simp_all
        from quiet_trace[OF q3] obtain d where "trace w3 = trace w @ d" "outline d = []" by auto
        then show ?thesis by (intro concl[of d 0]) (use rw in auto)
      next
        case (Inr g)
        obtain atoms ls hs where g: "g = (atoms, ls, hs)" by (cases g) auto
        note r3 = r2[unfolded thenR_Inr[of "load_sample_geometry A E" w2, OF c3[unfolded Inr g]] prod.case]
        from load_sample_geometry_ok[OF c3[unfolded Inr g]] obtain nds where
          geo: "loadGeometry E (input A) = Inr (atoms, nds, ls)" "sample_head E atoms ls = Some hs"
          by auto
        obtain r4 w4 where c4: "load_potential A E w3 = (r4, w4)" by (cases "load_potential A E w3")
        note s4 = load_potential_run[OF c4]
        from s4 have q4': "quiet w3 w4" by simp
        note q4 = quiet_trans[OF q3 q4']
        show ?thesis
        proof (cases r4)
          case (Inl e)
          note r4 = r3[unfolded thenR_Inl[of "load_potential A E" w3, OF c4[unfolded Inl]]]
          then have rw: "r = Inl e" "w' = w4" by simp_all
          from quiet_trace[OF q4] obtain d where "trace w4 = trace w @ d" "outline d = []" by auto
          then show ?thesis by (intro concl[of d 0]) (use rw in auto)
        next
          case (Inr x)
          obtain V lv nd h where x: "x = (V, lv, nd, h)" by (cases x) auto
          note r4 = r3[unfolded thenR_Inr[of "load_potential A E" w3, OF c4[unfolded Inr x]] prod.case]
          from s4 Inr x obtain d0 where V: "V < nxt w4"
            and rg: "read_grid E (input A) = Some (d0, lv, nd, h)"
            and V4: "cells w4 V = np_imul d0 (- 1)"
            by auto
          obtain r5 w5 where c5: "select_tip E (params_tip S) w4 = (r5, w5)"
            by (cases "select_tip E (params_tip S) w4")
          from select_tip_run[OF c5] have q5': "quiet w4 w5" by simp
          note q5 = quiet_trans[OF q4 q5']
          show ?thesis
          proof (cases r5)
            case (Inl e)
            note r5 = r4[unfolded thenR_Inl[of "select_tip E (params_tip S)" w4, OF c5[unfolded Inl]]]
            then have rw: "r = Inl e" "w' = w5" by simp_all
            from quiet_trace[OF q5] obtain d where "trace w5 = trace w @ d" "outline d = []" by auto
            then show ?thesis by (intro concl[of d 0]) (use rw in auto)
          next
            case (Inr tip0)
            note r5 = r4[unfolded thenR_Inr[of "select_tip E (params_tip S)" w4, OF c5[unfolded Inr]]]
            note t0 = select_tip_ok[OF c5[unfolded Inr]]
            obtain r6 w6 where c6: "load_tip_density A E core tip0 w5 = (r6, w6)"
              by (cases "load_tip_density A E core tip0 w5")
            note s6 = load_tip_density_run[OF c6]
            from s6 have q6': "quiet w5 w6" by simp
            note q6 = quiet_trans[OF q5 q6']
            show ?thesis
            proof (cases r6)
              case (Inl e)
              note r6 = r5[unfolded thenR_Inl[of "load_tip_density A E core tip0" w5, OF c6[unfolded Inl]]]
              then have rw: "r = Inl e" "w' = w6" by simp_all
              from quiet_trace[OF q6] obtain d where "trace w6 = trace w @ d" "outline d = []" by auto
              then show ?thesis by (intro concl[of d 0]) (use rw in auto)
            next
              case (Inr y)
              obtain tip rho_tip where y: "y = (tip, rho_tip)" by (cases y)
              note r6 = r5[unfolded thenR_Inr[of "load_tip_density A E core tip0" w5, OF c6[unfolded Inr y]] prod.case]
              from quiet_trace[OF q6] obtain d6 where d6: "trace w6 = trace w @ d6" "outline d6 = []"
                by auto
              have V6: "cells w6 V = np_imul d0 (- 1)" and Vn6: "V < nxt w6"
                using V V4 quiet_cells[OF q5', of V] quiet_cells[OF q6', of V]
                      quiet_nxt[OF q5'] quiet_nxt[OF q6'] by auto
              have tp: "tip_plan A E S = Some (kernel_in w6 tip, map_option (cells w6) rho_tip)"
                and tipb: "\<And>a. tip = Arr a \<Longrightarrow> a < nxt w6 \<and> tip_dens A \<noteq> None"
                and rhob: "\<And>ra. rho_tip = Some ra \<Longrightarrow> ra < nxt w6"
                using s6 Inr y t0 core
                by (auto simp: tip_plan_def prepared_tip_density_def kernel_in_def
                         split: option.splits if_splits)
              let ?negV = "np_imul d0 (- 1)"
              let ?K = "kernel_in w6 tip"
              show ?thesis
              proof (cases "KPFM_sample A")
                case None
                have P: "?P = main_tail A E ?negV lv nd ?K atoms ls hs"
                  by (simp add: main_plan_def S geo rg tp None)
                have kb: "kpfm_branch A E S V lv nd h tip rho_tip ls hs w6 = (Inr (lv, nd, h), w6)"
                  by (simp add: kpfm_branch_def None ret_def)
                note r7 = r6[unfolded thenR_Inr[of "kpfm_branch A E S V lv nd h tip rho_tip ls hs" w6, OF kb] prod.case]
                from main_convolution_run[OF r7] V6 P
                obtain n where "trace w' = trace w6 @ take n ?P"
                  "\<forall>u. r = Inr u \<longrightarrow> take n ?P = ?P \<and>
                       outline ?P = [''computeElFF'', ''FFel''] @ (if energy A then [''Eel''] else [])"
                  by auto
                then show ?thesis
                  by (intro concl[of d6 n]) (use d6 None in \<open>auto simp: full_outline_def\<close>)
              next
                case (Some ks)
                let ?smp = "kpfm_sample A E ks ?negV lv nd h"
                let ?kp = "kpfm_plan A E S ?smp ?negV ?K (map_option (cells w6) rho_tip) ls hs"
                obtain r7 w7 where c7: "kpfm_branch A E S V lv nd h tip rho_tip ls hs w6 = (r7, w7)"
                  by (cases "kpfm_branch A E S V lv nd h tip rho_tip ls hs w6")
                have tipb': "\<forall>a. tip = Arr a \<longrightarrow> a < nxt w6" using tipb by simp
                have rhob': "\<forall>ra. rho_tip = Some ra \<longrightarrow> ra < nxt w6" using rhob by simp
                note s7 = kpfm_branch_plan[OF c7 Some Vn6 tipb' rhob', unfolded V6]
                from s7 obtain pre n where
                  pre: "outline pre = []" "trace w7 = trace w6 @ pre @ take n ?kp"
                  and ok: "\<forall>x. r7 = Inr x \<longrightarrow> length ?kp = 4 \<and> n = 4 \<and>
                            (\<exists>Vs dV h'. ?smp = Some (Vs, dV, fst x, fst (snd x), h'))"
                  by blast
                note fr7 = s7[THEN conjunct2, THEN conjunct1, rule_format]
                have P: "?P = ?kp @ (if length ?kp = 4 then
                                       (case ?smp of None \<Rightarrow> []
                                        | Some (Vref_s, dV_kpfm, lvec, nDim, head) \<Rightarrow>
                                            main_tail A E ?negV lvec nDim ?K atoms ls hs)
                                     else [])"
                  by (simp add: main_plan_def S geo rg tp Some Let_def)
                show ?thesis
                proof (cases r7)
                  case (Inl e)
                  note r7 = r6[unfolded thenR_Inl[of "kpfm_branch A E S V lv nd h tip rho_tip ls hs" w6, OF c7[unfolded Inl]]]
                  then have rw: "r = Inl e" "w' = w7" by simp_all
                  have "take n ?kp = take (min n (length ?kp)) ?P"
                    unfolding P by (cases "n \<le> length ?kp") (simp_all add: min_def)
                  with pre d6 rw have "trace w' = trace w @ (d6 @ pre) @ take (min n (length ?kp)) ?P"
                    by simp
                  then show ?thesis
                    by (intro concl[of "d6 @ pre" "min n (length ?kp)"])
                       (use rw d6 pre in \<open>auto simp: outline_append\<close>)
                next
                  case (Inr z)
                  obtain lv' nd' h' where z: "z = (lv', nd', h')" by (cases z) auto
                  note r7 = r6[unfolded thenR_Inr[of "kpfm_branch A E S V lv nd h tip rho_tip ls hs" w6, OF c7[unfolded Inr z]] prod.case]
                  from ok Inr z obtain Vs dV h'' where len: "length ?kp = 4" and n: "n = 4"
                    and rgk: "?smp = Some (Vs, dV, lv', nd', h'')"
                    by auto
                  have nt: "tip_dens A = None \<Longrightarrow> tip \<noteq> Arr a" for a
                    using tipb[of a] by auto
                  have V7: "cells w7 V = ?negV"
                    using fr7[of V, OF Vn6 nt] V6 by simp
                  have K7: "kernel_in w7 tip = ?K"
                  proof (cases tip)
                    case (Sym s)
                    then show ?thesis by (simp add: kernel_in_def)
                  next
                    case (Arr a)
                    with tipb[of a] have "a < nxt w6" by simp
                    from fr7[of a, OF this nt] Arr show ?thesis by (simp add: kernel_in_def)
                  qed
                  let ?T = "main_tail A E ?negV lv' nd' ?K atoms ls hs"
                  have P': "?P = ?kp @ ?T" using P len rgk by simp
                  from main_convolution_run[OF r7] V7 K7
                  obtain m where "trace w' = trace w7 @ take m ?T"
                    and full: "\<forall>u. r = Inr u \<longrightarrow> take m ?T = ?T \<and>
                       outline ?T = [''computeElFF'', ''FFel''] @ (if energy A then [''Eel''] else [])"
                    by auto
                  with pre d6 len n have "trace w' = trace w @ (d6 @ pre) @ take (4 + m) ?P"
                    unfolding P' by simp
                  moreover have "\<forall>u. r = Inr u \<longrightarrow> take (4 + m) ?P = ?P \<and> outline ?P = full_outline A"
                    using full len kpfm_plan_full[OF len] Some unfolding P'
                    by (auto simp: outline_append full_outline_def)
                  ultimately show ?thesis
                    by (intro concl[of "d6 @ pre" "4 + m"])
                       (use d6 pre in \<open>auto simp: outline_append\<close>)
                qed
              qed
            qed
          qed
        qed
      qed
    qed
  qed
qed

subsection \<open>What a run correlates and writes, read off its plan\<close>


lemma outline_silent: "outline t = [] \<Longrightarrow> ev \<in> set t \<Longrightarrow> outline [ev] = []"
proof (induction t rule: outline.induct)
  case 1
  then show ?case by simp
qed (auto split: if_splits)

lemma outline_take: "prefix (outline (take n xs)) (outline xs)"
proof -
  have "outline xs = outline (take n xs) @ outline (drop n xs)"
    by (simp add: outline_append[symmetric])
  then show ?thesis by (simp add: prefix_def)
qed

lemma main_follows_plan:
  assumes "main A E start = (r, w')"
  shows "\<exists>pre n. outline pre = [] \<and> trace w' = pre @ take n (main_plan A E) \<and>
     (\<forall>u. r = Inr u \<longrightarrow> take n (main_plan A E) = main_plan A E \<and>
                         outline (main_plan A E) = full_outline A)"
  using main_follows_plan_from[OF assms] by (simp add: start_def)

lemma main_event_planned:
  assumes "ev \<in> set (trace (snd (main A E start)))" and "outline [ev] \<noteq> []"
  shows "ev \<in> set (main_plan A E)"
proof -
  obtain r w' where run: "main A E start = (r, w')" by (cases "main A E start")
  from main_follows_plan[OF run] obtain pre n where
    p: "outline pre = []" "trace w' = pre @ take n (main_plan A E)"
    by blast
  from assms(1) run p have "ev \<in> set pre \<or> ev \<in> set (take n (main_plan A E))" by auto
  with outline_silent[OF p(1), of ev] assms(2) show ?thesis
    by (auto dest: in_set_takeD)
qed

lemma main_outline:
  assumes "main A E start = (r, w')"
  shows "prefix (outline (trace w')) (outline (main_plan A E))"
    and "r = Inr u \<Longrightarrow> outline (trace w') = full_outline A"
proof -
  from main_follows_plan[OF assms] obtain pre n where
    p: "outline pre = []" "trace w' = pre @ take n (main_plan A E)"
    "\<forall>u. r = Inr u \<longrightarrow> take n (main_plan A E) = main_plan A E \<and>
                         outline (main_plan A E) = full_outline A"
    by blast
  from p(1,2) have o: "outline (trace w') = outline (take n (main_plan A E))"
    by (simp add: outline_append)
  with outline_take show "prefix (outline (trace w')) (outline (main_plan A E))" by simp
  assume "r = Inr u"
  with p(3) o show "outline (trace w') = full_outline A" by simp
qed

lemma main_tail_outline:
  "prefix (outline (main_tail A E negV lv nd K atoms ls hs))
     ([''computeElFF'', ''FFel''] @ (if energy A then [''Eel''] else []))"
  by (simp add: main_tail_def split: sum.splits)

lemma main_plan_shape:
  assumes ne: "main_plan A E \<noteq> []"
  obtains S atoms nds ls hs d0 lv nd h K rho0 where
    "load_settings E = Inr S" "loadGeometry E (input A) = Inr (atoms, nds, ls)"
    "sample_head E atoms ls = Some hs" "read_grid E (input A) = Some (d0, lv, nd, h)"
    "tip_plan A E S = Some (K, rho0)"
    "main_plan A E =
       (case KPFM_sample A of
          None \<Rightarrow> main_tail A E (np_imul d0 (- 1)) lv nd K atoms ls hs
        | Some ks \<Rightarrow>
            kpfm_plan A E S (kpfm_sample A E ks (np_imul d0 (- 1)) lv nd h)
              (np_imul d0 (- 1)) K rho0 ls hs @
            (if length (kpfm_plan A E S (kpfm_sample A E ks (np_imul d0 (- 1)) lv nd h)
                          (np_imul d0 (- 1)) K rho0 ls hs) = 4 then
               (case kpfm_sample A E ks (np_imul d0 (- 1)) lv nd h of
                  None \<Rightarrow> []
                | Some (Vref_s, dV_kpfm, lvec, nDim, head) \<Rightarrow>
                    main_tail A E (np_imul d0 (- 1)) lvec nDim K atoms ls hs)
             else []))"
proof (cases "load_settings E")
  case (Inl m)
  with ne show ?thesis by (simp add: main_plan_def)
next
  case S: (Inr S)
  show ?thesis
  proof (cases "loadGeometry E (input A)")
    case (Inl m)
    with ne S show ?thesis by (simp add: main_plan_def)
  next
    case (Inr g)
    obtain atoms nds ls where g: "g = (atoms, nds, ls)" by (cases g) auto
    note geo = Inr[unfolded g]
    show ?thesis
    proof (cases "sample_head E atoms ls")
      case None
      with ne S geo show ?thesis by (simp add: main_plan_def)
    next
      case hs: (Some hs)
      show ?thesis
      proof (cases "read_grid E (input A)")
        case None
        with ne S geo hs show ?thesis by (simp add: main_plan_def)
      next
        case (Some x)
        obtain d0 lv nd h where x: "x = (d0, lv, nd, h)" by (cases x) auto
        note rg = Some[unfolded x]
        show ?thesis
        proof (cases "tip_plan A E S")
          case None
          with ne S geo hs rg show ?thesis by (simp add: main_plan_def)
        next
          case (Some y)
          obtain K rho0 where y: "y = (K, rho0)" by (cases y)
          note tp = Some[unfolded y]
          show ?thesis
            by (rule that[OF S geo hs rg tp], cases "KPFM_sample A")
               (simp_all add: main_plan_def S geo hs rg tp Let_def)
        qed
      qed
    qed
  qed
qed

lemma main_plan_outline: "prefix (outline (main_plan A E)) (full_outline A)"
proof (cases "main_plan A E = []")
  case True
  then show ?thesis by simp
next
  case False
  then obtain S atoms nds ls hs d0 lv nd h K rho0 where
    P: "main_plan A E =
       (case KPFM_sample A of
          None \<Rightarrow> main_tail A E (np_imul d0 (- 1)) lv nd K atoms ls hs
        | Some ks \<Rightarrow>
            kpfm_plan A E S (kpfm_sample A E ks (np_imul d0 (- 1)) lv nd h)
              (np_imul d0 (- 1)) K rho0 ls hs @
            (if length (kpfm_plan A E S (kpfm_sample A E ks (np_imul d0 (- 1)) lv nd h)
                          (np_imul d0 (- 1)) K rho0 ls hs) = 4 then
               (case kpfm_sample A E ks (np_imul d0 (- 1)) lv nd h of
                  None \<Rightarrow> []
                | Some (Vref_s, dV_kpfm, lvec, nDim, head) \<Rightarrow>
                    main_tail A E (np_imul d0 (- 1)) lvec nDim K atoms ls hs)
             else []))"
    by (rule main_plan_shape)
  show ?thesis
  proof (cases "KPFM_sample A")
    case None
    with P main_tail_outline[of A E "np_imul d0 (- 1)" lv nd K atoms ls hs] show ?thesis
      by (simp add: full_outline_def)
  next
    case (Some ks)
    let ?smp = "kpfm_sample A E ks (np_imul d0 (- 1)) lv nd h"
    let ?kp = "kpfm_plan A E S ?smp (np_imul d0 (- 1)) K rho0 ls hs"
    let ?L = "[''computeElFF'', ''FFel''] @ (if energy A then [''Eel''] else [])"
    have fo: "full_outline A =
        [''computeElFF'', ''computeElFF'', ''FFkpfm_t0sV'', ''FFkpfm_tVs0''] @ ?L"
      using Some by (simp add: full_outline_def)
    show ?thesis
    proof (cases "length ?kp = 4")
      case True
      have "prefix (outline (case ?smp of None \<Rightarrow> []
                | Some (Vref_s, dV_kpfm, lvec, nDim, head) \<Rightarrow>
                    main_tail A E (np_imul d0 (- 1)) lvec nDim K atoms ls hs)) ?L"
      proof (cases ?smp)
        case None
        then show ?thesis by simp
      next
        case (Some g)
        obtain Vs dV lvk ndk hk where "g = (Vs, dV, lvk, ndk, hk)" by (cases g) auto
        with Some main_tail_outline[of A E "np_imul d0 (- 1)" lvk ndk K atoms ls hs]
        show ?thesis by simp
      qed
      with True kpfm_plan_full[OF True] P Some show ?thesis
        unfolding fo by (simp add: outline_append del: append.simps)
    next
      case False
      from kpfm_plan_outline[of A E S ?smp "np_imul d0 (- 1)" K rho0 ls hs]
      have "prefix (outline ?kp)
          ([''computeElFF'', ''computeElFF'', ''FFkpfm_t0sV'', ''FFkpfm_tVs0''] @ ?L)"
        by (rule prefix_prefix)
      with False P Some show ?thesis unfolding fo by simp
    qed
  qed
qed


lemma mem_convs:
  "ComputeElFF V lv nd k cv tlt sg \<in> set t \<Longrightarrow>
     \<lparr>cV = V, cLvec = lv, cDim = nd, cK = k, cVpot = cv, cTilt = tlt, cSigma = sg\<rparr> \<in> set (convs t)"
  by (induction t rule: convs.induct) auto

lemma saved_mem:
  "saved nm t = Some d \<Longrightarrow> \<exists>ls f hs ai. SaveVec nm d ls f hs ai \<in> set t"
  by (induction nm t rule: saved.induct) (auto split: if_splits)


lemma saved_planned:
  assumes "saved nm (trace (snd (main A E start))) = Some d"
  shows "\<exists>ls f hs ai. SaveVec nm d ls f hs ai \<in> set (main_plan A E)"
proof -
  from saved_mem[OF assms] obtain ls f hs ai where
    "SaveVec nm d ls f hs ai \<in> set (trace (snd (main A E start)))" by blast
  from main_event_planned[OF this] show ?thesis by auto
qed


lemma main_tail_saved:
  assumes "SaveVec nm d ls' f hs' ai \<in> set (main_tail A E negV lv0 nd0 K atoms ls hs)"
  shows "nm = ''FFel''"
  using assms by (auto simp: main_tail_def split: sum.splits if_splits)

lemma kpfm_maps_mem:
  assumes "ev \<in> set (kpfm_maps A r1 r2 Vs Vt lv nd ls hs)"
  shows "\<exists>v1 v2. (fst nd = 0 \<or> (Vs = Some (Some v1) \<and> Vt = Some (Some v2))) \<and>
     (ev = SaveVec ''FFkpfm_t0sV''
             (normalised r1 v1 (linspace (lv 0 2 - z0 A) (lv 3 2 - z0 A) (fst nd)) (fst nd))
             ls (output_format A) hs None \<or>
      ev = SaveVec ''FFkpfm_tVs0''
             (normalised r2 v2 (linspace (lv 0 2 - z0 A) (lv 3 2 - z0 A) (fst nd)) (fst nd))
             ls (output_format A) hs None)"
proof (cases "fst nd = 0")
  case True
  from kpfm_maps_two[of nd Vs 0 Vt 0 A r1 r2 lv ls hs] True assms show ?thesis
    by (intro exI[of _ 0]) auto
next
  case False
  with assms have "\<exists>v1 v2. Vs = Some (Some v1) \<and> Vt = Some (Some v2)"
    by (cases Vs; cases Vt) (auto simp: kpfm_maps_def Let_def split: option.splits)
  then obtain v1 v2 where v: "Vs = Some (Some v1)" "Vt = Some (Some v2)" by blast
  with kpfm_maps_two[of nd Vs v1 Vt v2 A r1 r2 lv ls hs] assms show ?thesis
    by (intro exI[of _ v1] exI[of _ v2]) auto
qed

text \<open>The shape of a KPFM plan by its length.\<close>

lemma kpfm_plan_shape:
  assumes ne: "kpfm_plan A E S smp negV K rho0 ls hs \<noteq> []"
  obtains Vs dV lv nd h Vt k2o sg where
    "smp = Some (Vs, dV, lv, nd, h)"
    "kpfm_tip_plan A E S rho0 = Some (Vt, k2o, sg)"
    "kpfm_plan A E S smp negV K rho0 ls hs =
       ComputeElFF dV lv nd K (energy A) (tilt A) None #
       (case computeElFF E dV lv nd K (energy A) (tilt A) None of
          Inl _ \<Rightarrow> []
        | Inr out1 \<Rightarrow>
            (case k2o of
               None \<Rightarrow> []
             | Some k2 \<Rightarrow>
                 ComputeElFF negV lv nd k2 (energy A) (tilt A) (Some sg) #
                 (case computeElFF E negV lv nd k2 (energy A) (tilt A) (Some sg) of
                    Inl _ \<Rightarrow> []
                  | Inr out2 \<Rightarrow> kpfm_maps A (FF out1) (FF out2) Vs Vt lv nd ls hs)))"
proof (cases smp)
  case None
  with ne show ?thesis by (simp add: kpfm_plan_def)
next
  case (Some g)
  obtain Vs dV lv nd h where g: "g = (Vs, dV, lv, nd, h)" by (cases g) auto
  note rg = Some[unfolded g]
  show ?thesis
  proof (cases "kpfm_tip_plan A E S rho0")
    case None
    with ne rg show ?thesis by (simp add: kpfm_plan_def)
  next
    case (Some t)
    obtain Vt k2o sg where t: "t = (Vt, k2o, sg)" by (cases t) auto
    note tp = Some[unfolded t]
    show ?thesis
      by (rule that[OF rg tp]) (simp add: kpfm_plan_def rg tp)
  qed
qed


lemma kpfm_plan_saved:
  assumes "SaveVec nm d ls' f hs' ai \<in> set (kpfm_plan A E S smp negV K rho0 ls hs)"
  shows "\<exists>Vs dV lv nd h Vt k2 sg out1 out2 v1 v2.
     smp = Some (Vs, dV, lv, nd, h) \<and>
     kpfm_tip_plan A E S rho0 = Some (Vt, Some k2, sg) \<and>
     computeElFF E dV lv nd K (energy A) (tilt A) None = Inr out1 \<and>
     computeElFF E negV lv nd k2 (energy A) (tilt A) (Some sg) = Inr out2 \<and>
     kpfm_plan A E S smp negV K rho0 ls hs =
       [ComputeElFF dV lv nd K (energy A) (tilt A) None,
        ComputeElFF negV lv nd k2 (energy A) (tilt A) (Some sg),
        SaveVec ''FFkpfm_t0sV''
          (normalised (FF out1) v1 (linspace (lv 0 2 - z0 A) (lv 3 2 - z0 A) (fst nd)) (fst nd))
          ls (output_format A) hs None,
        SaveVec ''FFkpfm_tVs0''
          (normalised (FF out2) v2 (linspace (lv 0 2 - z0 A) (lv 3 2 - z0 A) (fst nd)) (fst nd))
          ls (output_format A) hs None] \<and>
     (fst nd = 0 \<or> (Vs = Some (Some v1) \<and> Vt = Some (Some v2)))"
proof -
  from assms have "kpfm_plan A E S smp negV K rho0 ls hs \<noteq> []" by auto
  then obtain Vs dV lv nd h Vt k2o sg where
    f: "smp = Some (Vs, dV, lv, nd, h)"
       "kpfm_tip_plan A E S rho0 = Some (Vt, k2o, sg)"
    and P: "kpfm_plan A E S smp negV K rho0 ls hs =
       ComputeElFF dV lv nd K (energy A) (tilt A) None #
       (case computeElFF E dV lv nd K (energy A) (tilt A) None of
          Inl _ \<Rightarrow> []
        | Inr out1 \<Rightarrow>
            (case k2o of
               None \<Rightarrow> []
             | Some k2 \<Rightarrow>
                 ComputeElFF negV lv nd k2 (energy A) (tilt A) (Some sg) #
                 (case computeElFF E negV lv nd k2 (energy A) (tilt A) (Some sg) of
                    Inl _ \<Rightarrow> []
                  | Inr out2 \<Rightarrow> kpfm_maps A (FF out1) (FF out2) Vs Vt lv nd ls hs)))"
    by (rule kpfm_plan_shape)
  from assms[unfolded P] have "\<exists>out1 k2 out2.
       computeElFF E dV lv nd K (energy A) (tilt A) None = Inr out1 \<and> k2o = Some k2 \<and>
       computeElFF E negV lv nd k2 (energy A) (tilt A) (Some sg) = Inr out2 \<and>
       SaveVec nm d ls' f hs' ai \<in> set (kpfm_maps A (FF out1) (FF out2) Vs Vt lv nd ls hs)"
  proof (cases "computeElFF E dV lv nd K (energy A) (tilt A) None")
    case (Inl m)
    with assms[unfolded P] show ?thesis by simp
  next
    case o1: (Inr out1)
    show ?thesis
    proof (cases k2o)
      case None
      with assms[unfolded P] o1 show ?thesis by simp
    next
      case (Some k2)
      show ?thesis
      proof (cases "computeElFF E negV lv nd k2 (energy A) (tilt A) (Some sg)")
        case (Inl m)
        with assms[unfolded P] o1 Some show ?thesis by simp
      next
        case (Inr out2)
        with assms[unfolded P] o1 Some show ?thesis by simp
      qed
    qed
  qed
  then obtain out1 k2 out2 where
    o: "computeElFF E dV lv nd K (energy A) (tilt A) None = Inr out1" "k2o = Some k2"
       "computeElFF E negV lv nd k2 (energy A) (tilt A) (Some sg) = Inr out2"
    and m: "SaveVec nm d ls' f hs' ai \<in> set (kpfm_maps A (FF out1) (FF out2) Vs Vt lv nd ls hs)"
    by blast
  from kpfm_maps_mem[OF m] obtain v1 v2 where
    v: "fst nd = 0 \<or> (Vs = Some (Some v1) \<and> Vt = Some (Some v2))" by blast
  from P o kpfm_maps_two[OF v, of A "FF out1" "FF out2" lv ls hs] f v show ?thesis
    by (intro exI[of _ Vs] exI[of _ dV] exI[of _ lv] exI[of _ nd] exI[of _ h] exI[of _ Vt]
              exI[of _ k2] exI[of _ sg] exI[of _ out1] exI[of _ out2] exI[of _ v1] exI[of _ v2])
       simp
qed

text \<open>What lines 93 to 108 give, by the extension of the file name.\<close>

lemma kpfm_sample_cases:
  assumes "kpfm_sample A E ks negV lv0 nd0 h0 = Some (Vs, dV, lv, nd, h)"
  shows "(Vs = Some (Vref A) \<and>
          (\<exists>dk. read_grid E ks = Some (dk, lv, nd, h) \<and> np_sub dk negV = Inr dV)) \<or>
         (Vs = None \<and> read_grid E ks = None \<and> 0 \<in> set (shp negV) \<and> dV = negV \<and>
          lv = lv0 \<and> nd = nd0 \<and> h = h0)"
  using assms
  by (auto simp: kpfm_sample_def none_minus_def read_grid_def
           split: if_splits option.splits sum.splits)



lemma tip_plan_symbolic:
  assumes "tip_plan A E S = Some (K, rho0)" and "tip_dens A = None"
  shows "(\<exists>s. K = KSym s) \<and> rho0 = None"
  using assms by (auto simp: tip_plan_def split: option.splits if_splits sum.splits)

lemma linspace_nth:
  assumes "i < n"
  shows "linspace a b n ! i = a + real i * ((b - a) / real (n - 1))"
  using assms by (auto simp: linspace_def)

lemma normalised_el:
  assumes "i < fst nd"
  shows "el (normalised raw v (linspace (lv 0 2 - z) (lv 3 2 - z) (fst nd)) (fst nd)) (i # idx)
           = el raw (i # idx) / (v * (slice_height lv nd i - z + 0.1))"
  using assms by (simp add: normalised_def linspace_nth slice_height_def algebra_simps)

lemma normalised_shp: "shp (normalised raw v zpos n) = shp raw"
  by (simp add: normalised_def)

lemma normalised_rest:
  assumes "\<not> i < n"
  shows "el (normalised raw v zpos n) (i # idx) = el raw (i # idx)"
  using assms by (simp add: normalised_def)

text \<open>The first correlation of a run of the KPFM branch.\<close>

lemma convs_append: "convs (a @ b) = convs a @ convs b"
  by (induction a rule: convs.induct) auto

lemma convs_silent: "outline t = [] \<Longrightarrow> convs t = []"
  by (induction t rule: outline.induct) auto

lemma np_sub_negated:
  assumes "np_sub dk (np_imul d0 (- 1)) = Inr dV"
  shows "el dV idx = el dk (fit (shp dk) idx) + el d0 (fit (shp d0) idx)"
  using assms by (auto simp: np_sub_def np_imul_def split: option.splits)

lemma first_conv_kpfm:
  assumes ks: "KPFM_sample A = Some ks"
    and ne: "convs (trace (snd (main A E start))) \<noteq> []"
  shows "\<exists>d0 lv nd h Vs dV lvk ndk hk K.
     read_grid E (input A) = Some (d0, lv, nd, h) \<and>
     kpfm_sample A E ks (np_imul d0 (- 1)) lv nd h = Some (Vs, dV, lvk, ndk, hk) \<and>
     hd (convs (trace (snd (main A E start)))) =
       \<lparr>cV = dV, cLvec = lvk, cDim = ndk, cK = K, cVpot = energy A, cTilt = tilt A,
        cSigma = None\<rparr>"
proof -
  obtain r w' where run: "main A E start = (r, w')" by (cases "main A E start")
  from main_follows_plan[OF run] obtain pre n where
    p: "outline pre = []" "trace w' = pre @ take n (main_plan A E)"
    by blast
  from p run have cv: "convs (trace (snd (main A E start))) = convs (take n (main_plan A E))"
    by (simp add: convs_append convs_silent)
  with ne have n: "n \<noteq> 0" by (cases n) auto
  from cv ne have "main_plan A E \<noteq> []" by auto
  then obtain S atoms nds ls hs d0 lv nd h K rho0 where
    rg: "read_grid E (input A) = Some (d0, lv, nd, h)"
    and P: "main_plan A E =
       (case KPFM_sample A of
          None \<Rightarrow> main_tail A E (np_imul d0 (- 1)) lv nd K atoms ls hs
        | Some ks \<Rightarrow>
            kpfm_plan A E S (kpfm_sample A E ks (np_imul d0 (- 1)) lv nd h)
              (np_imul d0 (- 1)) K rho0 ls hs @
            (if length (kpfm_plan A E S (kpfm_sample A E ks (np_imul d0 (- 1)) lv nd h)
                          (np_imul d0 (- 1)) K rho0 ls hs) = 4 then
               (case kpfm_sample A E ks (np_imul d0 (- 1)) lv nd h of
                  None \<Rightarrow> []
                | Some (Vref_s, dV_kpfm, lvec, nDim, head) \<Rightarrow>
                    main_tail A E (np_imul d0 (- 1)) lvec nDim K atoms ls hs)
             else []))"
    by (rule main_plan_shape)
  let ?smp = "kpfm_sample A E ks (np_imul d0 (- 1)) lv nd h"
  let ?kp = "kpfm_plan A E S ?smp (np_imul d0 (- 1)) K rho0 ls hs"
  have kne: "?kp \<noteq> []"
  proof
    assume "?kp = []"
    with P ks have "main_plan A E = []" by simp
    with \<open>main_plan A E \<noteq> []\<close> show False by simp
  qed
  then obtain Vs dV lvk ndk hk Vt k2o sg rest where
    smp: "?smp = Some (Vs, dV, lvk, ndk, hk)"
    and kp: "?kp = ComputeElFF dV lvk ndk K (energy A) (tilt A) None # rest"
    by (rule kpfm_plan_shape) blast
  from P ks kp obtain rest' where
    "main_plan A E = ComputeElFF dV lvk ndk K (energy A) (tilt A) None # rest'"
    by simp
  with n have "hd (convs (take n (main_plan A E))) =
       \<lparr>cV = dV, cLvec = lvk, cDim = ndk, cK = K, cVpot = energy A, cTilt = tilt A,
        cSigma = None\<rparr>"
    by (cases n) simp_all
  with cv have "hd (convs (trace (snd (main A E start)))) =
       \<lparr>cV = dV, cLvec = lvk, cDim = ndk, cK = K, cVpot = energy A, cTilt = tilt A,
        cSigma = None\<rparr>"
    by simp
  with rg smp show ?thesis by blast
qed

text \<open>What a written KPFM map is, with the two correlations before it.\<close>

lemma take_earlier:
  assumes "ev \<in> set (take n (a # b # rest))" and "ev \<noteq> a" and "ev \<noteq> b"
  shows "a \<in> set (take n (a # b # rest)) \<and> b \<in> set (take n (a # b # rest))"
proof (cases n)
  case 0
  with assms show ?thesis by simp
next
  case (Suc m)
  with assms show ?thesis by (cases m) auto
qed

lemma kpfm_tip_plan_Vt:
  assumes "kpfm_tip_plan A E S rho0 = Some (Some (Some v), k2o, sg)"
  shows "if tip_from_file A then Vref A = Some v
         else v = - 0.1 \<and> KPFM_tip A \<in> {''Fit'', ''fit'', ''dipole'', ''pz''}"
  using assms
  by (auto simp: kpfm_tip_plan_def tip_from_file_def
           split: if_splits option.splits sum.splits prod.splits)

lemma kpfm_tip_plan_token:
  assumes "KPFM_tip A \<in> {''Fit'', ''fit'', ''dipole'', ''pz''}"
    and "kpfm_tip_plan A E S rho0 = Some (Vt, Some k2, sg)"
  shows "(params_probeType S, k2, Some sg) \<in>
           {(''8'', KSym (TipDict [(''pz'', - 0.045)]), Some 0.48),
            (''47'', KSym (TipDict [(''pz'', - 0.21875)]), Some 0.7),
            (''54'', KSym (TipDict [(''pz'', - 0.250)]), Some 0.67)} \<and>
         Vt = Some (Some (- 0.1))"
proof -
  from tokens_not_files[OF assms(1)] assms show ?thesis
    by (auto simp: kpfm_tip_plan_def kpfm_tip_model_def Let_def split: if_splits)
qed

lemma kpfm_saved_run:
  assumes sv: "saved nm (trace (snd (main A E start))) = Some d"
    and nm: "nm = ''FFkpfm_t0sV'' \<or> nm = ''FFkpfm_tVs0''"
  shows "\<exists>S rho0 ks d0 lv0 nd0 h0 Vs dV lv nd h K Vt k2 sg out1 out2 v1 v2.
     load_settings E = Inr S \<and> KPFM_sample A = Some ks \<and>
     read_grid E (input A) = Some (d0, lv0, nd0, h0) \<and>
     kpfm_sample A E ks (np_imul d0 (- 1)) lv0 nd0 h0 = Some (Vs, dV, lv, nd, h) \<and>
     kpfm_tip_plan A E S rho0 = Some (Vt, Some k2, sg) \<and>
     \<lparr>cV = dV, cLvec = lv, cDim = nd, cK = K, cVpot = energy A, cTilt = tilt A, cSigma = None\<rparr>
       \<in> set (convs (trace (snd (main A E start)))) \<and>
     \<lparr>cV = np_imul d0 (- 1), cLvec = lv, cDim = nd, cK = k2, cVpot = energy A, cTilt = tilt A,
      cSigma = Some sg\<rparr> \<in> set (convs (trace (snd (main A E start)))) \<and>
     computeElFF E dV lv nd K (energy A) (tilt A) None = Inr out1 \<and>
     computeElFF E (np_imul d0 (- 1)) lv nd k2 (energy A) (tilt A) (Some sg) = Inr out2 \<and>
     (fst nd = 0 \<or> (Vs = Some (Some v1) \<and> Vt = Some (Some v2))) \<and>
     ((nm = ''FFkpfm_t0sV'' \<and>
       d = normalised (FF out1) v1 (linspace (lv 0 2 - z0 A) (lv 3 2 - z0 A) (fst nd)) (fst nd)) \<or>
      (nm = ''FFkpfm_tVs0'' \<and>
       d = normalised (FF out2) v2 (linspace (lv 0 2 - z0 A) (lv 3 2 - z0 A) (fst nd)) (fst nd)))"
proof -
  obtain r w' where run: "main A E start = (r, w')" by (cases "main A E start")
  from main_follows_plan[OF run] obtain pre n where
    p: "outline pre = []" "trace w' = pre @ take n (main_plan A E)"
    by blast
  from saved_mem[OF sv] run obtain ls' f hs' ai where
    ev: "SaveVec nm d ls' f hs' ai \<in> set (trace w')" by auto
  let ?ev = "SaveVec nm d ls' f hs' ai"
  have evn: "?ev \<in> set (take n (main_plan A E))"
  proof -
    from ev p(2) have "?ev \<in> set pre \<or> ?ev \<in> set (take n (main_plan A E))" by auto
    with outline_silent[OF p(1), of ?ev] show ?thesis by auto
  qed
  then have evP: "?ev \<in> set (main_plan A E)" by (rule in_set_takeD)
  then have "main_plan A E \<noteq> []" by auto
  then obtain S atoms nds ls hs d0 lv0 nd0 h0 K rho0 where
    S: "load_settings E = Inr S" and rg: "read_grid E (input A) = Some (d0, lv0, nd0, h0)"
    and P: "main_plan A E =
       (case KPFM_sample A of
          None \<Rightarrow> main_tail A E (np_imul d0 (- 1)) lv0 nd0 K atoms ls hs
        | Some ks \<Rightarrow>
            kpfm_plan A E S (kpfm_sample A E ks (np_imul d0 (- 1)) lv0 nd0 h0)
              (np_imul d0 (- 1)) K rho0 ls hs @
            (if length (kpfm_plan A E S (kpfm_sample A E ks (np_imul d0 (- 1)) lv0 nd0 h0)
                          (np_imul d0 (- 1)) K rho0 ls hs) = 4 then
               (case kpfm_sample A E ks (np_imul d0 (- 1)) lv0 nd0 h0 of
                  None \<Rightarrow> []
                | Some (Vref_s, dV_kpfm, lvec, nDim, head) \<Rightarrow>
                    main_tail A E (np_imul d0 (- 1)) lvec nDim K atoms ls hs)
             else []))"
    by (rule main_plan_shape)
  have nFF: "nm \<noteq> ''FFel''" using nm by auto
  show ?thesis
  proof (cases "KPFM_sample A")
    case None
    with evP P main_tail_saved[of nm d ls' f hs' ai A E "np_imul d0 (- 1)" lv0 nd0 K atoms ls hs] nFF
    show ?thesis by simp
  next
    case (Some ks)
    let ?smp = "kpfm_sample A E ks (np_imul d0 (- 1)) lv0 nd0 h0"
    let ?kp = "kpfm_plan A E S ?smp (np_imul d0 (- 1)) K rho0 ls hs"
    let ?X = "if length ?kp = 4 then
               (case ?smp of
                  None \<Rightarrow> []
                | Some (Vref_s, dV_kpfm, lvec, nDim, head) \<Rightarrow>
                    main_tail A E (np_imul d0 (- 1)) lvec nDim K atoms ls hs)
             else []"
    have PX: "main_plan A E = ?kp @ ?X" using P Some by simp
    have "?ev \<notin> set ?X"
    proof (cases "length ?kp = 4")
      case False
      then show ?thesis by simp
    next
      case True
      show ?thesis
      proof (cases ?smp)
        case None
        with True show ?thesis by (simp add: kpfm_plan_def)
      next
        case g: (Some g)
        obtain Vs' dV' lvk ndk hk where gg: "g = (Vs', dV', lvk, ndk, hk)" by (cases g) auto
        from main_tail_saved[of nm d ls' f hs' ai A E "np_imul d0 (- 1)" lvk ndk K atoms ls hs] nFF
        have "?ev \<notin> set (main_tail A E (np_imul d0 (- 1)) lvk ndk K atoms ls hs)" by blast
        with g gg True show ?thesis by simp
      qed
    qed
    moreover from evP have "?ev \<in> set (?kp @ ?X)" unfolding PX .
    then have "?ev \<in> set ?kp \<or> ?ev \<in> set ?X" by (simp only: set_append Un_iff)
    ultimately have "?ev \<in> set ?kp" by blast
    from kpfm_plan_saved[OF this] obtain Vs dV lv nd h Vt k2 sg out1 out2 v1 v2 where
      f: "?smp = Some (Vs, dV, lv, nd, h)"
         "kpfm_tip_plan A E S rho0 = Some (Vt, Some k2, sg)"
         "computeElFF E dV lv nd K (energy A) (tilt A) None = Inr out1"
         "computeElFF E (np_imul d0 (- 1)) lv nd k2 (energy A) (tilt A) (Some sg) = Inr out2"
         "fst nd = 0 \<or> (Vs = Some (Some v1) \<and> Vt = Some (Some v2))"
      and kp: "?kp =
       [ComputeElFF dV lv nd K (energy A) (tilt A) None,
        ComputeElFF (np_imul d0 (- 1)) lv nd k2 (energy A) (tilt A) (Some sg),
        SaveVec ''FFkpfm_t0sV''
          (normalised (FF out1) v1 (linspace (lv 0 2 - z0 A) (lv 3 2 - z0 A) (fst nd)) (fst nd))
          ls (output_format A) hs None,
        SaveVec ''FFkpfm_tVs0''
          (normalised (FF out2) v2 (linspace (lv 0 2 - z0 A) (lv 3 2 - z0 A) (fst nd)) (fst nd))
          ls (output_format A) hs None]"
      by blast
    let ?c1 = "ComputeElFF dV lv nd K (energy A) (tilt A) None"
    let ?c2 = "ComputeElFF (np_imul d0 (- 1)) lv nd k2 (energy A) (tilt A) (Some sg)"
    from \<open>?ev \<in> set ?kp\<close> have d: "(nm = ''FFkpfm_t0sV'' \<and>
       d = normalised (FF out1) v1 (linspace (lv 0 2 - z0 A) (lv 3 2 - z0 A) (fst nd)) (fst nd)) \<or>
      (nm = ''FFkpfm_tVs0'' \<and>
       d = normalised (FF out2) v2 (linspace (lv 0 2 - z0 A) (lv 3 2 - z0 A) (fst nd)) (fst nd))"
      unfolding kp by auto
    have "main_plan A E = ?c1 # ?c2 # (drop 2 ?kp @ ?X)" unfolding PX kp by simp
    with evn take_earlier[of ?ev n ?c1 ?c2 "drop 2 ?kp @ ?X"]
    have "?c1 \<in> set (take n (main_plan A E))" "?c2 \<in> set (take n (main_plan A E))" by auto
    with p(2) run have "?c1 \<in> set (trace (snd (main A E start)))"
      "?c2 \<in> set (trace (snd (main A E start)))" by auto
    then have c: "\<lparr>cV = dV, cLvec = lv, cDim = nd, cK = K, cVpot = energy A, cTilt = tilt A,
                   cSigma = None\<rparr> \<in> set (convs (trace (snd (main A E start))))"
      "\<lparr>cV = np_imul d0 (- 1), cLvec = lv, cDim = nd, cK = k2, cVpot = energy A, cTilt = tilt A,
        cSigma = Some sg\<rparr> \<in> set (convs (trace (snd (main A E start))))"
      by (auto dest: mem_convs)
    from S Some rg f c d show ?thesis by blast
  qed
qed

text \<open>A KPFM run that completes or writes a field had its reference voltages.\<close>

lemma kpfm_plan_length4:
  assumes "length (kpfm_plan A E S smp negV K rho0 ls hs) = 4"
  shows "\<exists>Vs dV lv nd h. smp = Some (Vs, dV, lv, nd, h) \<and>
           (fst nd = 0 \<or> (\<exists>v1. Vs = Some (Some v1)))"
proof -
  from assms have "kpfm_plan A E S smp negV K rho0 ls hs \<noteq> []" by auto
  then obtain Vs dV lv nd h Vt k2o sg where
    f: "smp = Some (Vs, dV, lv, nd, h)"
    and P: "kpfm_plan A E S smp negV K rho0 ls hs =
       ComputeElFF dV lv nd K (energy A) (tilt A) None #
       (case computeElFF E dV lv nd K (energy A) (tilt A) None of
          Inl _ \<Rightarrow> []
        | Inr out1 \<Rightarrow>
            (case k2o of
               None \<Rightarrow> []
             | Some k2 \<Rightarrow>
                 ComputeElFF negV lv nd k2 (energy A) (tilt A) (Some sg) #
                 (case computeElFF E negV lv nd k2 (energy A) (tilt A) (Some sg) of
                    Inl _ \<Rightarrow> []
                  | Inr out2 \<Rightarrow> kpfm_maps A (FF out1) (FF out2) Vs Vt lv nd ls hs)))"
    by (rule kpfm_plan_shape)
  from assms[unfolded P] obtain r1 r2 where "kpfm_maps A r1 r2 Vs Vt lv nd ls hs \<noteq> []"
    by (fastforce split: sum.splits option.splits)
  then have "fst nd = 0 \<or> (\<exists>v1. Vs = Some (Some v1))"
    by (auto simp: kpfm_maps_def Let_def split: if_splits option.splits)
  with f show ?thesis by blast
qed

lemma kpfm_output_needs_Vref:
  assumes ks: "KPFM_sample A = Some ks"
    and out: "fst (main A E start) = Inr () \<or> saved nm (trace (snd (main A E start))) \<noteq> None"
  shows "\<exists>d0 lv0 nd0 h0 Vs dV lv nd h.
     read_grid E (input A) = Some (d0, lv0, nd0, h0) \<and>
     kpfm_sample A E ks (np_imul d0 (- 1)) lv0 nd0 h0 = Some (Vs, dV, lv, nd, h) \<and>
     (fst nd = 0 \<or> (\<exists>v1. Vs = Some (Some v1)))"
proof -
  obtain r w' where run: "main A E start = (r, w')" by (cases "main A E start")
  from main_follows_plan[OF run] obtain pre n where
    p: "outline pre = []" "trace w' = pre @ take n (main_plan A E)"
    "\<forall>u. r = Inr u \<longrightarrow> take n (main_plan A E) = main_plan A E \<and>
                         outline (main_plan A E) = full_outline A"
    by blast
  have ne: "main_plan A E \<noteq> []"
  proof (cases "fst (main A E start) = Inr ()")
    case True
    with run p(3) have "outline (main_plan A E) = full_outline A" by simp
    then show ?thesis by (auto simp: full_outline_def)
  next
    case False
    with out obtain d where "saved nm (trace (snd (main A E start))) = Some d" by auto
    from saved_planned[OF this] show ?thesis by auto
  qed
  then obtain S atoms nds ls hs d0 lv0 nd0 h0 K rho0 where
    rg: "read_grid E (input A) = Some (d0, lv0, nd0, h0)"
    and P: "main_plan A E =
       (case KPFM_sample A of
          None \<Rightarrow> main_tail A E (np_imul d0 (- 1)) lv0 nd0 K atoms ls hs
        | Some ks \<Rightarrow>
            kpfm_plan A E S (kpfm_sample A E ks (np_imul d0 (- 1)) lv0 nd0 h0)
              (np_imul d0 (- 1)) K rho0 ls hs @
            (if length (kpfm_plan A E S (kpfm_sample A E ks (np_imul d0 (- 1)) lv0 nd0 h0)
                          (np_imul d0 (- 1)) K rho0 ls hs) = 4 then
               (case kpfm_sample A E ks (np_imul d0 (- 1)) lv0 nd0 h0 of
                  None \<Rightarrow> []
                | Some (Vref_s, dV_kpfm, lvec, nDim, head) \<Rightarrow>
                    main_tail A E (np_imul d0 (- 1)) lvec nDim K atoms ls hs)
             else []))"
    by (rule main_plan_shape)
  let ?smp = "kpfm_sample A E ks (np_imul d0 (- 1)) lv0 nd0 h0"
  let ?kp = "kpfm_plan A E S ?smp (np_imul d0 (- 1)) K rho0 ls hs"
  have four: "length ?kp = 4"
  proof (rule ccontr)
    assume n4: "length ?kp \<noteq> 4"
    with P ks have PK: "main_plan A E = ?kp" by simp
    show False
    proof (cases "fst (main A E start) = Inr ()")
      case True
      with run p(3) have "outline (main_plan A E) = full_outline A" by simp
      with PK ks have "outline ?kp =
          [''computeElFF'', ''computeElFF'', ''FFkpfm_t0sV'', ''FFkpfm_tVs0'',
           ''computeElFF'', ''FFel''] @ (if energy A then [''Eel''] else [])"
        by (simp add: full_outline_def)
      with kpfm_plan_outline[of A E S ?smp "np_imul d0 (- 1)" K rho0 ls hs]
      show False by (auto simp: prefix_def)
    next
      case False
      with out obtain d where "saved nm (trace (snd (main A E start))) = Some d" by auto
      from saved_planned[OF this] PK obtain ls' f hs' ai where
        "SaveVec nm d ls' f hs' ai \<in> set ?kp" by auto
      from kpfm_plan_saved[OF this] n4 show False by auto
    qed
  qed
  from kpfm_plan_length4[OF four] rg show ?thesis by blast
qed

text \<open>Runs that reach the tip density under bias without a tip density.\<close>

lemma load_sample_geometry_succ:
  assumes "loadGeometry E (input A) = Inr (atoms, nds, ls)" and "sample_head E atoms ls = Some hs"
  shows "\<exists>w'. load_sample_geometry A E w = (Inr (atoms, ls, hs), w')"
  using assms
  by (auto simp: load_sample_geometry_def sample_head_def monad_defs
           split: if_splits sum.splits)

lemma load_potential_succ:
  assumes "read_grid E (input A) = Some (d0, lv, nd, h)"
  shows "\<exists>V w'. load_potential A E w = (Inr (V, lv, nd, h), w')"
  using assms
  by (auto simp: load_potential_def load_xsf_def load_cube_def read_grid_def monad_defs
           split: if_splits sum.splits)

lemma select_tip_succ:
  assumes "tip_plan A E S = Some (K, rho0)" and "tip_dens A = None"
  shows "\<exists>t w'. select_tip E (params_tip S) w = (Inr t, w')"
  using assms
  by (auto simp: select_tip_def tip_plan_def monad_defs
           split: if_splits sum.splits option.splits)

lemma kpfm_load_sample_succ:
  assumes "kpfm_sample A E ks (cells w Vaux) lv nd h = Some x" and "Vaux < nxt w"
  shows "\<exists>y w'. kpfm_load_sample A E ks Vaux lv nd h w = (Inr y, w')"
proof -
  obtain r w' where c: "kpfm_load_sample A E ks Vaux lv nd h w = (r, w')"
    by (cases "kpfm_load_sample A E ks Vaux lv nd h w")
  show ?thesis
  proof (cases r)
    case (Inr y)
    with c show ?thesis by blast
  next
    case (Inl e)
    with c assms have False
      by (auto simp: kpfm_load_sample_def kpfm_sample_def arr_sub_def load_xsf_def load_cube_def
                     read_grid_def monad_defs
               split: if_splits sum.splits option.splits prod.splits)
    then show ?thesis ..
  qed
qed

lemma kpfm_branch_unbound:
  assumes ks: "KPFM_sample A = Some ks"
    and fl: "tip_from_file A"
    and V: "V < nxt w"
    and smp: "kpfm_sample A E ks (cells w V) lv nd h = Some x"
  shows "\<exists>w'. kpfm_branch A E S V lv nd h tip None ls hs w = (Inl (NameError ''rho_tip''), w')"
proof -
  obtain rc1 w1 where c1: "copy V w = (rc1, w1)" by (cases "copy V w")
  from copy_run[OF c1] have rc1: "rc1 = Inr (nxt w)" and w1: "nxt w1 = Suc (nxt w)"
    "cells w1 (nxt w) = cells w V" "\<forall>b. b \<noteq> nxt w \<longrightarrow> cells w1 b = cells w b"
    by auto
  obtain rc2 w2 where c2: "copy V w1 = (rc2, w2)" by (cases "copy V w1")
  from copy_run[OF c2] w1 V have rc2: "rc2 = Inr (Suc (nxt w))"
    and w2: "cells w2 (nxt w) = cells w V" "nxt w < nxt w2"
    by auto
  from smp w2 have "kpfm_sample A E ks (cells w2 (nxt w)) lv nd h = Some x" by simp
  from kpfm_load_sample_succ[OF this w2(2)] obtain y w3 where
    c3: "kpfm_load_sample A E ks (nxt w) lv nd h w2 = (Inr y, w3)" by blast
  obtain Vs dV lv' nd' h' where y: "y = (Vs, dV, lv', nd', h')" by (cases y) auto
  from fl have f: "endswith (lower (KPFM_tip A)) ''.xsf'' \<or> endswith (lower (KPFM_tip A)) ''.cube''"
    by (simp add: tip_from_file_def)
  note c4 = kpfm_load_tip_unbound[OF f, of E S "params_sigma S" w3]
  have "kpfm_branch A E S V lv nd h tip None ls hs w = (Inl (NameError ''rho_tip''), w3)"
    unfolding kpfm_branch_def ks option.case
      thenR_Inr[of "copy V" w, OF c1[unfolded rc1]]
      thenR_Inr[of "copy V" w1, OF c2[unfolded rc2]]
      thenR_Inr[of "kpfm_load_sample A E ks (nxt w) lv nd h" w2, OF c3[unfolded y]]
      prod.case
      thenR_Inl[of "kpfm_load_tip A E S None (params_sigma S)" w3, OF c4]
    by (rule refl)
  then show ?thesis by blast
qed

lemma main_unbound_rho_tip:
  assumes ks: "KPFM_sample A = Some ks"
    and fl: "tip_from_file A"
    and td: "tip_dens A = None"
    and S: "load_settings E = Inr S"
    and geo: "loadGeometry E (input A) = Inr (atoms, nds, ls)"
    and hs: "sample_head E atoms ls = Some hs"
    and rg: "read_grid E (input A) = Some (d0, lv, nd, h)"
    and tp: "tip_plan A E S = Some (K, rho0)"
    and smp: "kpfm_sample A E ks (np_imul d0 (- 1)) lv nd h = Some x"
  shows "fst (main A E w) = Inl (NameError ''rho_tip'')"
proof -
  have c1: "ext (load_settings E) w = (Inr S, w)" using S by (simp add: ext_def)
  have c2: "core_precheck A E w = (Inr None, w)"
    using td by (simp add: core_precheck_def bSubstractCore_def ret_def)
  from load_sample_geometry_succ[OF geo hs] obtain w3 where
    c3: "load_sample_geometry A E w = (Inr (atoms, ls, hs), w3)" by blast
  from load_potential_succ[OF rg] obtain V w4 where
    c4: "load_potential A E w3 = (Inr (V, lv, nd, h), w4)" by blast
  from load_potential_run[OF c4] rg have V: "V < nxt w4" "cells w4 V = np_imul d0 (- 1)"
    by auto
  from select_tip_succ[OF tp td] obtain t w5 where
    c5: "select_tip E (params_tip S) w4 = (Inr t, w5)" by blast
  from select_tip_run[OF c5] have q5: "quiet w4 w5" by simp
  have c6: "load_tip_density A E None t w5 = (Inr (t, None), w5)"
    using td by (simp add: load_tip_density_def ret_def)
  have V5: "V < nxt w5" "cells w5 V = np_imul d0 (- 1)"
    using V quiet_nxt[OF q5] quiet_cells[OF q5, of V] by auto
  from smp V5 have "kpfm_sample A E ks (cells w5 V) lv nd h = Some x" by simp
  from kpfm_branch_unbound[OF ks fl V5(1) this] obtain w7 where
    c7: "kpfm_branch A E S V lv nd h t None ls hs w5 = (Inl (NameError ''rho_tip''), w7)"
    by blast
  have "main A E w = (Inl (NameError ''rho_tip''), w7)"
    unfolding main_def
      thenR_Inr[of "ext (load_settings E)" w, OF c1]
      thenR_Inr[of "core_precheck A E" w, OF c2]
      thenR_Inr[of "load_sample_geometry A E" w, OF c3]
      prod.case
      thenR_Inr[of "load_potential A E" w3, OF c4]
      thenR_Inr[of "select_tip E (params_tip S)" w4, OF c5]
      thenR_Inr[of "load_tip_density A E None t" w5, OF c6]
      thenR_Inl[of "kpfm_branch A E S V lv nd h t None ls hs" w5, OF c7]
    by (rule refl)
  then show ?thesis by simp
qed

lemma main_plan_unbound_rho_tip:
  assumes ks: "KPFM_sample A = Some ks"
    and fl: "tip_from_file A"
    and td: "tip_dens A = None"
  shows "main_plan A E = []"
proof (rule ccontr)
  assume "main_plan A E \<noteq> []"
  then obtain S atoms nds ls hs d0 lv nd h K rho0 where
    tp: "tip_plan A E S = Some (K, rho0)"
    and P: "main_plan A E =
       (case KPFM_sample A of
          None \<Rightarrow> main_tail A E (np_imul d0 (- 1)) lv nd K atoms ls hs
        | Some ks \<Rightarrow>
            kpfm_plan A E S (kpfm_sample A E ks (np_imul d0 (- 1)) lv nd h)
              (np_imul d0 (- 1)) K rho0 ls hs @
            (if length (kpfm_plan A E S (kpfm_sample A E ks (np_imul d0 (- 1)) lv nd h)
                          (np_imul d0 (- 1)) K rho0 ls hs) = 4 then
               (case kpfm_sample A E ks (np_imul d0 (- 1)) lv nd h of
                  None \<Rightarrow> []
                | Some (Vref_s, dV_kpfm, lvec, nDim, head) \<Rightarrow>
                    main_tail A E (np_imul d0 (- 1)) lvec nDim K atoms ls hs)
             else []))"
    by (rule main_plan_shape)
  from tip_plan_symbolic[OF tp td] have r0: "rho0 = None" by simp
  from fl have "kpfm_tip_plan A E S None = None"
    by (auto simp: kpfm_tip_plan_def tip_from_file_def)
  then have "kpfm_plan A E S (kpfm_sample A E ks (np_imul d0 (- 1)) lv nd h)
               (np_imul d0 (- 1)) K None ls hs = []"
    by (simp add: kpfm_plan_def split: option.splits)
  with P ks r0 have "main_plan A E = []" by simp
  with \<open>main_plan A E \<noteq> []\<close> show False by simp
qed

subsection \<open>The correlation theorem of the discrete Fourier transform\<close>

lemma omega_add: "omega n (a + b) = omega n a * omega n b"
  by (simp add: omega_def cis_mult ring_distribs add_divide_distrib)

lemma omega_cnj: "cnj (omega n m) = omega n (- m)"
  by (simp add: omega_def cis_cnj)

lemma omega_pow: "omega n m ^ k = omega n (int k * m)"
  by (simp add: omega_def DeMoivre mult_ac)

lemma omega_dvd:
  assumes "0 < n" and "int n dvd m"
  shows "omega n m = 1"
proof -
  from assms(2) obtain j where m: "m = int n * j" by (auto simp: dvd_def)
  with assms(1) have "2 * pi * real_of_int m / real n = 2 * pi * real_of_int j" by simp
  then show ?thesis
    by (simp add: omega_def complex_eq_iff cos_int_2pin sin_int_2pin)
qed

lemma omega_eq_1:
  assumes "0 < n" and "omega n m = 1"
  shows "int n dvd m"
proof -
  from assms(2) have "cos (2 * pi * real_of_int m / real n) = 1"
    by (simp add: omega_def complex_eq_iff)
  then obtain j :: int where "2 * pi * real_of_int m / real n = real_of_int j * 2 * pi"
    by (auto simp: cos_one_2pi_int)
  with assms(1) have "real_of_int m = real_of_int (j * int n)"
    by (simp add: field_simps)
  then have "m = j * int n" by (simp only: of_int_eq_iff)
  then show ?thesis by simp
qed

lemma omega_sum:
  assumes "0 < n"
  shows "(\<Sum>k<n. omega n (int k * m)) = (if int n dvd m then of_nat n else 0)"
proof (cases "int n dvd m")
  case True
  then have "omega n (int k * m) = 1" for k
    by (intro omega_dvd assms) simp
  with True show ?thesis by simp
next
  case False
  with omega_eq_1[OF assms] have w: "omega n m \<noteq> 1" by blast
  have "(\<Sum>k<n. omega n (int k * m)) = (\<Sum>k<n. omega n m ^ k)"
    by (simp add: omega_pow)
  also have "\<dots> = (1 - omega n m ^ n) / (1 - omega n m)"
    using w by (simp add: sum_gp_strict)
  also have "omega n m ^ n = 1"
    unfolding omega_pow by (rule omega_dvd[OF assms]) simp
  finally show ?thesis using False by simp
qed

lemma shift_dvd:
  assumes "0 < n" and "r < n"
  shows "int n dvd (int R + int s - int r) \<longleftrightarrow> r = (s + R) mod n"
proof -
  have "int n dvd (int (s + R) - int r) \<longleftrightarrow> int (s + R) mod int n = int r mod int n"
    by (simp add: mod_eq_dvd_iff)
  also have "\<dots> \<longleftrightarrow> (s + R) mod n = r mod n"
    by (simp add: zmod_int[symmetric] del: of_nat_add)
  also have "\<dots> \<longleftrightarrow> r = (s + R) mod n" using assms by auto
  finally show ?thesis by (simp add: algebra_simps)
qed

lemma orth1:
  assumes "0 < n" and "r < n"
  shows "(\<Sum>a<n. omega n (int (a * R)) * omega n (int (a * s)) * cnj (omega n (int (a * r))))
           = (if r = (s + R) mod n then of_nat n else 0)"
proof -
  have "omega n (int (a * R)) * omega n (int (a * s)) * cnj (omega n (int (a * r)))
          = omega n (int a * (int R + int s - int r))" for a
    by (simp add: omega_cnj omega_add[symmetric] algebra_simps)
  then show ?thesis
    by (simp add: omega_sum[OF assms(1)] shift_dvd[OF assms])
qed

lemma correlation_sum:
  fixes e :: "'k \<Rightarrow> 'i \<Rightarrow> complex" and eR :: "'k \<Rightarrow> complex" and rho V :: "'i \<Rightarrow> real"
  assumes fin: "finite I" "finite K"
    and orth: "\<And>s r. s \<in> I \<Longrightarrow> r \<in> I \<Longrightarrow>
                 (\<Sum>k\<in>K. eR k * e k s * cnj (e k r)) = (if r = sh s then M else 0)"
    and sh: "\<And>s. s \<in> I \<Longrightarrow> sh s \<in> I"
  shows "(\<Sum>k\<in>K. cnj (\<Sum>s\<in>I. of_real (rho s) * cnj (e k s)) *
                 (\<Sum>r\<in>I. of_real (V r) * cnj (e k r)) * eR k)
           = M * of_real (\<Sum>s\<in>I. rho s * V (sh s))"
proof -
  have "(\<Sum>k\<in>K. cnj (\<Sum>s\<in>I. of_real (rho s) * cnj (e k s)) *
                 (\<Sum>r\<in>I. of_real (V r) * cnj (e k r)) * eR k)
      = (\<Sum>k\<in>K. \<Sum>s\<in>I. \<Sum>r\<in>I. of_real (rho s * V r) * (eR k * e k s * cnj (e k r)))"
  proof (intro sum.cong refl)
    fix k
    have "cnj (\<Sum>s\<in>I. of_real (rho s) * cnj (e k s)) = (\<Sum>s\<in>I. of_real (rho s) * e k s)"
      by simp
    then have "cnj (\<Sum>s\<in>I. of_real (rho s) * cnj (e k s)) *
                 (\<Sum>r\<in>I. of_real (V r) * cnj (e k r)) * eR k
        = (\<Sum>s\<in>I. of_real (rho s) * e k s) * (\<Sum>r\<in>I. of_real (V r) * cnj (e k r)) * eR k"
      by (simp only:)
    also have "\<dots> = (\<Sum>s\<in>I. \<Sum>r\<in>I. (of_real (rho s) * e k s) * (of_real (V r) * cnj (e k r))) * eR k"
      by (simp only: sum_product)
    also have "\<dots> = (\<Sum>s\<in>I. \<Sum>r\<in>I. (of_real (rho s) * e k s) * (of_real (V r) * cnj (e k r)) * eR k)"
      by (simp only: sum_distrib_right)
    also have "\<dots> = (\<Sum>s\<in>I. \<Sum>r\<in>I. of_real (rho s * V r) * (eR k * e k s * cnj (e k r)))"
      by (intro sum.cong refl) (simp add: mult_ac)
    finally show "cnj (\<Sum>s\<in>I. of_real (rho s) * cnj (e k s)) *
                 (\<Sum>r\<in>I. of_real (V r) * cnj (e k r)) * eR k
        = (\<Sum>s\<in>I. \<Sum>r\<in>I. of_real (rho s * V r) * (eR k * e k s * cnj (e k r)))" .
  qed
  also have "\<dots> = (\<Sum>s\<in>I. \<Sum>k\<in>K. \<Sum>r\<in>I. of_real (rho s * V r) * (eR k * e k s * cnj (e k r)))"
    by (rule sum.swap)
  also have "\<dots> = (\<Sum>s\<in>I. \<Sum>r\<in>I. \<Sum>k\<in>K. of_real (rho s * V r) * (eR k * e k s * cnj (e k r)))"
    by (intro sum.cong refl sum.swap)
  also have "\<dots> = (\<Sum>s\<in>I. \<Sum>r\<in>I. of_real (rho s * V r) * (if r = sh s then M else 0))"
    by (intro sum.cong refl) (simp add: sum_distrib_left[symmetric] orth)
  also have "\<dots> = (\<Sum>s\<in>I. \<Sum>r\<in>I. (if r = sh s then of_real (rho s * V r) * M else 0))"
    by (intro sum.cong refl) simp
  also have "\<dots> = (\<Sum>s\<in>I. of_real (rho s * V (sh s)) * M)"
    by (intro sum.cong refl) (simp add: sum.delta fin sh)
  also have "\<dots> = M * of_real (\<Sum>s\<in>I. rho s * V (sh s))"
    by (simp add: sum_distrib_left mult_ac)
  finally show ?thesis .
qed

lemma add_mod_small:
  fixes a b n :: nat
  assumes "a < n" and "b < n"
  shows "(a + b) mod n = (if a + b < n then a + b else a + b - n)"
proof (cases "a + b < n")
  case True
  then show ?thesis by simp
next
  case False
  then have "(a + b) mod n = (a + b - n) mod n" by (simp add: le_mod_geq)
  also have "\<dots> = a + b - n" using assms by simp
  finally show ?thesis using False by simp
qed

lemma shift_back:
  fixes a R n :: nat
  assumes "a < n" and "R < n"
  shows "((a + R) mod n + n - R) mod n = a" and "((a + n - R) mod n + R) mod n = a"
proof -
  show "((a + R) mod n + n - R) mod n = a"
    using assms by (auto simp: add_mod_small le_mod_geq)
  have "(a + n - R) mod n = (if R \<le> a then a - R else a + n - R)"
    using assms by (auto simp: le_mod_geq)
  then show "((a + n - R) mod n + R) mod n = a"
    using assms by (auto simp: le_mod_geq)
qed

lemma shift_reindex:
  fixes g :: "nat \<Rightarrow> nat \<Rightarrow> 'a::comm_monoid_add"
  assumes "R < n"
  shows "(\<Sum>i<n. g i ((i + R) mod n)) = (\<Sum>i<n. g ((i + n - R) mod n) i)"
proof (rule sum.reindex_bij_witness[where i = "\<lambda>r. (r + n - R) mod n" and j = "\<lambda>s. (s + R) mod n"])
  fix a assume "a \<in> {..<n}"
  then have a: "a < n" by simp
  from shift_back[OF a assms] show "((a + R) mod n + n - R) mod n = a" by simp
  from a show "(a + R) mod n \<in> {..<n}" by simp
  from shift_back[OF a assms] show "g ((((a + R) mod n) + n - R) mod n) ((a + R) mod n) = g a ((a + R) mod n)"
    by simp
next
  fix b assume "b \<in> {..<n}"
  then have b: "b < n" by simp
  from shift_back[OF b assms] show "((b + n - R) mod n + R) mod n = b" by simp
  from b show "(b + n - R) mod n \<in> {..<n}" by simp
qed

lemma sum3:
  fixes g :: "nat \<times> nat \<times> nat \<Rightarrow> 'a::comm_monoid_add"
  shows "(\<Sum>x\<in>{..<n1} \<times> {..<n2} \<times> {..<n3}. g x) = (\<Sum>i<n1. \<Sum>j<n2. \<Sum>k<n3. g (i, j, k))"
  by (simp add: sum.cartesian_product')

lemma prod3:
  fixes f1 f2 f3 :: "nat \<Rightarrow> complex"
  shows "(\<Sum>i<n1. \<Sum>j<n2. \<Sum>k<n3. f1 i * f2 j * f3 k)
           = (\<Sum>i<n1. f1 i) * (\<Sum>j<n2. f2 j) * (\<Sum>k<n3. f3 k)"
proof -
  have "(\<Sum>i<n1. f1 i) * (\<Sum>j<n2. f2 j) * (\<Sum>k<n3. f3 k)
      = (\<Sum>i<n1. f1 i * ((\<Sum>j<n2. f2 j) * (\<Sum>k<n3. f3 k)))"
    by (simp add: sum_distrib_right mult.assoc)
  also have "\<dots> = (\<Sum>i<n1. f1 i * (\<Sum>j<n2. \<Sum>k<n3. f2 j * f3 k))"
    by (simp only: sum_product)
  also have "\<dots> = (\<Sum>i<n1. \<Sum>j<n2. \<Sum>k<n3. f1 i * (f2 j * f3 k))"
    by (simp only: sum_distrib_left)
  finally show ?thesis by (simp add: mult.assoc)
qed

lemma orth3:
  assumes n: "0 < n1" "0 < n2" "0 < n3"
    and r: "i' < n1" "j' < n2" "k' < n3"
  shows "(\<Sum>x\<in>{..<n1} \<times> {..<n2} \<times> {..<n3}.
            wave3 n1 n2 n3 x (R1, R2, R3) * wave3 n1 n2 n3 x (i, j, k) *
            cnj (wave3 n1 n2 n3 x (i', j', k')))
         = (if (i', j', k') = ((i + R1) mod n1, (j + R2) mod n2, (k + R3) mod n3)
            then of_nat (n1 * n2 * n3) else 0)"
proof -
  let ?f1 = "\<lambda>a. omega n1 (int (a * R1)) * omega n1 (int (a * i)) * cnj (omega n1 (int (a * i')))"
  let ?f2 = "\<lambda>b. omega n2 (int (b * R2)) * omega n2 (int (b * j)) * cnj (omega n2 (int (b * j')))"
  let ?f3 = "\<lambda>c. omega n3 (int (c * R3)) * omega n3 (int (c * k)) * cnj (omega n3 (int (c * k')))"
  have "(\<Sum>x\<in>{..<n1} \<times> {..<n2} \<times> {..<n3}.
            wave3 n1 n2 n3 x (R1, R2, R3) * wave3 n1 n2 n3 x (i, j, k) *
            cnj (wave3 n1 n2 n3 x (i', j', k')))
      = (\<Sum>a<n1. \<Sum>b<n2. \<Sum>c<n3. ?f1 a * ?f2 b * ?f3 c)"
    unfolding sum3 by (intro sum.cong refl) (simp add: wave3_def mult_ac)
  also have "\<dots> = (\<Sum>a<n1. ?f1 a) * (\<Sum>b<n2. ?f2 b) * (\<Sum>c<n3. ?f3 c)"
    by (rule prod3)
  also have "\<dots> = (if i' = (i + R1) mod n1 then of_nat n1 else 0) *
                   (if j' = (j + R2) mod n2 then of_nat n2 else 0) *
                   (if k' = (k + R3) mod n3 then of_nat n3 else 0)"
    by (simp only: orth1[OF n(1) r(1)] orth1[OF n(2) r(2)] orth1[OF n(3) r(3)])
  finally show ?thesis by simp
qed

lemma corr3:
  fixes rho V :: "nat \<Rightarrow> nat \<Rightarrow> nat \<Rightarrow> real"
  assumes R: "R1 < n1" "R2 < n2" "R3 < n3"
  shows "idft3 n1 n2 n3
           (\<lambda>a b c. cnj (dft3 n1 n2 n3 (\<lambda>i j k. of_real (rho i j k)) a b c) *
                     dft3 n1 n2 n3 (\<lambda>i j k. of_real (V i j k)) a b c) R1 R2 R3
         = of_real (\<Sum>i<n1. \<Sum>j<n2. \<Sum>k<n3.
                      rho i j k * V ((i + R1) mod n1) ((j + R2) mod n2) ((k + R3) mod n3))"
proof -
  let ?I = "{..<n1} \<times> {..<n2} \<times> {..<n3}"
  let ?e = "wave3 n1 n2 n3"
  let ?rho = "\<lambda>(i, j, k). rho i j k" and ?V = "\<lambda>(i, j, k). V i j k"
  let ?sh = "\<lambda>(i, j, k). ((i + R1) mod n1, (j + R2) mod n2, (k + R3) mod n3)"
  let ?M = "of_nat (n1 * n2 * n3) :: complex"
  from R have n: "0 < n1" "0 < n2" "0 < n3" by auto
  have d: "dft3 n1 n2 n3 (\<lambda>i j k. of_real (f i j k)) a b c
        = (\<Sum>s\<in>?I. of_real ((\<lambda>(i, j, k). f i j k) s) * cnj (?e (a, b, c) s))"
    for f :: "nat \<Rightarrow> nat \<Rightarrow> nat \<Rightarrow> real" and a b c
    unfolding sum3 dft3_def by (simp add: wave3_def omega_cnj)
  have "(\<Sum>a<n1. \<Sum>b<n2. \<Sum>c<n3.
          (cnj (dft3 n1 n2 n3 (\<lambda>i j k. of_real (rho i j k)) a b c) *
           dft3 n1 n2 n3 (\<lambda>i j k. of_real (V i j k)) a b c) *
          (omega n1 (int (a * R1)) * omega n2 (int (b * R2)) * omega n3 (int (c * R3))))
      = (\<Sum>x\<in>?I. cnj (\<Sum>s\<in>?I. of_real (?rho s) * cnj (?e x s)) *
                    (\<Sum>r\<in>?I. of_real (?V r) * cnj (?e x r)) * ?e x (R1, R2, R3))"
    unfolding sum3[of "\<lambda>x. cnj (\<Sum>s\<in>?I. of_real (?rho s) * cnj (?e x s)) *
                    (\<Sum>r\<in>?I. of_real (?V r) * cnj (?e x r)) * ?e x (R1, R2, R3)"] d
    by (intro sum.cong refl) (simp add: wave3_def)
  also have "\<dots> = ?M * of_real (\<Sum>s\<in>?I. ?rho s * ?V (?sh s))"
  proof (rule correlation_sum)
    show "finite ?I" by simp
    show "finite ?I" by simp
    fix s r assume s: "s \<in> ?I" and r: "r \<in> ?I"
    obtain i j k where s': "s = (i, j, k)" by (cases s) auto
    obtain i' j' k' where r': "r = (i', j', k')" by (cases r) auto
    from r r' have rr: "i' < n1" "j' < n2" "k' < n3" by auto
    from orth3[OF n rr, of R1 R2 R3 i j k]
    show "(\<Sum>k\<in>?I. ?e k (R1, R2, R3) * ?e k s * cnj (?e k r)) = (if r = ?sh s then ?M else 0)"
      unfolding s' r' by simp
  next
    fix s assume "s \<in> ?I"
    with n show "?sh s \<in> ?I" by (cases s) auto
  qed
  also have "(\<Sum>s\<in>?I. ?rho s * ?V (?sh s))
      = (\<Sum>i<n1. \<Sum>j<n2. \<Sum>k<n3.
           rho i j k * V ((i + R1) mod n1) ((j + R2) mod n2) ((k + R3) mod n3))"
    unfolding sum3 by simp
  finally show ?thesis
    using n by (simp add: idft3_def)
qed

lemma corr3_shifted:
  fixes rho V :: "nat \<Rightarrow> nat \<Rightarrow> nat \<Rightarrow> real"
  assumes R: "R1 < n1" "R2 < n2" "R3 < n3"
  shows "(\<Sum>i<n1. \<Sum>j<n2. \<Sum>k<n3.
            rho i j k * V ((i + R1) mod n1) ((j + R2) mod n2) ((k + R3) mod n3))
       = (\<Sum>i<n1. \<Sum>j<n2. \<Sum>k<n3.
            rho ((i + n1 - R1) mod n1) ((j + n2 - R2) mod n2) ((k + n3 - R3) mod n3) * V i j k)"
proof -
  have "(\<Sum>i<n1. \<Sum>j<n2. \<Sum>k<n3.
            rho i j k * V ((i + R1) mod n1) ((j + R2) mod n2) ((k + R3) mod n3))
      = (\<Sum>i<n1. \<Sum>j<n2. \<Sum>k<n3.
            rho ((i + n1 - R1) mod n1) j k * V i ((j + R2) mod n2) ((k + R3) mod n3))"
    by (rule shift_reindex[OF R(1),
          of "\<lambda>i i'. \<Sum>j<n2. \<Sum>k<n3. rho i j k * V i' ((j + R2) mod n2) ((k + R3) mod n3)"])
  also have "\<dots> = (\<Sum>i<n1. \<Sum>j<n2. \<Sum>k<n3.
            rho ((i + n1 - R1) mod n1) ((j + n2 - R2) mod n2) k * V i j ((k + R3) mod n3))"
  proof (rule sum.cong[OF refl])
    fix i
    show "(\<Sum>j<n2. \<Sum>k<n3. rho ((i + n1 - R1) mod n1) j k * V i ((j + R2) mod n2) ((k + R3) mod n3))
        = (\<Sum>j<n2. \<Sum>k<n3. rho ((i + n1 - R1) mod n1) ((j + n2 - R2) mod n2) k * V i j ((k + R3) mod n3))"
      by (rule shift_reindex[OF R(2),
            of "\<lambda>j j'. \<Sum>k<n3. rho ((i + n1 - R1) mod n1) j k * V i j' ((k + R3) mod n3)"])
  qed
  also have "\<dots> = (\<Sum>i<n1. \<Sum>j<n2. \<Sum>k<n3.
            rho ((i + n1 - R1) mod n1) ((j + n2 - R2) mod n2) ((k + n3 - R3) mod n3) * V i j k)"
  proof (rule sum.cong[OF refl], rule sum.cong[OF refl])
    fix i j
    show "(\<Sum>k<n3. rho ((i + n1 - R1) mod n1) ((j + n2 - R2) mod n2) k * V i j ((k + R3) mod n3))
        = (\<Sum>k<n3. rho ((i + n1 - R1) mod n1) ((j + n2 - R2) mod n2) ((k + n3 - R3) mod n3) * V i j k)"
      by (rule shift_reindex[OF R(3),
            of "\<lambda>k k'. rho ((i + n1 - R1) mod n1) ((j + n2 - R2) mod n2) k * V i j k'"])
  qed
  finally show ?thesis .
qed

section \<open>The claims\<close>

lemmas run_defs = main_def thenR_def ret_def raise_def lift_def ext_def call_def new_array_def
  get_array_def set_array_def copy_def core_precheck_def bSubstractCore_def load_xsf_def
  load_cube_def load_sample_geometry_def load_potential_def select_tip_def load_tip_density_def
  kernel_of_def run_computeElFF_def arr_sub_def none_minus_def kpfm_load_sample_def
  kpfm_tip_model_def
  kpfm_load_tip_def copy_tip_def kpfm_convolve_def norm_slice_def kpfm_save_def kpfm_branch_def
  main_convolution_def start_def endswith_def lower_def lower_char_def np_imul_def np_neg_def
  np_sub_def bcast_def fit_def linspace_def slice_ok_def div_slice_def

lemmas ex_defs = ex_args_def ex_env_def ex_conv_def ex_conv_short_def const_grid_def ex_lvec_def

lemmas run_defs2 = run_defs normalise.simps upt_rec

text \<open>
  C4 (the code departs from the claim). The claim: a run that asks for core subtraction
  (density overlap, \<open>Rcore > 0\<close>) without a tip density fails with
  \<open>InvalidDensityRequest\<close>, before any density file is loaded. The code: the test of
  line 51 already requires a tip density, so the \<^verbatim>\<open>raise\<close> of line 53 is never reached;
  for every such command line the check of lines 51 to 55 passes without an error and
  without reading anything, and core subtraction is silently left out.
\<close>

theorem core_check_passes_without_tip_density:
  assumes "doDensity A" and "Rcore A > 0" and "tip_dens A = None"
  shows "core_precheck A E w = (Inr None, w)"
  using assms by (simp add: core_precheck_def bSubstractCore_def ret_def)

theorem core_check_passes_without_tip_density_witness:
  "doDensity ex_args_core \<and> Rcore ex_args_core > 0 \<and> tip_dens ex_args_core = None \<and>
   core_precheck ex_args_core ex_env start = (Inr None, start)"
proof -
  have h: "doDensity ex_args_core" "Rcore ex_args_core > 0" "tip_dens ex_args_core = None"
    by (simp_all add: ex_args_core_def ex_args_def)
  from core_check_passes_without_tip_density [OF h, of ex_env start] h show ?thesis
    by simp
qed

text \<open>The whole run at that input: it succeeds, with one correlation and the field written.\<close>

lemma run_without_tip_density_succeeds:
  "fst (main ex_args_core ex_env start) = Inr () \<and>
   outline (trace (snd (main ex_args_core ex_env start))) = [''computeElFF'', ''FFel'']"
  by (simp add: run_defs ex_defs ex_args_core_def)

text \<open>
  C2 (the code departs from the claim). The claim: every Hartree potential loaded from a
  file is multiplied by \<open>-1\<close> before any correlation uses it, and the KPFM branch works
  on the negated potential. The code: line 69 negates the input potential only. The
  potential under bias, read by line 100 or 106, is never negated: line 108 subtracts
  the negated input potential from it as loaded, so that in every run with
  \<^verbatim>\<open>--KPFM_sample\<close> a grid file the first correlation (line 140) is given
  \<open>V_kpfm + V\<close>, the sum of the two loaded arrays.
\<close>

theorem bias_potential_enters_unnegated:
  assumes "KPFM_sample A = Some ks"
    and "endswith (lower ks) ''.xsf'' \<or> endswith (lower ks) ''.cube''"
    and "convs (trace (snd (main A E start))) \<noteq> []"
  shows "\<exists>d0 lv0 nd0 h0 dk lvk ndk hk.
     read_grid E (input A) = Some (d0, lv0, nd0, h0) \<and>
     read_grid E ks = Some (dk, lvk, ndk, hk) \<and>
     np_sub dk (np_imul d0 (- 1)) = Inr (cV (hd (convs (trace (snd (main A E start)))))) \<and>
     (\<forall>idx. el (cV (hd (convs (trace (snd (main A E start)))))) idx
              = el dk (fit (shp dk) idx) + el d0 (fit (shp d0) idx))"
proof -
  from first_conv_kpfm[OF assms(1,3)] obtain d0 lv nd h Vs dV lvk ndk hk K where
    rg: "read_grid E (input A) = Some (d0, lv, nd, h)"
    and smp: "kpfm_sample A E ks (np_imul d0 (- 1)) lv nd h = Some (Vs, dV, lvk, ndk, hk)"
    and c: "hd (convs (trace (snd (main A E start)))) =
       \<lparr>cV = dV, cLvec = lvk, cDim = ndk, cK = K, cVpot = energy A, cTilt = tilt A,
        cSigma = None\<rparr>"
    by blast
  from smp assms(2) obtain dk where
    rk: "read_grid E ks = Some (dk, lvk, ndk, hk)" and sub: "np_sub dk (np_imul d0 (- 1)) = Inr dV"
    by (auto simp: kpfm_sample_def split: option.splits sum.splits)
  from c have cV: "cV (hd (convs (trace (snd (main A E start))))) = dV" by simp
  from np_sub_negated[OF sub] have "\<forall>idx. el dV idx = el dk (fit (shp dk) idx) + el d0 (fit (shp d0) idx)"
    by simp
  with rg rk sub cV show ?thesis by blast
qed

theorem bias_potential_enters_unnegated_witness:
  "KPFM_sample ex_args_kpfm = Some ''Vb.xsf'' \<and>
   (endswith (lower ''Vb.xsf'') ''.xsf'' \<or> endswith (lower ''Vb.xsf'') ''.cube'') \<and>
   convs (trace (snd (main ex_args_kpfm ex_env start))) \<noteq> [] \<and>
   (\<exists>d0 lv0 nd0 h0 dk lvk ndk hk.
     read_grid ex_env (input ex_args_kpfm) = Some (d0, lv0, nd0, h0) \<and>
     read_grid ex_env ''Vb.xsf'' = Some (dk, lvk, ndk, hk) \<and>
     np_sub dk (np_imul d0 (- 1))
       = Inr (cV (hd (convs (trace (snd (main ex_args_kpfm ex_env start)))))) \<and>
     (\<forall>idx. el (cV (hd (convs (trace (snd (main ex_args_kpfm ex_env start)))))) idx
              = el dk (fit (shp dk) idx) + el d0 (fit (shp d0) idx))) \<and>
   el (const_grid 5) [0, 0, 0] = 5 \<and> el (const_grid 3) [0, 0, 0] = 3 \<and>
   el (cV (hd (convs (trace (snd (main ex_args_kpfm ex_env start)))))) [0, 0, 0] = 8"
proof -
  have a: "KPFM_sample ex_args_kpfm = Some ''Vb.xsf''"
    by (simp add: ex_args_kpfm_def ex_args_def)
  have b: "endswith (lower ''Vb.xsf'') ''.xsf'' \<or> endswith (lower ''Vb.xsf'') ''.cube''"
    by (simp add: endswith_def lower_def lower_char_def)
  have c: "convs (trace (snd (main ex_args_kpfm ex_env start))) \<noteq> []"
    by (simp add: run_defs2 ex_defs ex_args_kpfm_def)
  have d: "el (cV (hd (convs (trace (snd (main ex_args_kpfm ex_env start)))))) [0, 0, 0] = 8"
    by (simp add: run_defs2 ex_defs ex_args_kpfm_def)
  have e: "el (const_grid 5) [0, 0, 0] = 5 \<and> el (const_grid 3) [0, 0, 0] = 3"
    by (simp add: const_grid_def)
  from bias_potential_enters_unnegated [OF a b c] a b c d e show ?thesis by blast
qed



text \<open>
  C7 (amended). The claim: when an error occurs after the kernel construction, no output
  file has been written, all files being written only after every large computation has
  succeeded. The code writes each field right after the correlation that computes it: the
  two KPFM maps (lines 150 and 151) before the main correlation (line 154). What holds:
  the correlations and written fields of every run follow one fixed order, the two KPFM
  correlations, \<^verbatim>\<open>FFkpfm_t0sV\<close>, \<^verbatim>\<open>FFkpfm_tVs0\<close> (these four with \<^verbatim>\<open>--KPFM_sample\<close> only),
  the main correlation, \<^verbatim>\<open>FFel\<close>, and \<^verbatim>\<open>Eel\<close> (with \<^verbatim>\<open>--energy\<close> only); a run that fails has
  done an initial part of that sequence, and a run that succeeds all of it.
\<close>

theorem outputs_follow_fixed_order:
  "prefix (outline (trace (snd (main A E start)))) (full_outline A) \<and>
   (fst (main A E start) = Inr () \<longrightarrow>
      outline (trace (snd (main A E start))) = full_outline A)"
proof -
  obtain r w' where run: "main A E start = (r, w')" by (cases "main A E start")
  from main_outline(1)[OF run] main_plan_outline[of A E]
  have "prefix (outline (trace w')) (full_outline A)" by (rule prefix_order.trans)
  moreover have "r = Inr () \<longrightarrow> outline (trace w') = full_outline A"
    using main_outline(2)[OF run] by blast
  ultimately show ?thesis using run by simp
qed

theorem outputs_follow_fixed_order_witness:
  "fst (main ex_args_kpfm ex_env start) = Inr () \<and>
   outline (trace (snd (main ex_args_kpfm ex_env start))) = full_outline ex_args_kpfm \<and>
   full_outline ex_args_kpfm =
     [''computeElFF'', ''computeElFF'', ''FFkpfm_t0sV'', ''FFkpfm_tVs0'', ''computeElFF'', ''FFel'']"
proof -
  have a: "fst (main ex_args_kpfm ex_env start) = Inr ()"
    by (simp add: run_defs2 ex_defs ex_args_kpfm_def)
  have b: "full_outline ex_args_kpfm =
     [''computeElFF'', ''computeElFF'', ''FFkpfm_t0sV'', ''FFkpfm_tVs0'', ''computeElFF'', ''FFel'']"
    by (simp add: full_outline_def ex_args_kpfm_def ex_args_def)
  from outputs_follow_fixed_order [of ex_args_kpfm ex_env] a b show ?thesis by simp
qed

text \<open>
  The claim as stated fails: the main correlation of this run fails for lack of memory,
  after the two KPFM maps have been written.
\<close>

theorem kpfm_maps_written_before_main_correlation:
  "fst (main ex_args_kpfm ex_env_short start) = Inl (External ''MemoryError'') \<and>
   outline (trace (snd (main ex_args_kpfm ex_env_short start))) =
     [''computeElFF'', ''computeElFF'', ''FFkpfm_t0sV'', ''FFkpfm_tVs0'', ''computeElFF'']"
  by (simp add: run_defs2 ex_defs ex_args_kpfm_def ex_env_short_def)

text \<open>
  C6 (amended). The claim: a run of the KPFM branch without the reference voltage fails
  with a \<open>MissingReferenceVoltage\<close> error and a descriptive message. The script has no such
  check: \<^verbatim>\<open>args.Vref\<close> is \<^verbatim>\<open>None\<close> and is first used in the loop of lines 145 to 147,
  after both KPFM correlations. What holds for every run with \<^verbatim>\<open>--KPFM_sample\<close> and
  without \<^verbatim>\<open>--Vref\<close>: no error of the run is a \<open>MissingReferenceVoltage\<close>; the run neither
  completes nor writes any field, unless the grid of the KPFM branch has no slice (the
  loop then has no pass); and a pass of the loop on an existing slice raises the
  \<^verbatim>\<open>TypeError\<close> of \<^verbatim>\<open>None * float\<close>, leaving the arrays as they are.
\<close>

theorem missing_Vref_stops_normalisation:
  assumes "KPFM_sample A = Some ks" and "Vref A = None"
  shows "(\<forall>e. fst (main A E start) = Inl e \<longrightarrow> classify e \<noteq> Some MissingReferenceVoltage) \<and>
     ((fst (main A E start) = Inr () \<or> saved nm (trace (snd (main A E start))) \<noteq> None) \<longrightarrow>
        (\<exists>d0 lv0 nd0 h0 Vs dV lv nd h.
           read_grid E (input A) = Some (d0, lv0, nd0, h0) \<and>
           kpfm_sample A E ks (np_imul d0 (- 1)) lv0 nd0 h0 = Some (Vs, dV, lv, nd, h) \<and>
           fst nd = 0)) \<and>
     (\<forall>F1 F2 Vt zpos i rest w. slice_ok (cells w F1) i \<longrightarrow>
        normalise F1 F2 (Some (Vref A)) Vt zpos (i # rest) w =
          (Inl (TypeError ''unsupported operand type(s) for *: NoneType and float''), w))"
proof (intro conjI allI impI)
  fix e assume "fst (main A E start) = Inl e"
  show "classify e \<noteq> Some MissingReferenceVoltage"
    by (cases e) auto
next
  assume "fst (main A E start) = Inr () \<or> saved nm (trace (snd (main A E start))) \<noteq> None"
  from kpfm_output_needs_Vref[OF assms(1) this] obtain d0 lv0 nd0 h0 Vs dV lv nd h where
    f: "read_grid E (input A) = Some (d0, lv0, nd0, h0)"
       "kpfm_sample A E ks (np_imul d0 (- 1)) lv0 nd0 h0 = Some (Vs, dV, lv, nd, h)"
       "fst nd = 0 \<or> (\<exists>v1. Vs = Some (Some v1))"
    by blast
  from kpfm_sample_cases[OF f(2)] assms(2) f(3) have "fst nd = 0" by auto
  with f show "\<exists>d0 lv0 nd0 h0 Vs dV lv nd h.
           read_grid E (input A) = Some (d0, lv0, nd0, h0) \<and>
           kpfm_sample A E ks (np_imul d0 (- 1)) lv0 nd0 h0 = Some (Vs, dV, lv, nd, h) \<and>
           fst nd = 0"
    by blast
next
  fix F1 F2 :: addr and Vt :: "real option option" and zpos :: "real list" and i :: nat
    and rest :: "nat list" and w :: world
  assume "slice_ok (cells w F1) i"
  from normalise_no_Vref[OF this] assms(2)
  show "normalise F1 F2 (Some (Vref A)) Vt zpos (i # rest) w =
          (Inl (TypeError ''unsupported operand type(s) for *: NoneType and float''), w)"
    by simp
qed

theorem missing_Vref_stops_normalisation_witness:
  "KPFM_sample ex_args_kpfm_noVref = Some ''Vb.xsf'' \<and> Vref ex_args_kpfm_noVref = None \<and>
   fst (main ex_args_kpfm_noVref ex_env start)
     = Inl (TypeError ''unsupported operand type(s) for *: NoneType and float'') \<and>
   classify (TypeError ''unsupported operand type(s) for *: NoneType and float'')
     \<noteq> Some MissingReferenceVoltage"
proof -
  have a: "KPFM_sample ex_args_kpfm_noVref = Some ''Vb.xsf''"
    and b: "Vref ex_args_kpfm_noVref = None"
    by (simp_all add: ex_args_kpfm_noVref_def ex_args_def)
  have c: "fst (main ex_args_kpfm_noVref ex_env start)
     = Inl (TypeError ''unsupported operand type(s) for *: NoneType and float'')"
    by (simp add: run_defs2 ex_defs ex_args_kpfm_noVref_def)
  from missing_Vref_stops_normalisation [OF a b, of ex_env] a b c show ?thesis by blast
qed

text \<open>
  The claim as stated fails: this run without \<^verbatim>\<open>--Vref\<close> computes both KPFM correlations
  and then stops with a \<^verbatim>\<open>TypeError\<close>, which is no \<open>MissingReferenceVoltage\<close> error.
\<close>

theorem missing_Vref_raises_TypeError:
  "KPFM_sample ex_args_kpfm_noVref = Some ''Vb.xsf'' \<and> Vref ex_args_kpfm_noVref = None \<and>
   fst (main ex_args_kpfm_noVref ex_env start)
     = Inl (TypeError ''unsupported operand type(s) for *: NoneType and float'') \<and>
   classify (TypeError ''unsupported operand type(s) for *: NoneType and float'') = None \<and>
   outline (trace (snd (main ex_args_kpfm_noVref ex_env start)))
     = [''computeElFF'', ''computeElFF'']"
  by (simp add: run_defs2 ex_defs ex_args_kpfm_noVref_def)

text \<open>
  C3 (amended). The claim: every slice \<open>i\<close> of each of the two raw KPFM correlation outputs
  is divided by \<open>Vref * (z\<^sub>i - z0 + 0.1)\<close>. The code divides the first map by
  \<^verbatim>\<open>Vref_s\<close>, which is \<^verbatim>\<open>--Vref\<close>, but the second by \<^verbatim>\<open>Vref_t\<close>, which is \<^verbatim>\<open>--Vref\<close> only when
  the tip under bias is read from a file, and the constant \<open>-0.1\<close> for the analytic tip
  models (the default). What holds for each written KPFM map \<open>d\<close>: it comes from a
  correlation \<open>c\<close> of the run with output \<open>out\<close> (the one without \<open>sigma\<close> for
  \<^verbatim>\<open>FFkpfm_t0sV\<close>, the one with \<open>sigma\<close> for \<^verbatim>\<open>FFkpfm_tVs0\<close>); every slice \<open>i\<close> below
  \<^verbatim>\<open>nDim[0]\<close> is the raw slice divided by \<open>v * (z\<^sub>i - z0 + 0.1)\<close>, where the divisor is not
  zero, and nothing else is changed; \<open>v\<close> is \<^verbatim>\<open>--Vref\<close> for \<^verbatim>\<open>FFkpfm_t0sV\<close> and for a tip
  under bias from a file, and \<open>-0.1\<close> otherwise; \<open>z\<^sub>i\<close> is the \<open>i\<close>-th of \<^verbatim>\<open>nDim[0]\<close> equally
  spaced heights from \<^verbatim>\<open>lvec[0,2]\<close> to \<^verbatim>\<open>lvec[3,2]\<close> (\<open>slice_height\<close>).
\<close>

theorem kpfm_maps_divided_per_slice:
  assumes sv: "saved nm (trace (snd (main A E start))) = Some d"
    and nm: "nm = ''FFkpfm_t0sV'' \<or> nm = ''FFkpfm_tVs0''"
  shows "\<exists>c out v.
     c \<in> set (convs (trace (snd (main A E start)))) \<and> conv_result E c = Inr out \<and>
     (cSigma c = None \<longleftrightarrow> nm = ''FFkpfm_t0sV'') \<and> shp d = shp (FF out) \<and>
     (fst (cDim c) = 0 \<or>
      (if nm = ''FFkpfm_t0sV'' \<or> tip_from_file A then Vref A = Some v else v = - 0.1)) \<and>
     (\<forall>i idx. i < fst (cDim c) \<longrightarrow>
        v * (slice_height (cLvec c) (cDim c) i - z0 A + 0.1) \<noteq> 0 \<longrightarrow>
        el d (i # idx)
          = el (FF out) (i # idx) / (v * (slice_height (cLvec c) (cDim c) i - z0 A + 0.1))) \<and>
     (\<forall>i idx. \<not> i < fst (cDim c) \<longrightarrow> el d (i # idx) = el (FF out) (i # idx))"
proof -
  from kpfm_saved_run[OF sv nm]
  obtain S rho0 ks d0 lv0 nd0 h0 Vs dV lv nd h K Vt k2 sg out1 out2 v1 v2 where
    smp: "kpfm_sample A E ks (np_imul d0 (- 1)) lv0 nd0 h0 = Some (Vs, dV, lv, nd, h)"
    and tp: "kpfm_tip_plan A E S rho0 = Some (Vt, Some k2, sg)"
    and c1: "\<lparr>cV = dV, cLvec = lv, cDim = nd, cK = K, cVpot = energy A, cTilt = tilt A,
              cSigma = None\<rparr> \<in> set (convs (trace (snd (main A E start))))"
    and c2: "\<lparr>cV = np_imul d0 (- 1), cLvec = lv, cDim = nd, cK = k2, cVpot = energy A,
              cTilt = tilt A, cSigma = Some sg\<rparr> \<in> set (convs (trace (snd (main A E start))))"
    and o1: "computeElFF E dV lv nd K (energy A) (tilt A) None = Inr out1"
    and o2: "computeElFF E (np_imul d0 (- 1)) lv nd k2 (energy A) (tilt A) (Some sg) = Inr out2"
    and v: "fst nd = 0 \<or> (Vs = Some (Some v1) \<and> Vt = Some (Some v2))"
    and d: "(nm = ''FFkpfm_t0sV'' \<and>
       d = normalised (FF out1) v1 (linspace (lv 0 2 - z0 A) (lv 3 2 - z0 A) (fst nd)) (fst nd)) \<or>
      (nm = ''FFkpfm_tVs0'' \<and>
       d = normalised (FF out2) v2 (linspace (lv 0 2 - z0 A) (lv 3 2 - z0 A) (fst nd)) (fst nd))"
    by blast
  let ?zpos = "linspace (lv 0 2 - z0 A) (lv 3 2 - z0 A) (fst nd)"
  from d show ?thesis
  proof (elim disjE conjE)
    assume n: "nm = ''FFkpfm_t0sV''" and dd: "d = normalised (FF out1) v1 ?zpos (fst nd)"
    let ?c = "\<lparr>cV = dV, cLvec = lv, cDim = nd, cK = K, cVpot = energy A, cTilt = tilt A,
               cSigma = None\<rparr>"
    have r: "conv_result E ?c = Inr out1" using o1 by (simp add: conv_result_def)
    have vv: "fst (cDim ?c) = 0 \<or>
        (if nm = ''FFkpfm_t0sV'' \<or> tip_from_file A then Vref A = Some v1 else v1 = - 0.1)"
      using v n kpfm_sample_cases[OF smp] by auto
    have e1: "\<forall>i idx. i < fst (cDim ?c) \<longrightarrow>
        v1 * (slice_height (cLvec ?c) (cDim ?c) i - z0 A + 0.1) \<noteq> 0 \<longrightarrow>
        el d (i # idx)
          = el (FF out1) (i # idx) / (v1 * (slice_height (cLvec ?c) (cDim ?c) i - z0 A + 0.1))"
      using dd by (simp add: normalised_el)
    have e2: "\<forall>i idx. \<not> i < fst (cDim ?c) \<longrightarrow> el d (i # idx) = el (FF out1) (i # idx)"
      using dd by (simp add: normalised_rest)
    have sh: "shp d = shp (FF out1)" using dd by (simp add: normalised_shp)
    have sg0: "cSigma ?c = None \<longleftrightarrow> nm = ''FFkpfm_t0sV''" using n by simp
    from c1 r sg0 sh vv e1 e2 show ?thesis
      by (intro exI[of _ ?c] exI[of _ out1] exI[of _ v1] conjI)
  next
    assume n: "nm = ''FFkpfm_tVs0''" and dd: "d = normalised (FF out2) v2 ?zpos (fst nd)"
    let ?c = "\<lparr>cV = np_imul d0 (- 1), cLvec = lv, cDim = nd, cK = k2, cVpot = energy A,
               cTilt = tilt A, cSigma = Some sg\<rparr>"
    have r: "conv_result E ?c = Inr out2" using o2 by (simp add: conv_result_def)
    have vv: "fst (cDim ?c) = 0 \<or>
        (if nm = ''FFkpfm_t0sV'' \<or> tip_from_file A then Vref A = Some v2 else v2 = - 0.1)"
    proof (cases "fst nd = 0")
      case True
      then show ?thesis by simp
    next
      case False
      with v have "Vt = Some (Some v2)" by simp
      from kpfm_tip_plan_Vt[OF tp[unfolded this]] n show ?thesis by auto
    qed
    have e1: "\<forall>i idx. i < fst (cDim ?c) \<longrightarrow>
        v2 * (slice_height (cLvec ?c) (cDim ?c) i - z0 A + 0.1) \<noteq> 0 \<longrightarrow>
        el d (i # idx)
          = el (FF out2) (i # idx) / (v2 * (slice_height (cLvec ?c) (cDim ?c) i - z0 A + 0.1))"
      using dd by (simp add: normalised_el)
    have e2: "\<forall>i idx. \<not> i < fst (cDim ?c) \<longrightarrow> el d (i # idx) = el (FF out2) (i # idx)"
      using dd by (simp add: normalised_rest)
    have sh: "shp d = shp (FF out2)" using dd by (simp add: normalised_shp)
    have sg0: "cSigma ?c = None \<longleftrightarrow> nm = ''FFkpfm_t0sV''" using n by simp
    from c2 r sg0 sh vv e1 e2 show ?thesis
      by (intro exI[of _ ?c] exI[of _ out2] exI[of _ v2] conjI)
  qed
qed

theorem kpfm_maps_divided_per_slice_witness:
  "saved ''FFkpfm_tVs0'' (trace (snd (main ex_args_kpfm ex_env start)))
     = Some (the (saved ''FFkpfm_tVs0'' (trace (snd (main ex_args_kpfm ex_env start))))) \<and>
   (''FFkpfm_tVs0'' = ''FFkpfm_t0sV'' \<or> ''FFkpfm_tVs0'' = ''FFkpfm_tVs0'') \<and>
   (\<exists>c out v.
     c \<in> set (convs (trace (snd (main ex_args_kpfm ex_env start)))) \<and>
     conv_result ex_env c = Inr out \<and>
     (cSigma c = None \<longleftrightarrow> ''FFkpfm_tVs0'' = ''FFkpfm_t0sV'') \<and>
     shp (the (saved ''FFkpfm_tVs0'' (trace (snd (main ex_args_kpfm ex_env start))))) = shp (FF out) \<and>
     (fst (cDim c) = 0 \<or>
      (if ''FFkpfm_tVs0'' = ''FFkpfm_t0sV'' \<or> tip_from_file ex_args_kpfm
       then Vref ex_args_kpfm = Some v else v = - 0.1)) \<and>
     (\<forall>i idx. i < fst (cDim c) \<longrightarrow>
        v * (slice_height (cLvec c) (cDim c) i - z0 ex_args_kpfm + 0.1) \<noteq> 0 \<longrightarrow>
        el (the (saved ''FFkpfm_tVs0'' (trace (snd (main ex_args_kpfm ex_env start))))) (i # idx)
          = el (FF out) (i # idx)
              / (v * (slice_height (cLvec c) (cDim c) i - z0 ex_args_kpfm + 0.1))) \<and>
     (\<forall>i idx. \<not> i < fst (cDim c) \<longrightarrow>
        el (the (saved ''FFkpfm_tVs0'' (trace (snd (main ex_args_kpfm ex_env start))))) (i # idx) = el (FF out) (i # idx))) \<and>
   el (the (saved ''FFkpfm_tVs0'' (trace (snd (main ex_args_kpfm ex_env start))))) [0, 0, 0, 0] = 300"
proof -
  have "saved ''FFkpfm_tVs0'' (trace (snd (main ex_args_kpfm ex_env start))) \<noteq> None"
    by (simp add: run_defs2 ex_defs ex_args_kpfm_def)
  then have a: "saved ''FFkpfm_tVs0'' (trace (snd (main ex_args_kpfm ex_env start)))
     = Some (the (saved ''FFkpfm_tVs0'' (trace (snd (main ex_args_kpfm ex_env start)))))"
    by simp
  have b: "''FFkpfm_tVs0'' = ''FFkpfm_t0sV'' \<or> ''FFkpfm_tVs0'' = ''FFkpfm_tVs0''" by simp
  have c: "el (the (saved ''FFkpfm_tVs0'' (trace (snd (main ex_args_kpfm ex_env start))))) [0, 0, 0, 0] = 300"
    by (simp add: run_defs2 ex_defs ex_args_kpfm_def)
  from kpfm_maps_divided_per_slice [OF a b] a b c show ?thesis by blast
qed

text \<open>
  The claim as stated fails: with \<^verbatim>\<open>--Vref 1\<close>, \<open>z0 = 0\<close> and the default tip model, the
  second map at slice \<open>0\<close> (height \<open>0\<close>) is the raw value \<open>-3\<close> divided by \<open>-0.1 * 0.1\<close>,
  not by \<open>1 * 0.1\<close>.
\<close>

theorem tip_map_not_divided_by_Vref:
  "Vref ex_args_kpfm = Some 1 \<and> z0 ex_args_kpfm = 0 \<and>
   cSigma (convs (trace (snd (main ex_args_kpfm ex_env start))) ! 1) = Some 0.48 \<and>
   slice_height (cLvec (convs (trace (snd (main ex_args_kpfm ex_env start))) ! 1))
     (cDim (convs (trace (snd (main ex_args_kpfm ex_env start))) ! 1)) 0 = 0 \<and>
   el (FF (projr (conv_result ex_env (convs (trace (snd (main ex_args_kpfm ex_env start))) ! 1))))
     [0, 0, 0, 0] = - 3 \<and>
   el (the (saved ''FFkpfm_tVs0'' (trace (snd (main ex_args_kpfm ex_env start))))) [0, 0, 0, 0] = 300 \<and>
   (300 :: real) \<noteq> - 3 / (1 * (0 - 0 + 0.1))"
  by (simp add: run_defs2 ex_defs ex_args_kpfm_def conv_result_def slice_height_def)

text \<open>
  C9. In a KPFM run with an analytic tip model (\<^verbatim>\<open>--KPFM_tip\<close> one of \<^verbatim>\<open>Fit\<close>, \<^verbatim>\<open>fit\<close>,
  \<^verbatim>\<open>dipole\<close>, \<^verbatim>\<open>pz\<close>), the written map \<^verbatim>\<open>FFkpfm_tVs0\<close> comes from a correlation whose
  kernel (the slope of the \<^verbatim>\<open>pz\<close> multipole) and \<open>sigma\<close> are those of the table of lines
  123 to 134 for the probe type, and every slice of it is the raw slice divided by
  \<open>-0.1 * (z\<^sub>i - z0 + 0.1)\<close>, where that is not zero: the reference voltage is the
  constant \<open>-0.1\<close>, whatever \<^verbatim>\<open>--Vref\<close> is.
\<close>

theorem analytic_tip_fixed_reference:
  assumes tok: "KPFM_tip A \<in> {''Fit'', ''fit'', ''dipole'', ''pz''}"
    and sv: "saved ''FFkpfm_tVs0'' (trace (snd (main A E start))) = Some d"
  shows "\<exists>S c out.
     load_settings E = Inr S \<and>
     c \<in> set (convs (trace (snd (main A E start)))) \<and> conv_result E c = Inr out \<and>
     (params_probeType S, cK c, cSigma c) \<in>
        {(''8'', KSym (TipDict [(''pz'', - 0.045)]), Some 0.48),
         (''47'', KSym (TipDict [(''pz'', - 0.21875)]), Some 0.7),
         (''54'', KSym (TipDict [(''pz'', - 0.250)]), Some 0.67)} \<and>
     shp d = shp (FF out) \<and>
     (\<forall>i idx. i < fst (cDim c) \<longrightarrow>
        slice_height (cLvec c) (cDim c) i - z0 A + 0.1 \<noteq> 0 \<longrightarrow>
        el d (i # idx)
          = el (FF out) (i # idx) / (- 0.1 * (slice_height (cLvec c) (cDim c) i - z0 A + 0.1)))"
proof -
  have nm: "''FFkpfm_tVs0'' = ''FFkpfm_t0sV'' \<or> ''FFkpfm_tVs0'' = ''FFkpfm_tVs0''" by simp
  from kpfm_saved_run[OF sv nm]
  obtain S rho0 ks d0 lv0 nd0 h0 Vs dV lv nd h K Vt k2 sg out1 out2 v1 v2 where
    S: "load_settings E = Inr S"
    and tp: "kpfm_tip_plan A E S rho0 = Some (Vt, Some k2, sg)"
    and c2: "\<lparr>cV = np_imul d0 (- 1), cLvec = lv, cDim = nd, cK = k2, cVpot = energy A,
              cTilt = tilt A, cSigma = Some sg\<rparr> \<in> set (convs (trace (snd (main A E start))))"
    and o2: "computeElFF E (np_imul d0 (- 1)) lv nd k2 (energy A) (tilt A) (Some sg) = Inr out2"
    and v: "fst nd = 0 \<or> (Vs = Some (Some v1) \<and> Vt = Some (Some v2))"
    and dd: "(''FFkpfm_tVs0'' = ''FFkpfm_t0sV'' \<and>
       d = normalised (FF out1) v1 (linspace (lv 0 2 - z0 A) (lv 3 2 - z0 A) (fst nd)) (fst nd)) \<or>
      (''FFkpfm_tVs0'' = ''FFkpfm_tVs0'' \<and>
       d = normalised (FF out2) v2 (linspace (lv 0 2 - z0 A) (lv 3 2 - z0 A) (fst nd)) (fst nd))"
    by blast
  from dd have d: "d = normalised (FF out2) v2 (linspace (lv 0 2 - z0 A) (lv 3 2 - z0 A) (fst nd)) (fst nd)"
    by simp
  let ?c = "\<lparr>cV = np_imul d0 (- 1), cLvec = lv, cDim = nd, cK = k2, cVpot = energy A,
             cTilt = tilt A, cSigma = Some sg\<rparr>"
  from kpfm_tip_plan_token[OF tok tp]
  have tab: "(params_probeType S, cK ?c, cSigma ?c) \<in>
        {(''8'', KSym (TipDict [(''pz'', - 0.045)]), Some 0.48),
         (''47'', KSym (TipDict [(''pz'', - 0.21875)]), Some 0.7),
         (''54'', KSym (TipDict [(''pz'', - 0.250)]), Some 0.67)}"
    and Vt: "Vt = Some (Some (- 0.1))"
    by simp_all
  have r: "conv_result E ?c = Inr out2" using o2 by (simp add: conv_result_def)
  have sh: "shp d = shp (FF out2)" using d by (simp add: normalised_shp)
  have e1: "\<forall>i idx. i < fst (cDim ?c) \<longrightarrow>
        slice_height (cLvec ?c) (cDim ?c) i - z0 A + 0.1 \<noteq> 0 \<longrightarrow>
        el d (i # idx)
          = el (FF out2) (i # idx) / (- 0.1 * (slice_height (cLvec ?c) (cDim ?c) i - z0 A + 0.1))"
  proof (intro allI impI)
    fix i idx assume i: "i < fst (cDim ?c)"
    then have "fst nd \<noteq> 0" by auto
    with v Vt have "v2 = - 0.1" by simp
    with d i show "el d (i # idx)
          = el (FF out2) (i # idx) / (- 0.1 * (slice_height (cLvec ?c) (cDim ?c) i - z0 A + 0.1))"
      by (simp add: normalised_el)
  qed
  from S c2 r tab sh e1 show ?thesis
    by (intro exI[of _ S] exI[of _ ?c] exI[of _ out2] conjI)
qed

theorem analytic_tip_fixed_reference_witness:
  "KPFM_tip ex_args_kpfm \<in> {''Fit'', ''fit'', ''dipole'', ''pz''} \<and>
   saved ''FFkpfm_tVs0'' (trace (snd (main ex_args_kpfm ex_env start)))
     = Some (the (saved ''FFkpfm_tVs0'' (trace (snd (main ex_args_kpfm ex_env start))))) \<and>
   (\<exists>S c out.
     load_settings ex_env = Inr S \<and>
     c \<in> set (convs (trace (snd (main ex_args_kpfm ex_env start)))) \<and>
     conv_result ex_env c = Inr out \<and>
     (params_probeType S, cK c, cSigma c) \<in>
        {(''8'', KSym (TipDict [(''pz'', - 0.045)]), Some 0.48),
         (''47'', KSym (TipDict [(''pz'', - 0.21875)]), Some 0.7),
         (''54'', KSym (TipDict [(''pz'', - 0.250)]), Some 0.67)} \<and>
     shp (the (saved ''FFkpfm_tVs0'' (trace (snd (main ex_args_kpfm ex_env start))))) = shp (FF out) \<and>
     (\<forall>i idx. i < fst (cDim c) \<longrightarrow>
        slice_height (cLvec c) (cDim c) i - z0 ex_args_kpfm + 0.1 \<noteq> 0 \<longrightarrow>
        el (the (saved ''FFkpfm_tVs0'' (trace (snd (main ex_args_kpfm ex_env start))))) (i # idx)
          = el (FF out) (i # idx)
              / (- 0.1 * (slice_height (cLvec c) (cDim c) i - z0 ex_args_kpfm + 0.1)))) \<and>
   Vref ex_args_kpfm = Some 1"
proof -
  have t: "KPFM_tip ex_args_kpfm \<in> {''Fit'', ''fit'', ''dipole'', ''pz''}"
    by (simp add: ex_args_kpfm_def ex_args_def)
  have "saved ''FFkpfm_tVs0'' (trace (snd (main ex_args_kpfm ex_env start))) \<noteq> None"
    by (simp add: run_defs2 ex_defs ex_args_kpfm_def)
  then have a: "saved ''FFkpfm_tVs0'' (trace (snd (main ex_args_kpfm ex_env start)))
     = Some (the (saved ''FFkpfm_tVs0'' (trace (snd (main ex_args_kpfm ex_env start)))))"
    by simp
  have v: "Vref ex_args_kpfm = Some 1" by (simp add: ex_args_kpfm_def ex_args_def)
  from analytic_tip_fixed_reference [OF t a] t a v show ?thesis by blast
qed

text \<open>
  C10. A run of the KPFM branch with a tip density under bias from a file
  (\<^verbatim>\<open>--KPFM_tip\<close> ending in \<^verbatim>\<open>.xsf\<close> or \<^verbatim>\<open>.cube\<close>) needs \<^verbatim>\<open>--tip_dens\<close>: without it the
  run never completes and neither correlates nor writes anything, and when every step
  before line 113 or 118 succeeds (the parameters, the geometry of the sample, the
  potential, the tip and the potential under bias), it stops there with the
  \<^verbatim>\<open>NameError\<close> of the unbound name \<^verbatim>\<open>rho_tip\<close>, not with an error of the domain.
\<close>

theorem biased_tip_file_needs_tip_density:
  assumes "KPFM_sample A = Some ks" and "tip_from_file A" and "tip_dens A = None"
  shows "fst (main A E start) \<noteq> Inr () \<and>
     outline (trace (snd (main A E start))) = [] \<and>
     (\<forall>S atoms nds ls hs d0 lv nd h K rho0 x.
        load_settings E = Inr S \<longrightarrow>
        loadGeometry E (input A) = Inr (atoms, nds, ls) \<longrightarrow>
        sample_head E atoms ls = Some hs \<longrightarrow>
        read_grid E (input A) = Some (d0, lv, nd, h) \<longrightarrow>
        tip_plan A E S = Some (K, rho0) \<longrightarrow>
        kpfm_sample A E ks (np_imul d0 (- 1)) lv nd h = Some x \<longrightarrow>
        fst (main A E start) = Inl (NameError ''rho_tip''))"
proof -
  obtain r w' where run: "main A E start = (r, w')" by (cases "main A E start")
  from main_follows_plan[OF run] obtain pre n where
    p: "outline pre = []" "trace w' = pre @ take n (main_plan A E)"
    "\<forall>u. r = Inr u \<longrightarrow> take n (main_plan A E) = main_plan A E \<and>
                         outline (main_plan A E) = full_outline A"
    by blast
  note P = main_plan_unbound_rho_tip[OF assms, of E]
  from p(1,2) P have o: "outline (trace w') = []" by simp
  have nr: "r \<noteq> Inr ()"
  proof
    assume "r = Inr ()"
    with p(3) P have "full_outline A = []" by simp
    then show False by (simp add: full_outline_def)
  qed
  from main_unbound_rho_tip[OF assms, of E _ _ _ _ _ _ _ _ _ _ _ _ start]
  have "\<forall>S atoms nds ls hs d0 lv nd h K rho0 x.
        load_settings E = Inr S \<longrightarrow>
        loadGeometry E (input A) = Inr (atoms, nds, ls) \<longrightarrow>
        sample_head E atoms ls = Some hs \<longrightarrow>
        read_grid E (input A) = Some (d0, lv, nd, h) \<longrightarrow>
        tip_plan A E S = Some (K, rho0) \<longrightarrow>
        kpfm_sample A E ks (np_imul d0 (- 1)) lv nd h = Some x \<longrightarrow>
        fst (main A E start) = Inl (NameError ''rho_tip'')"
    by blast
  with o nr run show ?thesis by simp
qed

theorem biased_tip_file_needs_tip_density_witness:
  "KPFM_sample ex_args_kpfm_file = Some ''Vb.xsf'' \<and> tip_from_file ex_args_kpfm_file \<and>
   tip_dens ex_args_kpfm_file = None \<and>
   fst (main ex_args_kpfm_file ex_env start) \<noteq> Inr () \<and>
   outline (trace (snd (main ex_args_kpfm_file ex_env start))) = [] \<and>
   fst (main ex_args_kpfm_file ex_env start) = Inl (NameError ''rho_tip'')"
proof -
  have a: "KPFM_sample ex_args_kpfm_file = Some ''Vb.xsf''"
    and c: "tip_dens ex_args_kpfm_file = None"
    by (simp_all add: ex_args_kpfm_file_def ex_args_def)
  have b: "tip_from_file ex_args_kpfm_file"
    by (simp add: tip_from_file_def ex_args_kpfm_file_def ex_args_def endswith_def lower_def
                  lower_char_def)
  have d: "fst (main ex_args_kpfm_file ex_env start) = Inl (NameError ''rho_tip'')"
    by (simp add: run_defs2 ex_defs ex_args_kpfm_file_def)
  from biased_tip_file_needs_tip_density [OF a b c, of ex_env] a b c d show ?thesis by blast
qed

text \<open>
  C1. For a potential \<open>V\<close> and a kernel \<open>rho\<close> of the same shape \<open>(n1, n2, n3)\<close>, the
  correlation of the spec succeeds, and its energy at every voxel \<open>R\<close> of the grid is the
  cross-correlation \<open>\<Sum>r. rho (r - R) * V r\<close> over all voxels \<open>r\<close>, the difference \<open>r - R\<close>
  taken on the periodic grid (per axis, modulo the number of points); at the zero offset
  it is the dot product of \<open>rho\<close> and \<open>V\<close>. The correlation is the one modelled from the
  spec (\<open>correlate_energy\<close>): the routine \<^verbatim>\<open>computeElFF\<close> that \<^verbatim>\<open>main\<close> calls at lines 140,
  141 and 154 is not among the sources.
\<close>

theorem correlation_energy_is_cross_correlation:
  assumes "shp V = [n1, n2, n3]" and "shp rho = [n1, n2, n3]"
    and "R1 < n1" and "R2 < n2" and "R3 < n3"
  shows "\<exists>Eg. correlate_energy V rho = Inr Eg \<and> shp Eg = [n1, n2, n3] \<and>
     el Eg [R1, R2, R3] =
       (\<Sum>i<n1. \<Sum>j<n2. \<Sum>k<n3.
          el rho [(i + n1 - R1) mod n1, (j + n2 - R2) mod n2, (k + n3 - R3) mod n3] *
          el V [i, j, k]) \<and>
     el Eg [0, 0, 0] = (\<Sum>i<n1. \<Sum>j<n2. \<Sum>k<n3. el rho [i, j, k] * el V [i, j, k])"
proof -
  let ?rho = "\<lambda>i j k. el rho [i, j, k]" and ?V = "\<lambda>i j k. el V [i, j, k]"
  let ?F = "\<lambda>a b c. cnj (dft3 n1 n2 n3 (\<lambda>i j k. of_real (?rho i j k)) a b c) *
                     dft3 n1 n2 n3 (\<lambda>i j k. of_real (?V i j k)) a b c"
  let ?Eg = "\<lparr>shp = shp V, el = (\<lambda>R. Re (idft3 n1 n2 n3 ?F (R ! 0) (R ! 1) (R ! 2)))\<rparr>"
  from assms have n: "0 < n1" "0 < n2" "0 < n3" by auto
  have c: "correlate_energy V rho = Inr ?Eg"
    using assms(1,2) by (simp add: correlate_energy_def)
  have "el ?Eg [R1, R2, R3] = Re (idft3 n1 n2 n3 ?F R1 R2 R3)" by simp
  also have "\<dots> = (\<Sum>i<n1. \<Sum>j<n2. \<Sum>k<n3.
        ?rho i j k * ?V ((i + R1) mod n1) ((j + R2) mod n2) ((k + R3) mod n3))"
    by (simp only: corr3[OF assms(3-5)] Re_complex_of_real)
  also have "\<dots> = (\<Sum>i<n1. \<Sum>j<n2. \<Sum>k<n3.
        ?rho ((i + n1 - R1) mod n1) ((j + n2 - R2) mod n2) ((k + n3 - R3) mod n3) * ?V i j k)"
    by (rule corr3_shifted[OF assms(3-5)])
  finally have e1: "el ?Eg [R1, R2, R3] =
       (\<Sum>i<n1. \<Sum>j<n2. \<Sum>k<n3.
          el rho [(i + n1 - R1) mod n1, (j + n2 - R2) mod n2, (k + n3 - R3) mod n3] *
          el V [i, j, k])" .
  have "el ?Eg [0, 0, 0] = Re (idft3 n1 n2 n3 ?F 0 0 0)" by simp
  also have "\<dots> = (\<Sum>i<n1. \<Sum>j<n2. \<Sum>k<n3.
        ?rho i j k * ?V ((i + 0) mod n1) ((j + 0) mod n2) ((k + 0) mod n3))"
    by (simp only: corr3[OF n] Re_complex_of_real)
  also have "\<dots> = (\<Sum>i<n1. \<Sum>j<n2. \<Sum>k<n3. ?rho i j k * ?V i j k)"
    by (intro sum.cong refl) simp
  finally have e0: "el ?Eg [0, 0, 0] = (\<Sum>i<n1. \<Sum>j<n2. \<Sum>k<n3. el rho [i, j, k] * el V [i, j, k])" .
  have s: "shp ?Eg = [n1, n2, n3]" using assms(1) by simp
  from c s e1 e0 show ?thesis by blast
qed

theorem correlation_energy_is_cross_correlation_witness:
  "shp ex_V2 = [1, 1, 2] \<and> shp ex_rho2 = [1, 1, 2] \<and> (0::nat) < 1 \<and> (1::nat) < 2 \<and>
   (\<exists>Eg. correlate_energy ex_V2 ex_rho2 = Inr Eg \<and> shp Eg = [1, 1, 2] \<and>
         el Eg [0, 0, 1] = 29 \<and> el Eg [0, 0, 0] = 31)"
proof -
  have a: "shp ex_V2 = [1, 1, 2]" and b: "shp ex_rho2 = [1, 1, 2]"
    by (simp_all add: ex_V2_def ex_rho2_def)
  have r: "(0::nat) < 1" "(1::nat) < 2" by simp_all
  from correlation_energy_is_cross_correlation [OF a b r(1) r(1) r(2)]
  obtain Eg where e: "correlate_energy ex_V2 ex_rho2 = Inr Eg" "shp Eg = [1, 1, 2]"
    "el Eg [0, 0, 1] =
       (\<Sum>i<1. \<Sum>j<1. \<Sum>k<2.
          el ex_rho2 [(i + 1 - 0) mod 1, (j + 1 - 0) mod 1, (k + 2 - 1) mod 2] * el ex_V2 [i, j, k])"
    "el Eg [0, 0, 0] = (\<Sum>i<1. \<Sum>j<1. \<Sum>k<2. el ex_rho2 [i, j, k] * el ex_V2 [i, j, k])"
    by blast
  have "el Eg [0, 0, 1] = 29"
    unfolding e(3) by (simp add: ex_V2_def ex_rho2_def lessThan_Suc numeral_2_eq_2)
  moreover have "el Eg [0, 0, 0] = 31"
    unfolding e(4) by (simp add: ex_V2_def ex_rho2_def lessThan_Suc numeral_2_eq_2)
  ultimately show ?thesis using a b r e(1,2) by blast
qed

end
